theory Spec2Isabelle
  imports Complex_Main "HOL-Library.Sublist" "HOL-Library.AList" "HOL-Library.Char_ord"
    "HOL-Library.Log_Nat"
    "HOL-Library.List_Lexorder" "HOL-Library.Product_Lexorder"
begin

section \<open>Common vocabulary\<close>

text \<open>
  Every route handler answers with a JSON body and a status code. The model keeps the
  failure answers as values of \<open>error\<close>: status 400 for a rejected request body is
  \<open>ValidationError\<close>, status 404 is \<open>NotFound\<close>, status 409 is \<open>Conflict\<close>, the 400 answer of
  the undo route for a stale backup is \<open>UndoExpired\<close> (carrying the reported \<open>hoursOld\<close>),
  and the status 500 answer of a \<open>catch\<close> block is \<open>StoreError\<close>.

  Semesters are whole numbers (\<open>int\<close>): a semester of a path is the result of \<open>parseInt\<close>,
  which is \<open>NaN\<close> (\<open>None\<close>) or a whole double (a digit string so long that \<open>parseInt\<close>
  answers an infinity is outside the model). The counts of the attendance documents are
  doubles (see the section on numbers). Time stamps are milliseconds since the epoch
  (\<open>int\<close>), storage identities (\<open>_id\<close>) are natural numbers (a path parameter that is no
  well-formed identity is outside the model), strings are ASCII. A handler reads the clock
  once: every \<open>new Date()\<close> and \<open>Date.now()\<close> of one request is the parameter \<open>now\<close>. The
  store itself answers every operation: a lost connection, which would end a request in
  its \<open>catch\<close> block, is not modelled.
\<close>

datatype error = ValidationError | NotFound | Conflict | UndoExpired int | StoreError

text \<open>\<open>String.prototype.toLowerCase\<close>, on ASCII strings.\<close>

definition lower_char :: "char \<Rightarrow> char" where
  "lower_char c =
     (case map_of (zip ''ABCDEFGHIJKLMNOPQRSTUVWXYZ'' ''abcdefghijklmnopqrstuvwxyz'') c of
        Some l \<Rightarrow> l
      | None \<Rightarrow> c)"

definition toLowerCase :: "string \<Rightarrow> string" where
  "toLowerCase s = map lower_char s"

text \<open>
  \<open>new RegExp(p, 'i')\<close> is a function of the JavaScript runtime, not of this repository.
  The handlers take it as the parameter \<open>regexp_i\<close>: \<open>None\<close> when the constructor throws a
  syntax error, otherwise the predicate \<open>test\<close> of the compiled expression. The function
  \<open>literal_regexp_i\<close> is one such runtime, right for every pattern \<open>^w$\<close> whose \<open>w\<close> has no
  metacharacter; it serves as the concrete runtime of the worked examples.
\<close>

type_synonym regexp = "string \<Rightarrow> (string \<Rightarrow> bool) option"

definition anchored :: "string \<Rightarrow> string" where
  "anchored w = ''^'' @ w @ ''$''"

definition literal_regexp_i :: regexp where
  "literal_regexp_i p = Some (\<lambda>s. anchored (toLowerCase s) = toLowerCase p)"

section \<open>Promotion engine (routes/promotion.js)\<close>

subsection \<open>Documents\<close>

record stream_doc =
  sd_name :: string
  streamCode :: string

record student_doc =
  studentID :: string
  name :: string
  stream :: string
  semester :: int
  rollNumber :: string
  parentPhone :: string
  isActive :: bool
  updatedAt :: int

record student = student_doc +
  oid :: nat

record backup =
  b_oid :: nat
  b_stream :: string
  b_timestamp :: int
  b_students :: "student list"
  b_totalStudents :: nat
  b_restored :: bool
  b_restoredAt :: "int option"

record db =
  streams :: "stream_doc list"
  students :: "student list"
  promotion_history :: "backup list"
  next_oid :: nat

text \<open>
  \<open>const { _id, ...studentWithoutId } = student\<close> is \<open>without_id\<close>; inserting a document
  that has no \<open>_id\<close> makes the store assign a new one, which is \<open>with_id\<close>. \<open>insertMany\<close>
  hands out the identities \<open>next_oid\<close>, \<open>next_oid + 1\<close>, ... in the order of the batch.
\<close>

definition without_id :: "student \<Rightarrow> student_doc" where
  "without_id s = student_doc.truncate s"

definition with_id :: "nat \<Rightarrow> student_doc \<Rightarrow> student" where
  "with_id n d = student_doc.extend d (student.fields n)"

definition insertMany :: "nat \<Rightarrow> student_doc list \<Rightarrow> student list" where
  "insertMany n ds = map2 with_id [n ..< n + length ds] ds"

subsection \<open>Execute: POST /api/simple-promotion/:stream\<close>

datatype flow_line = Graduated nat | Promoted nat int int

record promotion_result =
  totalPromoted :: nat
  totalGraduated :: nat
  promotionFlow :: "flow_line list"

definition find_stream :: "stream_doc list \<Rightarrow> string \<Rightarrow> stream_doc option" where
  "find_stream ss streamName =
     find (\<lambda>s. sd_name s = streamName \<or> streamCode s = toLowerCase streamName) ss"

definition in_sem :: "string \<Rightarrow> int \<Rightarrow> student \<Rightarrow> bool" where
  "in_sem n k s \<longleftrightarrow> stream s = n \<and> semester s = k"

definition deleteMany_sem :: "string \<Rightarrow> int \<Rightarrow> student list \<Rightarrow> student list" where
  "deleteMany_sem n k xs = filter (\<lambda>s. \<not> in_sem n k s) xs"

definition updateMany_sem :: "int \<Rightarrow> string \<Rightarrow> int \<Rightarrow> student list \<Rightarrow> student list" where
  "updateMany_sem now n k xs =
     map (\<lambda>s. if in_sem n k s then s\<lparr>semester := k + 1, updatedAt := now\<rparr> else s) xs"

definition count_sem :: "string \<Rightarrow> int \<Rightarrow> student list \<Rightarrow> nat" where
  "count_sem n k xs = length (filter (in_sem n k) xs)"

text \<open>
  The loop \<open>for (currentSem = 5; currentSem >= 1; currentSem--)\<close>: the counter of
  \<open>promote_loop\<close> is \<open>currentSem\<close>, the state is the students collection together with
  \<open>totalPromoted\<close> and \<open>promotionFlow\<close>. \<open>modifiedCount\<close> is the number of matched
  documents, since each of them gets a new semester.
\<close>

fun promote_loop ::
  "int \<Rightarrow> string \<Rightarrow> nat \<Rightarrow> student list \<times> nat \<times> flow_line list
     \<Rightarrow> student list \<times> nat \<times> flow_line list" where
  "promote_loop now n 0 st = st"
| "promote_loop now n (Suc c) (xs, promoted, flow) =
     (let currentSem = int (Suc c);
          nextSem = currentSem + 1;
          modifiedCount = count_sem n currentSem xs
      in promote_loop now n c
           (updateMany_sem now n currentSem xs,
            (if modifiedCount > 0 then promoted + modifiedCount else promoted),
            (if modifiedCount > 0 then flow @ [Promoted modifiedCount currentSem nextSem]
             else flow)))"

definition new_backup :: "int \<Rightarrow> string \<Rightarrow> db \<Rightarrow> backup" where
  "new_backup now n d =
     (let allStudents = filter (\<lambda>s. stream s = n) (students d)
      in \<lparr>b_oid = next_oid d, b_stream = n, b_timestamp = now, b_students = allStudents,
          b_totalStudents = length allStudents, b_restored = False, b_restoredAt = None\<rparr>)"

definition simple_promotion :: "int \<Rightarrow> string \<Rightarrow> db \<Rightarrow> error + (promotion_result \<times> db)" where
  "simple_promotion now streamName d =
     (case find_stream (streams d) streamName of
        None \<Rightarrow> Inl NotFound
      | Some streamData \<Rightarrow>
          (let n = sd_name streamData;
               history = promotion_history d @ [new_backup now n d];
               deletedCount = count_sem n 6 (students d);
               remaining = deleteMany_sem n 6 (students d);
               flow0 = (if deletedCount > 0 then [Graduated deletedCount] else []);
               (final, promoted, flow) = promote_loop now n 5 (remaining, 0, flow0)
           in Inr (\<lparr>totalPromoted = promoted, totalGraduated = deletedCount,
                     promotionFlow = flow\<rparr>,
                   d\<lparr>students := final, promotion_history := history,
                     next_oid := next_oid d + 1\<rparr>)))"

subsection \<open>Undo: GET /api/can-undo-promotion/:stream and POST /api/undo-promotion/:stream\<close>

text \<open>
  \<open>.sort({ timestamp: -1 }).limit(1)\<close>: the store leaves the order of equal time stamps
  open; the model sorts stably, so that among equal time stamps the earlier inserted
  document comes first.
\<close>

definition latest_first :: "backup list \<Rightarrow> backup list" where
  "latest_first bs = take 1 (sort_key (\<lambda>b. - b_timestamp b) bs)"

definition find_stream_i :: "(string \<Rightarrow> bool) \<Rightarrow> stream_doc list \<Rightarrow> string \<Rightarrow> stream_doc option" where
  "find_stream_i re ss streamName =
     find (\<lambda>s. re (sd_name s) \<or> streamCode s = toLowerCase streamName) ss"

definition hours_old :: "int \<Rightarrow> backup \<Rightarrow> int" where
  "hours_old now b = (now - b_timestamp b) div (1000 * 60 * 60)"

datatype can_undo_result =
  NoBackupAvailable
  | BackupInfo (canUndo: bool) (backupTimestamp: int) (hoursOld: int) (studentsInBackup: nat)

definition can_undo_promotion :: "regexp \<Rightarrow> int \<Rightarrow> string \<Rightarrow> db \<Rightarrow> error + can_undo_result" where
  "can_undo_promotion regexp_i now streamName d =
     (case regexp_i (anchored streamName) of
        None \<Rightarrow> Inl StoreError
      | Some re \<Rightarrow>
          (case find_stream_i re (streams d) streamName of
             None \<Rightarrow> Inl NotFound
           | Some streamData \<Rightarrow>
               (case latest_first
                       (filter (\<lambda>b. b_stream b = sd_name streamData \<and> \<not> b_restored b)
                          (promotion_history d)) of
                  [] \<Rightarrow> Inr NoBackupAvailable
                | latestBackup # _ \<Rightarrow>
                    Inr (BackupInfo (hours_old now latestBackup \<le> 24)
                           (b_timestamp latestBackup) (hours_old now latestBackup)
                           (length (b_students latestBackup))))))"

record undo_result =
  studentsRestored :: nat
  restoredFrom :: int

definition mark_restored :: "int \<Rightarrow> nat \<Rightarrow> backup list \<Rightarrow> backup list" where
  "mark_restored now i bs =
     (case find (\<lambda>b. b_oid b = i) bs of
        None \<Rightarrow> bs
      | Some b \<Rightarrow>
          (let k = length (takeWhile (\<lambda>b. b_oid b \<noteq> i) bs)
           in bs[k := b\<lparr>b_restored := True, b_restoredAt := Some now\<rparr>]))"

definition undo_promotion :: "regexp \<Rightarrow> int \<Rightarrow> string \<Rightarrow> db \<Rightarrow> error + (undo_result \<times> db)" where
  "undo_promotion regexp_i now streamName d =
     (case regexp_i (anchored streamName) of
        None \<Rightarrow> Inl StoreError
      | Some re \<Rightarrow>
          (case find_stream_i re (streams d) streamName of
             None \<Rightarrow> Inl NotFound
           | Some streamData \<Rightarrow>
               (case latest_first
                       (filter (\<lambda>b. b_stream b = sd_name streamData) (promotion_history d)) of
                  [] \<Rightarrow> Inl NotFound
                | latestBackup # _ \<Rightarrow>
                    (if hours_old now latestBackup > 24
                     then Inl (UndoExpired (hours_old now latestBackup))
                     else
                       (let kept = filter (\<lambda>s. stream s \<noteq> sd_name streamData) (students d);
                            studentsToInsert = map without_id (b_students latestBackup);
                            inserted = insertMany (next_oid d) studentsToInsert
                        in Inr (\<lparr>studentsRestored = length (b_students latestBackup),
                                  restoredFrom = b_timestamp latestBackup\<rparr>,
                                d\<lparr>students := kept @ inserted,
                                  promotion_history :=
                                    mark_restored now (b_oid latestBackup) (promotion_history d),
                                  next_oid := next_oid d + length studentsToInsert\<rparr>))))))"

subsection \<open>What one pass does to one student\<close>

text \<open>
  The effect of the whole pass on a single student, used to state the result of
  \<open>simple_promotion\<close>: a student of the stream at a semester from 1 to \<open>hi\<close> moves up by
  exactly one semester, every other student is left as it is.
\<close>

definition promoted_student :: "int \<Rightarrow> string \<Rightarrow> int \<Rightarrow> student \<Rightarrow> student" where
  "promoted_student now n hi s =
     (if stream s = n \<and> 1 \<le> semester s \<and> semester s \<le> hi
      then s\<lparr>semester := semester s + 1, updatedAt := now\<rparr> else s)"

subsection \<open>A small database for the worked examples\<close>

definition example_student :: "nat \<Rightarrow> string \<Rightarrow> string \<Rightarrow> int \<Rightarrow> student" where
  "example_student i sid str sem =
     \<lparr>studentID = sid, name = sid, stream = str, semester = sem, rollNumber = sid,
      parentPhone = [], isActive = True, updatedAt = 0, oid = i\<rparr>"

definition example_db :: db where
  "example_db =
     \<lparr>streams = [\<lparr>sd_name = ''BCA'', streamCode = ''bca''\<rparr>],
      students = [example_student 1 ''S1'' ''BCA'' 1, example_student 2 ''S2'' ''BCA'' 5,
                  example_student 3 ''S3'' ''BCA'' 6, example_student 4 ''T1'' ''BBA'' 6],
      promotion_history = [], next_oid = 5\<rparr>"

text \<open>The same database after execute at time 1000, and after an undo at time 2000.\<close>

definition example_promoted :: db where
  "example_promoted =
     (case simple_promotion 1000 ''BCA'' example_db of Inr (r, d) \<Rightarrow> d | Inl e \<Rightarrow> example_db)"

definition example_undone :: db where
  "example_undone =
     (case undo_promotion literal_regexp_i 2000 ''BCA'' example_promoted of
        Inr (r, d) \<Rightarrow> d
      | Inl e \<Rightarrow> example_promoted)"

definition example_db_old :: db where
  "example_db_old =
     example_db\<lparr>promotion_history :=
       [\<lparr>b_oid = 0, b_stream = ''BCA'', b_timestamp = 10, b_students = [],
         b_totalStudents = 0, b_restored = False, b_restoredAt = None\<rparr>]\<rparr>"

text \<open>
  A database with two streams whose names differ in case only, as the stream lists of the
  front end have them (\<open>BCom\<close> and \<open>BCOM\<close>), and the same database after execute for the
  parameter \<open>BCOM\<close> at time 1000.
\<close>

definition example_two_streams :: db where
  "example_two_streams =
     \<lparr>streams = [\<lparr>sd_name = ''BCom'', streamCode = ''bcm''\<rparr>,
                 \<lparr>sd_name = ''BCOM'', streamCode = ''bcom''\<rparr>],
      students = [example_student 1 ''S1'' ''BCOM'' 1, example_student 2 ''S2'' ''BCOM'' 6,
                  example_student 3 ''T1'' ''BCom'' 3],
      promotion_history = [], next_oid = 4\<rparr>"

definition example_two_promoted :: db where
  "example_two_promoted =
     (case simple_promotion 1000 ''BCOM'' example_two_streams of
        Inr (r, d) \<Rightarrow> d
      | Inl e \<Rightarrow> example_two_streams)"

section \<open>Numbers of the runtime\<close>

text \<open>
  A JavaScript number is an IEEE 754 double (binary64). A finite double is a rational
  number, and the result of an arithmetic operation is the exact result rounded to the
  nearest double, to the one with the even significand on a tie. \<open>binary64\<close> is that
  rounding: \<open>exponent x\<close> is the integer \<open>e\<close> with \<open>2\<^sup>e \<le> |x| < 2\<^sup>e\<^sup>+\<^sup>1\<close>, the doubles of that
  binade are the multiples of \<open>2\<^sup>e\<^sup>-\<^sup>5\<^sup>2\<close>, and below \<open>2\<^sup>-\<^sup>1\<^sup>0\<^sup>2\<^sup>2\<close> (subnormal numbers) the
  spacing stays \<open>2\<^sup>-\<^sup>1\<^sup>0\<^sup>7\<^sup>4\<close>. A result of magnitude \<open>2\<^sup>1\<^sup>0\<^sup>2\<^sup>4\<close> or more is an infinity in the
  program; no operation of the handlers below reaches it from finite operands. \<open>NaN\<close> is
  \<open>None\<close> where a handler can meet it.
\<close>

definition round_half_even :: "rat \<Rightarrow> int" where
  "round_half_even x =
     (let n = \<lfloor>x\<rfloor>; r = x - of_int n
      in if r < 1 / 2 then n else if 1 / 2 < r then n + 1 else if even n then n else n + 1)"

definition exponent :: "rat \<Rightarrow> int" where
  "exponent x =
     (let (p, q) = quotient_of \<bar>x\<bar>; e = bitlen p - bitlen q
      in if 2 powi e \<le> \<bar>x\<bar> then e else e - 1)"

definition binary64 :: "rat \<Rightarrow> rat" where
  "binary64 x =
     (if x = 0 then 0
      else (let e = max (exponent x) (- 1022); ulp = 2 powi (e - 52)
            in of_int (round_half_even (x / ulp)) * ulp))"

section \<open>Session store, cache and write routes (routes/viewAttendanceRoutes.js)\<close>

subsection \<open>The attendance schema\<close>

text \<open>
  One document of the collection \<open>attendance\<close>. The schema option \<open>timestamps\<close> adds
  \<open>createdAt\<close> and \<open>updatedAt\<close>. The fields that share a name with a field of the student
  documents carry the prefix \<open>s_\<close>. The three counts are numbers of the schema type
  \<open>Number\<close>, that is doubles: they are rationals here, and every subtraction that the
  code performs on them is rounded by \<open>binary64\<close>. The length of an array is a whole number
  below \<open>2\<^sup>3\<^sup>2\<close> and is a double as it is.
\<close>

record session =
  sessionId :: nat
  s_stream :: string
  s_semester :: int
  subject :: string
  date :: int
  time :: string
  studentsPresent :: "string list"
  totalStudents :: rat
  presentCount :: rat
  absentCount :: rat
  createdAt :: int
  s_updatedAt :: int

record store =
  sessions :: "session list"
  next_session :: nat

text \<open>
  The validators of the schema, which \<open>save()\<close> runs before the \<open>pre('save')\<close> hook and
  which \<open>findByIdAndUpdate\<close> and \<open>bulkWrite\<close> do not run: required strings are not empty,
  the semester lies between 1 and 8, the three counts are not negative.
\<close>

definition schema_valid :: "session \<Rightarrow> bool" where
  "schema_valid s \<longleftrightarrow>
     s_stream s \<noteq> [] \<and> 1 \<le> s_semester s \<and> s_semester s \<le> 8 \<and> subject s \<noteq> [] \<and> time s \<noteq> []
     \<and> 0 \<le> totalStudents s \<and> 0 \<le> presentCount s \<and> 0 \<le> absentCount s"

definition pre_save :: "session \<Rightarrow> session" where
  "pre_save s =
     (let s1 = (if presentCount s = 0 then s\<lparr>presentCount := of_nat (length (studentsPresent s))\<rparr>
                else s)
      in if absentCount s1 = 0
         then s1\<lparr>absentCount := binary64 (totalStudents s1 - presentCount s1)\<rparr>
         else s1)"

text \<open>\<open>String.prototype.trim\<close> of the schema option \<open>trim\<close>, on ASCII strings.\<close>

definition is_space :: "char \<Rightarrow> bool" where
  "is_space c \<longleftrightarrow> c \<in> set [CHR '' '', CHR 0x09, CHR 0x0A, CHR 0x0B, CHR 0x0C, CHR 0x0D]"

definition trim :: "string \<Rightarrow> string" where
  "trim s = rev (dropWhile is_space (rev (dropWhile is_space s)))"

subsection \<open>Cache\<close>

text \<open>
  \<open>const cache = new Map()\<close>: keys in insertion order, each with \<open>{ data, timestamp }\<close>.
  \<open>Map.set\<close> on a key that is present keeps its place, which is \<open>AList.update\<close>.
\<close>

type_synonym 'v cache = "(string \<times> ('v \<times> int)) list"

definition CACHE_TTL :: int where
  "CACHE_TTL = 5 * 60 * 1000"

fun string_of_nat :: "nat \<Rightarrow> string" where
  "string_of_nat n =
     (if n < 10 then [''0123456789'' ! n]
      else string_of_nat (n div 10) @ [''0123456789'' ! (n mod 10)])"

declare string_of_nat.simps [simp del]

text \<open>\<open>JSON.stringify\<close> of a string.\<close>

definition hex_digit :: "nat \<Rightarrow> char" where
  "hex_digit n = ''0123456789abcdef'' ! (n mod 16)"

definition json_char :: "char \<Rightarrow> string" where
  "json_char c =
     (if c = CHR 0x22 then [CHR 0x5C, CHR 0x22]
      else if c = CHR 0x5C then [CHR 0x5C, CHR 0x5C]
      else if c = CHR 0x08 then [CHR 0x5C, CHR ''b'']
      else if c = CHR 0x0C then [CHR 0x5C, CHR ''f'']
      else if c = CHR 0x0A then [CHR 0x5C, CHR ''n'']
      else if c = CHR 0x0D then [CHR 0x5C, CHR ''r'']
      else if c = CHR 0x09 then [CHR 0x5C, CHR ''t'']
      else if (of_char c :: nat) < 32
        then [CHR 0x5C, CHR ''u'', CHR ''0'', CHR ''0'',
              hex_digit (of_char c div 16), hex_digit (of_char c)]
      else [c])"

definition json_string :: "string \<Rightarrow> string" where
  "json_string s = [CHR 0x22] @ concat (map json_char s) @ [CHR 0x22]"

text \<open>
  \<open>JSON.stringify\<close> of a number is \<open>Number::toString\<close>: the decimal numeral with the
  fewest significant digits that still reads back as the same double (of several such
  numerals the one nearest to the double, of two equally near ones the one with the even
  last digit), written in full when it has at most 21 digits and with an exponent
  otherwise. The numbers that reach it here are results of \<open>parseInt\<close>: whole doubles, or
  \<open>NaN\<close> (\<open>None\<close>), which is written \<open>null\<close>. \<open>shortest_at v k\<close> is the numeral with \<open>k\<close>
  significant digits for the whole double \<open>v\<close>, if there is one.
\<close>

definition rounds_to :: "nat \<Rightarrow> nat \<Rightarrow> bool" where
  "rounds_to c v \<longleftrightarrow> binary64 (of_nat c) = of_nat v"

definition shortest_at :: "nat \<Rightarrow> nat \<Rightarrow> nat option" where
  "shortest_at v k =
     (let scale = 10 ^ (length (string_of_nat v) - k);
          lo = v div scale * scale;
          hi = lo + scale
      in if rounds_to lo v \<and> rounds_to hi v
         then Some (if v - lo < hi - v then lo
                    else if hi - v < v - lo then hi
                    else if even (lo div scale) then lo else hi)
         else if rounds_to lo v then Some lo
         else if rounds_to hi v then Some hi
         else None)"

fun shortest_from :: "nat \<Rightarrow> nat \<Rightarrow> nat \<Rightarrow> nat" where
  "shortest_from v k 0 = v"
| "shortest_from v k (Suc fuel) =
     (case shortest_at v k of
        Some c \<Rightarrow> c
      | None \<Rightarrow> shortest_from v (k + 1) fuel)"

definition shortest_decimal :: "nat \<Rightarrow> nat" where
  "shortest_decimal v = shortest_from v 1 (length (string_of_nat v))"

definition strip_zeros :: "string \<Rightarrow> string" where
  "strip_zeros s = rev (dropWhile (\<lambda>c. c = CHR ''0'') (rev s))"

definition number_to_string :: "nat \<Rightarrow> string" where
  "number_to_string v =
     (let ds = string_of_nat (shortest_decimal v);
          n = length ds;
          significant = strip_zeros ds
      in if n \<le> 21 then ds
         else (if length significant = 1 then significant
               else hd significant # ''.'' @ tl significant)
              @ ''e+'' @ string_of_nat (n - 1))"

definition json_number :: "int option \<Rightarrow> string" where
  "json_number x =
     (case x of
        None \<Rightarrow> ''null''
      | Some i \<Rightarrow>
          (if i < 0 then ''-'' @ number_to_string (nat (- i)) else number_to_string (nat i)))"

text \<open>
  \<open>getCacheKey(prefix, params)\<close> joins the prefix and \<open>JSON.stringify(params)\<close>. Its only
  call in this module is \<open>getCacheKey('stats', { stream, semester: semesterNumber })\<close>.
\<close>

definition getCacheKey :: "string \<Rightarrow> string \<Rightarrow> string" where
  "getCacheKey key_prefix params_json = key_prefix @ '':'' @ params_json"

definition stats_params :: "string \<Rightarrow> int option \<Rightarrow> string" where
  "stats_params stream_param semesterNumber =
     ''{'' @ json_string ''stream'' @ '':'' @ json_string stream_param @ '',''
       @ json_string ''semester'' @ '':'' @ json_number semesterNumber @ ''}''"

definition stats_key :: "string \<Rightarrow> int option \<Rightarrow> string" where
  "stats_key stream_param semesterNumber =
     getCacheKey ''stats'' (stats_params stream_param semesterNumber)"

definition setCache :: "int \<Rightarrow> string \<Rightarrow> 'v \<Rightarrow> 'v cache \<Rightarrow> 'v cache" where
  "setCache now key v c = AList.update key (v, now) c"

definition getCache :: "int \<Rightarrow> string \<Rightarrow> 'v cache \<Rightarrow> 'v option \<times> 'v cache" where
  "getCache now key c =
     (case map_of c key of
        None \<Rightarrow> (None, c)
      | Some (v, timestamp) \<Rightarrow>
          if now - timestamp > CACHE_TTL then (None, AList.delete key c) else (Some v, c))"

definition clearCachePattern :: "string \<Rightarrow> 'v cache \<Rightarrow> 'v cache" where
  "clearCachePattern pattern c = filter (\<lambda>(key, e). \<not> prefix pattern key) c"

definition clear_stream :: "string \<Rightarrow> 'v cache \<Rightarrow> 'v cache" where
  "clear_stream stream_name c =
     clearCachePattern (''stats:'' @ stream_name)
       (clearCachePattern (''attendance:'' @ stream_name) c)"

subsection \<open>GET /attendance/stats/:stream/:semester\<close>

text \<open>
  The aggregation pipeline: \<open>$match\<close> on stream (case-insensitive pattern) and semester,
  \<open>$group\<close> by subject, \<open>$sort\<close> by subject. The sums and the mean are those of the store,
  which are kept exact here: \<open>avgAttendance\<close> is the exact mean of the quotients
  \<open>presentCount / totalStudents\<close>, of which the store answers a double nearby.
  \<open>$divide\<close> by zero makes the store reject the pipeline. A semester that is \<open>NaN\<close> matches
  no document.
\<close>

record stats_row =
  st_subject :: string
  totalClasses :: nat
  totalPresent :: rat
  totalAbsent :: rat
  avgAttendance :: rat

definition stats_group :: "string \<Rightarrow> session list \<Rightarrow> stats_row" where
  "stats_group sub xs =
     \<lparr>st_subject = sub, totalClasses = length xs,
      totalPresent = sum_list (map presentCount xs),
      totalAbsent = sum_list (map absentCount xs),
      avgAttendance =
        sum_list (map (\<lambda>s. presentCount s / totalStudents s) xs)
          / of_nat (length xs)\<rparr>"

definition aggregate_stats ::
  "(string \<Rightarrow> bool) \<Rightarrow> int option \<Rightarrow> session list \<Rightarrow> error + stats_row list" where
  "aggregate_stats re semesterNumber xs =
     (let matched = filter (\<lambda>s. re (s_stream s) \<and> Some (s_semester s) = semesterNumber) xs
      in if list_ex (\<lambda>s. totalStudents s = 0) matched then Inl StoreError
         else Inr (map (\<lambda>sub. stats_group sub (filter (\<lambda>s. subject s = sub) matched))
                     (sort (remdups (map subject matched)))))"

text \<open>
  The state of the module routes/viewAttendanceRoutes.js: its cache, the collection, and
  the number of pipelines the store has been asked to run (a counter of the model, to tell
  a cached answer from a computed one). The cache is a constant of the module:
  routes/attendanceRoutes.js has another one of its own, with the same functions, and
  shares only the collection.
\<close>

record app =
  cache :: "stats_row list cache"
  attendance :: store
  store_queries :: nat

definition stats_route ::
  "regexp \<Rightarrow> int \<Rightarrow> string \<Rightarrow> int option \<Rightarrow> app \<Rightarrow> (error + stats_row list) \<times> app" where
  "stats_route regexp_i now stream_param semesterNumber a =
     (let cacheKey = stats_key stream_param semesterNumber;
          (hit, c1) = getCache now cacheKey (cache a)
      in case hit of
           Some stats \<Rightarrow> (Inr stats, a\<lparr>cache := c1\<rparr>)
         | None \<Rightarrow>
             (case regexp_i (anchored stream_param) of
                None \<Rightarrow> (Inl StoreError, a\<lparr>cache := c1\<rparr>)
              | Some re \<Rightarrow>
                  (case aggregate_stats re semesterNumber (sessions (attendance a)) of
                     Inl e \<Rightarrow> (Inl e, a\<lparr>cache := c1, store_queries := store_queries a + 1\<rparr>)
                   | Inr stats \<Rightarrow>
                       (Inr stats,
                        a\<lparr>cache := setCache now cacheKey stats c1,
                          store_queries := store_queries a + 1\<rparr>))))"

subsection \<open>PUT /attendance/session/:id\<close>

text \<open>
  A field of a request body that should hold an array: absent (\<open>undefined\<close> or \<open>null\<close>),
  some other JSON value, or an array of strings. \<open>totalStudents\<close> is a JSON number, a
  finite double, or \<open>None\<close> when the field is absent or \<open>null\<close>; the guard rejects both, as
  it rejects zero and every number below 1.
\<close>

datatype array_field = Missing | NotArray | Arr "string list"

record update_body =
  u_studentsPresent :: array_field
  u_totalStudents :: "rat option"

definition findById :: "nat \<Rightarrow> session list \<Rightarrow> session option" where
  "findById i xs = find (\<lambda>s. sessionId s = i) xs"

text \<open>Replace the first document of the given identity, as an update of one document does.\<close>

fun replace_first :: "nat \<Rightarrow> session \<Rightarrow> session list \<Rightarrow> session list" where
  "replace_first i new [] = []"
| "replace_first i new (s # xs) = (if sessionId s = i then new # xs else s # replace_first i new xs)"

text \<open>
  The \<open>$set\<close> of both update routes: \<open>presentCount\<close> is the length of the array and
  \<open>absentCount\<close> the double \<open>totalStudents - presentCount\<close>; the schema option \<open>timestamps\<close>
  adds \<open>updatedAt\<close>.
\<close>

definition set_attendance :: "int \<Rightarrow> string list \<Rightarrow> rat \<Rightarrow> session \<Rightarrow> session" where
  "set_attendance now present tot s =
     s\<lparr>studentsPresent := present,
       presentCount := of_nat (length present),
       absentCount := binary64 (tot - of_nat (length present)),
       totalStudents := tot,
       s_updatedAt := now\<rparr>"

definition update_session ::
  "int \<Rightarrow> nat \<Rightarrow> update_body \<Rightarrow> app \<Rightarrow> error + (session \<times> app)" where
  "update_session now i body a =
     (case u_studentsPresent body of
        Missing \<Rightarrow> Inl StoreError
      | NotArray \<Rightarrow> Inl ValidationError
      | Arr present \<Rightarrow>
          (case u_totalStudents body of
             None \<Rightarrow> Inl ValidationError
           | Some tot \<Rightarrow>
               if tot = 0 \<or> tot < 1 then Inl ValidationError
               else
                 (case findById i (sessions (attendance a)) of
                    None \<Rightarrow> Inl NotFound
                  | Some old \<Rightarrow>
                      (let result = set_attendance now present tot old
                       in Inr (result,
                               a\<lparr>attendance := (attendance a)
                                    \<lparr>sessions := replace_first i result (sessions (attendance a))\<rparr>,
                                 cache := clear_stream (s_stream result) (cache a)\<rparr>)))))"

subsection \<open>PUT /attendance/bulk/:stream/:semester/:subject/:date\<close>

record bulk_update =
  bu_sessionId :: nat
  bu_studentsPresent :: "string list option"
  bu_totalStudents :: "rat option"

text \<open>
  \<open>updates.map\<close> builds every operation before the first write: an update without
  \<open>studentsPresent\<close> throws there, and one without \<open>totalStudents\<close> gives \<open>NaN\<close> for
  \<open>absentCount\<close>, which \<open>bulkWrite\<close> refuses to cast. A field is \<open>None\<close> when the update
  does not have it; an update whose field is \<open>null\<close> is outside the model. The operations
  then run in order (an empty batch writes nothing); \<open>modifiedCount\<close> counts the
  documents an operation has changed.
\<close>

fun bulk_ops :: "bulk_update list \<Rightarrow> (nat \<times> string list \<times> rat) list option" where
  "bulk_ops [] = Some []"
| "bulk_ops (u # us) =
     (case (bu_studentsPresent u, bu_totalStudents u) of
        (Some present, Some tot) \<Rightarrow>
          (case bulk_ops us of
             None \<Rightarrow> None
           | Some ops \<Rightarrow> Some ((bu_sessionId u, present, tot) # ops))
      | _ \<Rightarrow> None)"

fun bulkWrite :: "int \<Rightarrow> (nat \<times> string list \<times> rat) list \<Rightarrow> session list \<Rightarrow> nat \<times> session list" where
  "bulkWrite now [] xs = (0, xs)"
| "bulkWrite now ((i, present, tot) # ops) xs =
     (case findById i xs of
        None \<Rightarrow> bulkWrite now ops xs
      | Some old \<Rightarrow>
          (let new = set_attendance now present tot old;
               (modified, ys) = bulkWrite now ops (replace_first i new xs)
           in ((if new = old then modified else modified + 1), ys)))"

definition bulk_update_route ::
  "int \<Rightarrow> string \<Rightarrow> bulk_update list option \<Rightarrow> app \<Rightarrow> error + (nat \<times> app)" where
  "bulk_update_route now stream_param updates a =
     (case updates of
        None \<Rightarrow> Inl ValidationError
      | Some us \<Rightarrow>
          (case bulk_ops us of
             None \<Rightarrow> Inl StoreError
           | Some ops \<Rightarrow>
               (let (modified, ys) = bulkWrite now ops (sessions (attendance a))
                in Inr (modified,
                        a\<lparr>attendance := (attendance a)\<lparr>sessions := ys\<rparr>,
                          cache := clear_stream stream_param (cache a)\<rparr>))))"

subsection \<open>DELETE /attendance/:id\<close>

fun remove_first :: "nat \<Rightarrow> session list \<Rightarrow> session list" where
  "remove_first i [] = []"
| "remove_first i (s # xs) = (if sessionId s = i then xs else s # remove_first i xs)"

text \<open>
  The identity travels in the path as a string; the model writes it in decimal. The route
  answers \<open>{ success: true, message: 'Deleted successfully' }\<close>, which is \<open>Inr\<close>, or status
  404 with \<open>{ success: false, error: 'Record not found' }\<close>, which is \<open>Inl NotFound\<close>.
\<close>

definition delete_route :: "nat \<Rightarrow> app \<Rightarrow> error + app" where
  "delete_route i a =
     (case findById i (sessions (attendance a)) of
        None \<Rightarrow> Inl NotFound
      | Some found \<Rightarrow>
          Inr (a\<lparr>attendance := (attendance a)
                   \<lparr>sessions := remove_first i (sessions (attendance a))\<rparr>,
                 cache := clear_stream (s_stream found)
                            (AList.delete (''attendance:single:'' @ string_of_nat i) (cache a))\<rparr>))"

subsection \<open>POST /attendance/:stream/:semester/:subject (routes/attendanceRoutes.js)\<close>

text \<open>
  The body of a submission. \<open>totalStudents\<close> is absent (\<open>undefined\<close>), \<open>null\<close> or a number:
  the guard of the route asks \<open>totalStudents === undefined\<close>, so that \<open>null\<close> passes it and
  fails the validator \<open>required\<close> in \<open>save()\<close>. A count is taken from the body when it is
  truthy, that is present, not \<open>null\<close> and not zero. \<open>semesterNumber\<close> is the result of
  \<open>parseInt\<close> (\<open>None\<close> for \<open>NaN\<close>) and \<open>parse_date\<close> stands for \<open>new Date(date)\<close> (\<open>None\<close> for
  an invalid date); both make the cast of the document fail.

  The route belongs to the module routes/attendanceRoutes.js: the cache it clears is the
  one of that module, \<open>mark_cache\<close>, and the collection is the one it shares with
  routes/viewAttendanceRoutes.js. The middleware of the module, which answers 503 without
  a database handle and 429 above 100 requests a minute, runs before the handler and
  writes nothing; the model is the handler.
\<close>

datatype number_field = Undefined | Null | Number rat

record submit_body =
  sb_date :: "string option"
  sb_time :: "string option"
  sb_studentsPresent :: "string list option"
  sb_totalStudents :: number_field
  sb_presentCount :: "rat option"
  sb_absentCount :: "rat option"

definition falsy_string :: "string option \<Rightarrow> bool" where
  "falsy_string x \<longleftrightarrow> x = None \<or> x = Some []"

definition or_else :: "rat option \<Rightarrow> rat \<Rightarrow> rat" where
  "or_else x d = (case x of None \<Rightarrow> d | Some v \<Rightarrow> if v = 0 then d else v)"

definition submit_attendance ::
  "(string \<Rightarrow> int option) \<Rightarrow> int \<Rightarrow> string \<Rightarrow> int option \<Rightarrow> string \<Rightarrow> submit_body
     \<Rightarrow> 'v cache \<Rightarrow> store \<Rightarrow> error + (nat \<times> 'v cache \<times> store)" where
  "submit_attendance parse_date now stream_param semesterNumber subject_param body mark_cache st =
     (if falsy_string (sb_date body) \<or> falsy_string (sb_time body)
         \<or> sb_studentsPresent body = None \<or> sb_totalStudents body = Undefined
      then Inl ValidationError
      else
        (case (sb_totalStudents body, semesterNumber, parse_date (the (sb_date body))) of
           (Number tot, Some sem, Some d) \<Rightarrow>
             (let present = the (sb_studentsPresent body);
                  doc = \<lparr>sessionId = next_session st,
                         s_stream = trim stream_param, s_semester = sem,
                         subject = trim subject_param, date = d,
                         time = the (sb_time body), studentsPresent = present,
                         totalStudents = tot,
                         presentCount = or_else (sb_presentCount body) (of_nat (length present)),
                         absentCount =
                           or_else (sb_absentCount body)
                             (binary64 (tot - of_nat (length present))),
                         createdAt = now, s_updatedAt = now\<rparr>
              in if \<not> schema_valid doc then Inl StoreError
                 else Inr (sessionId doc,
                           clear_stream stream_param mark_cache,
                           \<lparr>sessions = sessions st @ [pre_save doc],
                            next_session = next_session st + 1\<rparr>))
         | _ \<Rightarrow> Inl StoreError))"

subsection \<open>The invariant of the counts, and examples\<close>

text \<open>
  The two equations of the counts, in exact arithmetic; a count that a request does not
  carry or carries as zero; a subtraction \<open>totalStudents - |studentsPresent|\<close> whose exact
  result is a double, so that the runtime does not round it; and, for a batch of updates,
  the last update that names a session.
\<close>

definition counts_ok :: "session \<Rightarrow> bool" where
  "counts_ok s \<longleftrightarrow>
     presentCount s + absentCount s = totalStudents s
     \<and> presentCount s = of_nat (length (studentsPresent s))"

definition no_count :: "rat option \<Rightarrow> bool" where
  "no_count x \<longleftrightarrow> x = None \<or> x = Some 0"

definition exact_difference :: "rat \<Rightarrow> nat \<Rightarrow> bool" where
  "exact_difference tot n \<longleftrightarrow> binary64 (tot - of_nat n) = tot - of_nat n"

definition last_update :: "bulk_update list \<Rightarrow> nat \<Rightarrow> bulk_update option" where
  "last_update us i = find (\<lambda>u. bu_sessionId u = i) (rev us)"

definition example_parse_date :: "string \<Rightarrow> int option" where
  "example_parse_date s =
     (if s = ''2025-01-10'' then Some 1736467200000
      else if s = ''2025-01-11'' then Some 1736553600000
      else None)"

definition example_session :: session where
  "example_session =
     \<lparr>sessionId = 11, s_stream = ''BCA'', s_semester = 2, subject = ''DBMS'',
      date = 1736467200000, time = ''10:00 AM - 11:00 AM'', studentsPresent = [''S1''],
      totalStudents = 2, presentCount = 1, absentCount = 1, createdAt = 0, s_updatedAt = 0\<rparr>"

definition example_app :: app where
  "example_app =
     \<lparr>cache = [], attendance = \<lparr>sessions = [example_session], next_session = 12\<rparr>,
      store_queries = 0\<rparr>"

definition example_submit :: submit_body where
  "example_submit =
     \<lparr>sb_date = Some ''2025-01-11'', sb_time = Some ''10:00 AM - 11:00 AM'',
      sb_studentsPresent = Some [''S1'', ''S3''], sb_totalStudents = Number 3,
      sb_presentCount = None, sb_absentCount = None\<rparr>"

text \<open>
  The example application after a first statistics query at time 0, and after an update of
  session 11 at time 1000 that marks both students of the class present.
\<close>

definition example_queried :: app where
  "example_queried = snd (stats_route literal_regexp_i 0 ''BCA'' (Some 2) example_app)"

definition example_updated :: app where
  "example_updated =
     (case update_session 1000 11
             \<lparr>u_studentsPresent = Arr [''S1'', ''S2''], u_totalStudents = Some 2\<rparr> example_queried of
        Inr (s, a) \<Rightarrow> a
      | Inl e \<Rightarrow> example_queried)"

definition example_stats :: "stats_row list" where
  "example_stats =
     [\<lparr>st_subject = ''DBMS'', totalClasses = 1, totalPresent = 1, totalAbsent = 1,
       avgAttendance = 1 / 2\<rparr>]"

section \<open>Register builder (routes/viewAttendanceRoutes.js)\<close>

subsection \<open>Arithmetic of the register\<close>

text \<open>
  The register builder divides, multiplies and adds doubles. It takes the rounding of the
  results as its parameter \<open>fl\<close>; in the program \<open>fl\<close> is \<open>binary64\<close>. The general statements
  about the percentages use of \<open>fl\<close> only \<open>double_rounding\<close>: zero is a double, and rounding
  a number whose magnitude lies between \<open>2\<^sup>-\<^sup>6\<^sup>4\<close> and \<open>2\<^sup>6\<^sup>4\<close> has a relative error of at
  most \<open>2\<^sup>-\<^sup>5\<^sup>3\<close>, which \<open>binary64\<close> is proved to have. The lengths of JavaScript arrays are
  below \<open>2\<^sup>3\<^sup>2\<close>.

  \<open>toFixed(2)\<close> is exact on the double it is given: it picks the integer \<open>n\<close> of
  hundredths nearest to the number, the larger one on a tie, and prints \<open>n / 100\<close> with two
  decimals. \<open>parseFloat\<close> reads such a string back as the nearest double.
\<close>

definition double_rounding :: "(rat \<Rightarrow> rat) \<Rightarrow> bool" where
  "double_rounding fl \<longleftrightarrow>
     fl 0 = 0 \<and> (\<forall>x. 1 / 2 ^ 64 \<le> \<bar>x\<bar> \<and> \<bar>x\<bar> \<le> 2 ^ 64 \<longrightarrow> \<bar>fl x - x\<bar> \<le> \<bar>x\<bar> / 2 ^ 53)"

text \<open>
  The value of \<open>attendancePercentage\<close> and of \<open>averageAttendance\<close>: the number \<open>0\<close>, or the
  string that \<open>toFixed(2)\<close> returns, kept as its number of hundredths.
\<close>

datatype percentage = Zero | Fixed2 nat

definition toFixed2 :: "rat \<Rightarrow> percentage" where
  "toFixed2 x = Fixed2 (nat \<lfloor>x * 100 + 1 / 2\<rfloor>)"

definition two_digits :: "nat \<Rightarrow> string" where
  "two_digits n = [''0123456789'' ! (n div 10 mod 10), ''0123456789'' ! (n mod 10)]"

definition render :: "percentage \<Rightarrow> string" where
  "render p =
     (case p of
        Zero \<Rightarrow> ''0''
      | Fixed2 n \<Rightarrow> string_of_nat (n div 100) @ ''.'' @ two_digits (n mod 100))"

definition parseFloat :: "(rat \<Rightarrow> rat) \<Rightarrow> percentage \<Rightarrow> rat" where
  "parseFloat fl p = (case p of Zero \<Rightarrow> 0 | Fixed2 n \<Rightarrow> fl (of_nat n / 100))"

subsection \<open>Roster and sessions of a class\<close>

text \<open>The projection \<open>{ _id: 1, name: 1, studentID: 1, rollNumber: 1 }\<close> of a student.\<close>

record student_row =
  r_oid :: nat
  r_name :: string
  r_studentID :: string
  r_rollNumber :: string

definition project_student :: "student \<Rightarrow> student_row" where
  "project_student s =
     \<lparr>r_oid = oid s, r_name = name s, r_studentID = studentID s, r_rollNumber = rollNumber s\<rparr>"

definition active_roster :: "(string \<Rightarrow> bool) \<Rightarrow> int option \<Rightarrow> student list \<Rightarrow> student_row list" where
  "active_roster re semesterNumber xs =
     map project_student
       (sort_key studentID
          (filter (\<lambda>s. re (stream s) \<and> Some (semester s) = semesterNumber \<and> isActive s) xs))"

definition class_sessions ::
  "(string \<Rightarrow> bool) \<Rightarrow> int \<Rightarrow> (string \<Rightarrow> bool) \<Rightarrow> session list \<Rightarrow> session list" where
  "class_sessions re sem re_subject xs =
     filter (\<lambda>s. re (s_stream s) \<and> s_semester s = sem \<and> re_subject (subject s)) xs"

datatype status = P | A

definition status_of :: "string list \<Rightarrow> string \<Rightarrow> status" where
  "status_of present sid = (if sid \<in> set present then P else A)"

subsection \<open>GET /attendance/register/:stream/:semester/:subject\<close>

record cell =
  c_date :: int
  c_time :: string
  c_status :: status
  c_sessionId :: nat

record register_row =
  rr_studentID :: string
  rr_name :: string
  rr_rollNumber :: string
  rr_attendance :: "cell list"
  rr_presentCount :: nat
  rr_absentCount :: nat
  rr_totalSessions :: nat
  attendancePercentage :: percentage

record register_view =
  rv_students :: "register_row list"
  rv_sessions :: "session list"
  rv_totalSessions :: nat
  rv_totalStudents :: nat
  totalPossibleAttendances :: nat
  averageAttendance :: percentage

definition register_row_of :: "(rat \<Rightarrow> rat) \<Rightarrow> session list \<Rightarrow> student_row \<Rightarrow> register_row" where
  "register_row_of fl sessions_sorted student =
     (let totalSessions = length sessions_sorted;
          studentAttendance =
            map (\<lambda>s. \<lparr>c_date = date s, c_time = time s,
                       c_status = status_of (studentsPresent s) (r_studentID student),
                       c_sessionId = sessionId s\<rparr>) sessions_sorted;
          present = length (filter (\<lambda>a. c_status a = P) studentAttendance);
          absent = length (filter (\<lambda>a. c_status a = A) studentAttendance)
      in \<lparr>rr_studentID = r_studentID student, rr_name = r_name student,
          rr_rollNumber = r_rollNumber student, rr_attendance = studentAttendance,
          rr_presentCount = present, rr_absentCount = absent, rr_totalSessions = totalSessions,
          attendancePercentage =
            (if totalSessions > 0
             then toFixed2 (fl (fl (of_nat present / of_nat totalSessions) * 100))
             else Zero)\<rparr>)"

definition average_of :: "(rat \<Rightarrow> rat) \<Rightarrow> register_row list \<Rightarrow> percentage" where
  "average_of fl registerData =
     (if length registerData > 0
      then toFixed2
             (fl (foldl (\<lambda>sum s. fl (sum + parseFloat fl (attendancePercentage s))) 0 registerData
                  / of_nat (length registerData)))
      else Zero)"

definition build_register :: "(rat \<Rightarrow> rat) \<Rightarrow> student_row list \<Rightarrow> session list \<Rightarrow> register_view" where
  "build_register fl students_sorted sessions_sorted =
     (let registerData = map (register_row_of fl sessions_sorted) students_sorted
      in \<lparr>rv_students = registerData, rv_sessions = sessions_sorted,
          rv_totalSessions = length sessions_sorted, rv_totalStudents = length students_sorted,
          totalPossibleAttendances = length sessions_sorted * length students_sorted,
          averageAttendance = average_of fl registerData\<rparr>)"

text \<open>
  The route: both patterns are compiled, the roster is read, the sessions of the class
  are read in the order of \<open>(date, time)\<close>. A semester that is \<open>NaN\<close> makes the cast of the
  session query fail.
\<close>

definition register_route ::
  "regexp \<Rightarrow> (rat \<Rightarrow> rat) \<Rightarrow> string \<Rightarrow> int option \<Rightarrow> string \<Rightarrow> student list \<Rightarrow> session list
     \<Rightarrow> error + register_view" where
  "register_route regexp_i fl stream_param semesterNumber subject_param studs sess =
     (case (regexp_i (anchored stream_param), semesterNumber, regexp_i (anchored subject_param)) of
        (Some re, Some sem, Some re_subject) \<Rightarrow>
          Inr (build_register fl (active_roster re semesterNumber studs)
                 (sort_key (\<lambda>s. (date s, time s)) (class_sessions re sem re_subject sess)))
      | _ \<Rightarrow> Inl StoreError)"

subsection \<open>GET /attendance/date/:stream/:semester/:subject/:date\<close>






subsection \<open>The class of the worked example\<close>

definition example_roster :: "student list" where
  "example_roster =
     [example_student 3 ''S3'' ''BCA'' 2, example_student 1 ''S1'' ''BCA'' 2,
      example_student 2 ''S2'' ''BCA'' 2, example_student 4 ''T1'' ''BBA'' 2]"

definition example_sessions :: "session list" where
  "example_sessions =
     [\<lparr>sessionId = 22, s_stream = ''BCA'', s_semester = 2, subject = ''DBMS'',
       date = 1736553600000, time = ''10:00 AM - 11:00 AM'', studentsPresent = [''S1'', ''S3''],
       totalStudents = 3, presentCount = 2, absentCount = 1, createdAt = 2, s_updatedAt = 2\<rparr>,
      \<lparr>sessionId = 21, s_stream = ''BCA'', s_semester = 2, subject = ''DBMS'',
       date = 1736467200000, time = ''10:00 AM - 11:00 AM'', studentsPresent = [''S1'', ''S2''],
       totalStudents = 3, presentCount = 2, absentCount = 1, createdAt = 1, s_updatedAt = 1\<rparr>]"

text \<open>
  A class of 160 sessions on consecutive days, of which the first 23 list the student S1.
\<close>

definition long_class :: "session list" where
  "long_class =
     map (\<lambda>k. \<lparr>sessionId = 100 + k, s_stream = ''BCA'', s_semester = 2, subject = ''DBMS'',
                 date = 1736467200000 + 86400000 * int k, time = ''10:00 AM - 11:00 AM'',
                 studentsPresent = (if k < 23 then [''S1''] else []),
                 totalStudents = 1, presentCount = (if k < 23 then 1 else 0),
                 absentCount = (if k < 23 then 0 else 1), createdAt = 0, s_updatedAt = 0\<rparr>)
       [0 ..< 160]"

subsection \<open>Exact values, to state what the percentages are\<close>

text \<open>
  The unit roundoff of a double, the rational value of a percentage, the number of
  sessions of a list at which a student is present, the exact quotient that the claim
  names, and the exact mean of the printed percentages. \<open>rounded_hundredths x\<close> is \<open>x\<close>
  rounded to two decimals, as a number of hundredths, and \<open>tie x\<close> says that \<open>x\<close> lies
  half way between two neighbouring hundredths; there \<open>rounded_hundredths\<close> takes the upper
  one.
\<close>

definition unit_roundoff :: rat where
  "unit_roundoff = 1 / 2 ^ 53"

definition percent_value :: "percentage \<Rightarrow> rat" where
  "percent_value p = (case p of Zero \<Rightarrow> 0 | Fixed2 n \<Rightarrow> of_nat n / 100)"

definition times_present :: "session list \<Rightarrow> string \<Rightarrow> nat" where
  "times_present sess sid = length (filter (\<lambda>s. sid \<in> set (studentsPresent s)) sess)"

definition exact_percentage :: "session list \<Rightarrow> string \<Rightarrow> rat" where
  "exact_percentage sess sid = 100 * of_nat (times_present sess sid) / of_nat (length sess)"

definition mean_percentage :: "register_row list \<Rightarrow> rat" where
  "mean_percentage rows =
     sum_list (map (\<lambda>r. percent_value (attendancePercentage r)) rows) / of_nat (length rows)"

definition rounded_hundredths :: "rat \<Rightarrow> nat" where
  "rounded_hundredths x = nat \<lfloor>x * 100 + 1 / 2\<rfloor>"

definition tie :: "rat \<Rightarrow> bool" where
  "tie x \<longleftrightarrow> of_int \<lfloor>x * 100 + 1 / 2\<rfloor> = x * 100 + 1 / 2"

section \<open>Teacher work queue (routes/teacherRoutes.js)\<close>

text \<open>
  A teacher document. Each of the three arrays is \<open>None\<close> when the document has no such
  field, which is what \<open>{ $exists: false }\<close> asks; \<open>firebaseUid\<close> and \<open>name\<close> are \<open>None\<close> in
  a document that an upsert has created from an email alone. The collection has a unique
  index on \<open>email\<close> (seed-teachers.js). The semester of a subject is a whole number.
\<close>

record work_item =
  item_id :: string
  item_stream :: string
  item_semester :: int
  item_subject :: string
  item_stamp :: string
  teacherEmail :: string

record teacher =
  t_email :: string
  t_firebaseUid :: "string option"
  t_name :: "string option"
  createdSubjects :: "work_item list option"
  attendanceQueue :: "work_item list option"
  completedClasses :: "work_item list option"

text \<open>\<open>updateOne(filter, update)\<close> without upsert: the first document that matches is updated.\<close>

fun updateOne :: "(teacher \<Rightarrow> bool) \<Rightarrow> (teacher \<Rightarrow> teacher) \<Rightarrow> teacher list \<Rightarrow> teacher list" where
  "updateOne matches upd [] = []"
| "updateOne matches upd (t # ts) =
     (if matches t then upd t # ts else t # updateOne matches upd ts)"

definition missing_field :: "teacher \<Rightarrow> bool" where
  "missing_field t \<longleftrightarrow>
     createdSubjects t = None \<or> attendanceQueue t = None \<or> completedClasses t = None"

definition set_empty_arrays :: "teacher \<Rightarrow> teacher" where
  "set_empty_arrays t =
     t\<lparr>createdSubjects := Some [], attendanceQueue := Some [], completedClasses := Some []\<rparr>"

text \<open>
  The first \<open>updateOne\<close> carries only \<open>$setOnInsert\<close> and \<open>upsert: false\<close>: it never inserts,
  and on a document that exists \<open>$setOnInsert\<close> sets nothing. The second one resets all
  three arrays of the teacher when at least one of them is missing. The function returns
  \<open>true\<close>.
\<close>

definition ensureTeacherFields :: "string \<Rightarrow> teacher list \<Rightarrow> bool \<times> teacher list" where
  "ensureTeacherFields email ts =
     (let ts1 = updateOne (\<lambda>t. t_email t = email) (\<lambda>t. t) ts;
          ts2 = updateOne (\<lambda>t. t_email t = email \<and> missing_field t) set_empty_arrays ts1
      in (True, ts2))"

subsection \<open>POST /subjects\<close>

text \<open>
  The route that adds a subject to a teacher. \<open>validateSubject\<close> asks that the six fields
  are truthy and that the semester lies between 1 and 6. The handler calls
  \<open>ensureTeacherFields\<close>, reads the teacher, answers status 409 when the teacher has a
  subject of the same stream, semester and name, and then runs \<open>findOneAndUpdate\<close> with
  \<open>$push: { createdSubjects: subject }\<close> and \<open>upsert: true\<close>: a teacher without a document
  gets a new one that holds the email and \<open>createdSubjects\<close> and neither of the other two
  arrays. \<open>$push\<close> on a document without the field creates the array.
\<close>

definition validateSubject :: "work_item \<Rightarrow> bool" where
  "validateSubject s \<longleftrightarrow>
     item_id s \<noteq> [] \<and> item_stream s \<noteq> [] \<and> item_semester s \<noteq> 0 \<and> item_subject s \<noteq> []
     \<and> item_stamp s \<noteq> [] \<and> teacherEmail s \<noteq> []
     \<and> 1 \<le> item_semester s \<and> item_semester s \<le> 6"

definition same_subject :: "work_item \<Rightarrow> work_item \<Rightarrow> bool" where
  "same_subject a b \<longleftrightarrow>
     item_stream a = item_stream b \<and> item_semester a = item_semester b
     \<and> item_subject a = item_subject b"

definition push_subject :: "work_item \<Rightarrow> teacher \<Rightarrow> teacher" where
  "push_subject sub t =
     t\<lparr>createdSubjects :=
         Some (case createdSubjects t of None \<Rightarrow> [sub] | Some subs \<Rightarrow> subs @ [sub])\<rparr>"

definition add_subject ::
  "string option \<Rightarrow> work_item option \<Rightarrow> teacher list \<Rightarrow> error + teacher list" where
  "add_subject email_field subject_field ts =
     (case (email_field, subject_field) of
        (Some email, Some sub) \<Rightarrow>
          if email = [] \<or> \<not> validateSubject sub then Inl ValidationError
          else
            (let ts1 = snd (ensureTeacherFields email ts)
             in case find (\<lambda>t. t_email t = email) ts1 of
                  None \<Rightarrow>
                    Inr (ts1 @ [\<lparr>t_email = email, t_firebaseUid = None, t_name = None,
                                  createdSubjects = Some [sub], attendanceQueue = None,
                                  completedClasses = None\<rparr>])
                | Some found \<Rightarrow>
                    if (case createdSubjects found of
                          None \<Rightarrow> False
                        | Some subs \<Rightarrow> list_ex (same_subject sub) subs)
                    then Inl Conflict
                    else Inr (updateOne (\<lambda>t. t_email t = email) (push_subject sub) ts1))
      | _ \<Rightarrow> Inl ValidationError)"

definition example_item :: work_item where
  "example_item =
     \<lparr>item_id = ''1700000000000'', item_stream = ''BCA'', item_semester = 2,
      item_subject = ''DBMS'', item_stamp = ''2025-01-10T10:00:00.000Z'',
      teacherEmail = ''a@x.org''\<rparr>"

definition example_teachers :: "teacher list" where
  "example_teachers =
     [\<lparr>t_email = ''b@x.org'', t_firebaseUid = Some ''u2'', t_name = Some ''B'',
       createdSubjects = Some [example_item], attendanceQueue = Some [],
       completedClasses = Some []\<rparr>,
      \<lparr>t_email = ''a@x.org'', t_firebaseUid = Some ''u1'', t_name = Some ''A'',
       createdSubjects = None, attendanceQueue = None, completedClasses = None\<rparr>]"

definition second_item :: work_item where
  "second_item =
     \<lparr>item_id = ''1700000000001'', item_stream = ''BCA'', item_semester = 2,
      item_subject = ''Java'', item_stamp = ''2025-01-11T10:00:00.000Z'',
      teacherEmail = ''a@x.org''\<rparr>"

section \<open>Rounding to a double\<close>

lemma round_half_even_error: "\<bar>of_int (round_half_even x) - x\<bar> \<le> 1 / 2"
  unfolding round_half_even_def Let_def
  by (auto simp: abs_if not_less) linarith+

lemma round_half_even_of_int [simp]: "round_half_even (of_int n) = n"
  by (simp add: round_half_even_def)

lemma powi_pos [simp]: "0 < (2::rat) powi e"
  by (simp add: power_int_def)

lemma powi_bracket_unique:
  assumes "(2::rat) powi a \<le> x" "x < 2 powi (a + 1)" "2 powi b \<le> x" "x < 2 powi (b + 1)"
  shows "a = b"
proof -
  have "(2::rat) powi a < 2 powi (b + 1)" using assms by linarith
  then have "\<not> b + 1 \<le> a" using power_int_increasing [of "b + 1" a "2::rat"] by auto
  moreover have "(2::rat) powi b < 2 powi (a + 1)" using assms by linarith
  then have "\<not> a + 1 \<le> b" using power_int_increasing [of "a + 1" b "2::rat"] by auto
  ultimately show ?thesis by simp
qed

lemma bitlen_powi:
  assumes "0 < p"
  shows "(2::rat) powi (bitlen p - 1) \<le> of_int p" and "of_int p < (2::rat) powi bitlen p"
proof -
  have b: "1 \<le> bitlen p" using assms by (auto simp: bitlen_alt_def)
  have "(2::int) ^ nat (bitlen p - 1) \<le> p" and "p < 2 ^ nat (bitlen p)"
    using bitlen_bounds [OF assms] by auto
  then have "(of_int (2 ^ nat (bitlen p - 1)) :: rat) \<le> of_int p"
    and "(of_int p :: rat) < of_int (2 ^ nat (bitlen p))"
    by (simp_all only: of_int_le_iff of_int_less_iff)
  then show "(2::rat) powi (bitlen p - 1) \<le> of_int p" and "of_int p < (2::rat) powi bitlen p"
    using b by (simp_all add: power_int_def)
qed

lemma exponent_bracket:
  assumes "x \<noteq> 0"
  shows "2 powi exponent x \<le> \<bar>x\<bar>" and "\<bar>x\<bar> < 2 powi (exponent x + 1)"
proof -
  obtain p q where pq: "quotient_of \<bar>x\<bar> = (p, q)" by (cases "quotient_of \<bar>x\<bar>") auto
  have q: "0 < q" using quotient_of_denom_pos [OF pq] .
  have x: "\<bar>x\<bar> = of_int p / of_int q" using quotient_of_div [OF pq] .
  have "0 < \<bar>x\<bar>" using assms by simp
  then have p: "0 < p" using q unfolding x by (simp add: zero_less_divide_iff)
  define e where "e = bitlen p - bitlen q"
  have ex: "exponent x = (if 2 powi e \<le> \<bar>x\<bar> then e else e - 1)"
    by (simp add: exponent_def pq e_def Let_def)
  have qpos: "(0::rat) < of_int q" using q by simp
  have "of_int p < (2::rat) powi bitlen p" using bitlen_powi [OF p] by simp
  also have "\<dots> = 2 powi (e + 1) * 2 powi (bitlen q - 1)"
    by (simp add: e_def flip: power_int_add)
  also have "\<dots> \<le> 2 powi (e + 1) * of_int q"
    using bitlen_powi(1) [OF q] by (intro mult_left_mono) auto
  finally have hi: "\<bar>x\<bar> < 2 powi (e + 1)"
    unfolding x using qpos by (simp add: pos_divide_less_eq)
  have "(2::rat) powi (e - 1) * of_int q < 2 powi (e - 1) * 2 powi bitlen q"
    using bitlen_powi(2) [OF q] by (intro mult_strict_left_mono) auto
  also have "\<dots> = 2 powi (bitlen p - 1)"
    by (simp add: e_def flip: power_int_add)
  also have "\<dots> \<le> of_int p" using bitlen_powi(1) [OF p] .
  finally have lo: "2 powi (e - 1) < \<bar>x\<bar>"
    unfolding x using qpos by (simp add: pos_less_divide_eq)
  show "2 powi exponent x \<le> \<bar>x\<bar>" using lo by (simp add: ex)
  show "\<bar>x\<bar> < 2 powi (exponent x + 1)" using hi by (auto simp: ex not_le)
qed

lemma exponent_eq:
  assumes "2 powi e \<le> \<bar>x\<bar>" and "\<bar>x\<bar> < 2 powi (e + 1)"
  shows "exponent x = e"
proof -
  have "x \<noteq> 0" using assms(1) powi_pos [of e] by (cases "x = 0") (simp_all add: not_le [symmetric] del: powi_pos)
  from exponent_bracket [OF this] assms show ?thesis
    by (intro powi_bracket_unique [of "exponent x" "\<bar>x\<bar>" e]) auto
qed

lemma binary64_at:
  assumes "2 powi e \<le> \<bar>x\<bar>" and "\<bar>x\<bar> < 2 powi (e + 1)" and "- 1022 \<le> e"
  shows "binary64 x = of_int (round_half_even (x / 2 powi (e - 52))) * 2 powi (e - 52)"
proof -
  have "x \<noteq> 0" using assms(1) powi_pos [of e] by (cases "x = 0") (simp_all add: not_le [symmetric] del: powi_pos)
  then show ?thesis
    using exponent_eq [OF assms(1,2)] assms(3) by (simp add: binary64_def Let_def max_def)
qed

lemma binary64_error:
  assumes "2 powi e \<le> \<bar>x\<bar>" and "\<bar>x\<bar> < 2 powi (e + 1)" and "- 1022 \<le> e"
  shows "\<bar>binary64 x - x\<bar> \<le> 2 powi (e - 53)"
proof -
  define ulp :: rat where "ulp = 2 powi (e - 52)"
  have ulp: "0 < ulp" by (simp add: ulp_def)
  have "binary64 x - x = (of_int (round_half_even (x / ulp)) - x / ulp) * ulp"
    using ulp by (simp add: binary64_at [OF assms] ulp_def algebra_simps)
  then have "\<bar>binary64 x - x\<bar> = \<bar>of_int (round_half_even (x / ulp)) - x / ulp\<bar> * ulp"
    using ulp by (simp add: abs_mult)
  also have "\<dots> \<le> 1 / 2 * ulp"
    using round_half_even_error [of "x / ulp"] ulp by (intro mult_right_mono) auto
  also have "\<dots> = 2 powi (e - 53)"
    by (simp add: ulp_def power_int_diff)
  finally show ?thesis .
qed

lemma binary64_exact:
  assumes "2 powi e \<le> \<bar>x\<bar>" and "\<bar>x\<bar> < 2 powi (e + 1)" and "- 1022 \<le> e"
    and "x / 2 powi (e - 52) = of_int k"
  shows "binary64 x = x"
proof -
  have "binary64 x = of_int k * 2 powi (e - 52)"
    by (simp add: binary64_at [OF assms(1-3)] assms(4))
  also have "\<dots> = x" using assms(4) by (simp add: field_simps)
  finally show ?thesis .
qed

lemma binary64_of_int:
  assumes "\<bar>n\<bar> \<le> 2 ^ 53"
  shows "binary64 (of_int n) = of_int n"
proof (cases "n = 0")
  case True
  then show ?thesis by (simp add: binary64_def)
next
  case False
  define x :: rat where "x = of_int n"
  have nz: "x \<noteq> 0" using False by (simp add: x_def)
  define e where "e = exponent x"
  have br: "2 powi e \<le> \<bar>x\<bar>" "\<bar>x\<bar> < 2 powi (e + 1)"
    using exponent_bracket [OF nz] by (simp_all add: e_def)
  have "1 \<le> \<bar>x\<bar>" using False by (simp add: x_def flip: of_int_abs)
  then have "(2::rat) powi 0 < 2 powi (e + 1)" using br(2) by simp
  then have "\<not> e + 1 \<le> 0" using power_int_increasing [of "e + 1" 0 "2::rat"] by auto
  then have e0: "0 \<le> e" by simp
  have "\<bar>x\<bar> \<le> 2 ^ 53" using assms unfolding x_def
    by (metis of_int_abs of_int_le_iff of_int_numeral of_int_power)
  then have "(2::rat) powi e \<le> 2 powi 53" using br(1) by simp
  then have "\<not> 53 < e" using power_int_strict_increasing [of 53 e "2::rat"] by auto
  then have e53: "e \<le> 53" by simp
  show ?thesis
  proof (cases "e = 53")
    case True
    then have "\<bar>x\<bar> = 2 ^ 53" using br(1) \<open>\<bar>x\<bar> \<le> 2 ^ 53\<close> by simp
    then have "\<bar>n\<bar> = 2 ^ 53" unfolding x_def
      by (metis of_int_abs of_int_eq_iff of_int_numeral of_int_power)
    then have "n = 9007199254740992 \<or> n = - 9007199254740992" by (simp add: abs_if split: if_splits)
    then have "x / 2 powi (e - 52) = of_int (n div 2)"
      unfolding x_def True by auto
    from binary64_exact [OF br _ this] e0 show ?thesis by (simp add: x_def)
  next
    case False
    then have "e \<le> 52" using e53 by simp
    then have "(2::rat) powi (e - 52) = 1 / 2 ^ nat (52 - e)"
      by (simp add: power_int_def power_one_over)
    then have "x / 2 powi (e - 52) = of_int (n * 2 ^ nat (52 - e))"
      by (simp add: x_def)
    from binary64_exact [OF br _ this] e0 show ?thesis by (simp add: x_def)
  qed
qed

lemma round_half_even_nearest:
  assumes "\<bar>x - of_int n\<bar> < 1 / 2"
  shows "round_half_even x = n"
proof -
  define m where "m = \<lfloor>x\<rfloor>"
  have m: "of_int m \<le> x" "x < of_int m + 1" unfolding m_def by linarith+
  have x: "of_int n - 1 / 2 < x" "x < of_int n + 1 / 2" using assms by (auto simp: abs_if split: if_splits)
  show ?thesis
  proof (cases "x - of_int m < 1 / 2")
    case True
    have "(of_int m :: rat) < of_int (n + 1)" using m x by simp
    moreover have "(of_int n :: rat) < of_int (m + 1)" using True x by simp
    ultimately have "m = n" unfolding of_int_less_iff by simp
    then show ?thesis using True by (simp add: round_half_even_def m_def [symmetric])
  next
    case False
    have "(of_int m :: rat) < of_int n" using False x by simp
    moreover have "(of_int n :: rat) < of_int (m + 2)" using m x by simp
    ultimately have n: "n = m + 1" unfolding of_int_less_iff by simp
    have "x - of_int m \<noteq> 1 / 2" using x unfolding n by simp
    then show ?thesis using False n by (simp add: round_half_even_def m_def [symmetric])
  qed
qed

lemma round_half_even_tie:
  assumes "x = of_int n + 1 / 2"
  shows "round_half_even x = (if even n then n else n + 1)"
proof -
  have "\<lfloor>x\<rfloor> = n" unfolding assms by (simp add: floor_unique)
  then show ?thesis by (simp add: round_half_even_def assms)
qed

lemma binary64_Ints:
  assumes "x \<in> \<int>" and "\<bar>x\<bar> \<le> 2 ^ 53"
  shows "binary64 x = x"
proof -
  from assms(1) obtain n where x: "x = of_int n" by (auto elim: Ints_cases)
  have "(of_int \<bar>n\<bar> :: rat) \<le> of_int (2 ^ 53)" using assms(2) by (simp add: x)
  then have "\<bar>n\<bar> \<le> 2 ^ 53" by (simp only: of_int_le_iff)
  then show ?thesis unfolding x by (rule binary64_of_int)
qed

lemma binary64_of_nat: "n \<le> 2 ^ 53 \<Longrightarrow> binary64 (of_nat n) = of_nat n"
  using binary64_of_int [of "int n"] by simp

lemma binary64_0 [simp]: "binary64 0 = 0"
  by (simp add: binary64_def)

lemma binary64_1 [simp]: "binary64 1 = 1"
  using binary64_of_int [of 1] by simp

lemma binary64_numeral [simp]:
  "numeral k \<le> (9007199254740992::int) \<Longrightarrow> binary64 (numeral k) = numeral k"
  using binary64_of_int [of "numeral k"] by simp

lemma binary64_neg_numeral [simp]:
  "numeral k \<le> (9007199254740992::int) \<Longrightarrow> binary64 (- numeral k) = - numeral k"
  using binary64_of_int [of "- numeral k"] by simp

lemma binary64_neg_1 [simp]: "binary64 (- 1) = - 1"
  using binary64_of_int [of "- 1"] by simp

section \<open>Promotion: execute\<close>

lemma promote_loop_students:
  "fst (promote_loop now n c (xs, p, f)) = map (promoted_student now n (int c)) xs"
proof (induction c arbitrary: xs p f)
  case 0
  show ?case by (simp add: promoted_student_def map_idI)
next
  case (Suc c)
  have "promoted_student now n (int c) (if in_sem n (int (Suc c)) s then s\<lparr>semester := int (Suc c) + 1, updatedAt := now\<rparr> else s)
        = promoted_student now n (int (Suc c)) s" for s
    by (auto simp: promoted_student_def in_sem_def)
  then show ?case
    by (simp add: Let_def Suc.IH updateMany_sem_def del: of_nat_Suc)
qed

lemma count_sem_updateMany:
  "k \<noteq> j \<Longrightarrow> k \<noteq> j + 1 \<Longrightarrow> count_sem n k (updateMany_sem now n j xs) = count_sem n k xs"
  by (induction xs) (auto simp: count_sem_def updateMany_sem_def in_sem_def)

lemma promote_loop_promoted:
  "fst (snd (promote_loop now n c (xs, p, f))) = p + (\<Sum>k = 1..c. count_sem n (int k) xs)"
proof (induction c arbitrary: xs p f)
  case 0
  show ?case by simp
next
  case (Suc c)
  have "(\<Sum>k = 1..c. count_sem n (int k) (updateMany_sem now n (int (Suc c)) xs))
        = (\<Sum>k = 1..c. count_sem n (int k) xs)"
    by (rule sum.cong) (auto simp: count_sem_updateMany)
  then show ?case
    by (simp add: Let_def Suc.IH del: of_nat_Suc)
qed

lemma in_sem_promoted:
  "in_sem n k (promoted_student now n 5 s) \<longleftrightarrow>
     (if stream s = n \<and> 1 \<le> semester s \<and> semester s \<le> 5 then semester s + 1 = k else in_sem n k s)"
  by (simp add: promoted_student_def in_sem_def)

lemma count_sem_promoted:
  "count_sem n k (map (promoted_student now n 5) (deleteMany_sem n 6 xs)) =
     (if k = 1 then 0 else if 2 \<le> k \<and> k \<le> 6 then count_sem n (k - 1) xs else count_sem n k xs)"
proof (induction xs)
  case Nil
  show ?case by (simp add: count_sem_def deleteMany_sem_def)
next
  case (Cons s xs)
  show ?case
  proof (cases "in_sem n 6 s")
    case True
    with Cons show ?thesis
      by (simp add: count_sem_def deleteMany_sem_def) (simp add: in_sem_def)
  next
    case False
    have step: "count_sem n k (map (promoted_student now n 5) (deleteMany_sem n 6 (s # xs))) =
        (if in_sem n k (promoted_student now n 5 s) then 1 else 0)
        + count_sem n k (map (promoted_student now n 5) (deleteMany_sem n 6 xs))"
      using False by (simp add: count_sem_def deleteMany_sem_def)
    have orig: "count_sem n j (s # xs) = (if in_sem n j s then 1 else 0) + count_sem n j xs" for j
      by (simp add: count_sem_def)
    show ?thesis
      unfolding step orig Cons.IH in_sem_promoted
      using False by (auto simp: in_sem_def)
  qed
qed


lemma count_sem_deleteMany:
  "k \<noteq> j \<Longrightarrow> count_sem n k (deleteMany_sem n j xs) = count_sem n k xs"
  by (induction xs) (auto simp: count_sem_def deleteMany_sem_def in_sem_def)

lemma filter_other_promoted:
  "filter (\<lambda>s. stream s \<noteq> n) (map (promoted_student now n hi) (deleteMany_sem n k xs))
     = filter (\<lambda>s. stream s \<noteq> n) xs"
  by (induction xs) (auto simp: promoted_student_def deleteMany_sem_def in_sem_def)

lemma simple_promotion_run:
  assumes "find_stream (streams d) streamName = Some streamData"
  shows "\<exists>r. simple_promotion now streamName d =
           Inr (r, d\<lparr>students := map (promoted_student now (sd_name streamData) 5)
                                   (deleteMany_sem (sd_name streamData) 6 (students d)),
                     promotion_history :=
                       promotion_history d @ [new_backup now (sd_name streamData) d],
                     next_oid := next_oid d + 1\<rparr>)
         \<and> totalGraduated r = count_sem (sd_name streamData) 6 (students d)
         \<and> totalPromoted r = (\<Sum>k = 1..5. count_sem (sd_name streamData) (int k) (students d))"
proof -
  let ?n = "sd_name streamData"
  let ?rem = "deleteMany_sem ?n 6 (students d)"
  let ?flow0 = "if count_sem ?n 6 (students d) > 0 then [Graduated (count_sem ?n 6 (students d))] else []"
  obtain final promoted flow where
    loop: "promote_loop now ?n 5 (?rem, 0, ?flow0) = (final, promoted, flow)"
    by (cases "promote_loop now ?n 5 (?rem, 0, ?flow0)") auto
  have final: "final = map (promoted_student now ?n 5) ?rem"
    using promote_loop_students [of now ?n 5 ?rem 0 ?flow0] loop by simp
  have "promoted = (\<Sum>k = 1..5. count_sem ?n (int k) ?rem)"
    using promote_loop_promoted [of now ?n 5 ?rem 0 ?flow0] loop by simp
  also have "\<dots> = (\<Sum>k = 1..5. count_sem ?n (int k) (students d))"
    by (rule sum.cong) (auto simp: count_sem_deleteMany)
  finally have promoted: "promoted = (\<Sum>k = 1..5. count_sem ?n (int k) (students d))" .
  have run: "simple_promotion now streamName d =
      Inr (\<lparr>totalPromoted = promoted, totalGraduated = count_sem ?n 6 (students d),
             promotionFlow = flow\<rparr>,
           d\<lparr>students := final, promotion_history := promotion_history d @ [new_backup now ?n d],
             next_oid := next_oid d + 1\<rparr>)"
    using assms loop by (simp add: simple_promotion_def Let_def)
  show ?thesis unfolding run final using promoted by simp
qed

text \<open>
  Claim C2. For every stream that the route resolves, execute first appends a backup
  document with \<open>restored = false\<close> that holds the full roster of the stream as it was
  before the run, then deletes the students of semester 6 (their number is
  \<open>totalGraduated\<close>) and runs the loop from semester 5 down to 1. The students that remain
  are the old ones with semester 6 of the stream removed, each student of the stream at a
  semester from 1 to 5 moved up by exactly one semester (no student is moved twice), so
  that the counts \<open>[a, b, c, d, e, f]\<close> at the semesters 1 to 6 become
  \<open>[0, a, b, c, d, e]\<close>, and \<open>totalPromoted = a + b + c + d + e\<close>.
\<close>

theorem promotion_execute:
  assumes "find_stream (streams d) streamName = Some streamData"
  shows "\<exists>r d'. simple_promotion now streamName d = Inr (r, d')
    \<and> promotion_history d' = promotion_history d @ [new_backup now (sd_name streamData) d]
    \<and> b_restored (new_backup now (sd_name streamData) d) = False
    \<and> b_students (new_backup now (sd_name streamData) d)
        = filter (\<lambda>s. stream s = sd_name streamData) (students d)
    \<and> students d' = map (promoted_student now (sd_name streamData) 5)
                       (deleteMany_sem (sd_name streamData) 6 (students d))
    \<and> count_sem (sd_name streamData) 1 (students d') = 0
    \<and> (\<forall>k\<in>{2..6}. count_sem (sd_name streamData) k (students d')
                      = count_sem (sd_name streamData) (k - 1) (students d))
    \<and> totalGraduated r = count_sem (sd_name streamData) 6 (students d)
    \<and> totalPromoted r = (\<Sum>k = 1..5. count_sem (sd_name streamData) (int k) (students d))"
proof -
  let ?n = "sd_name streamData"
  let ?final = "map (promoted_student now ?n 5) (deleteMany_sem ?n 6 (students d))"
  let ?d' = "d\<lparr>students := ?final,
               promotion_history := promotion_history d @ [new_backup now ?n d],
               next_oid := next_oid d + 1\<rparr>"
  from simple_promotion_run [OF assms, of now] obtain r where
    run: "simple_promotion now streamName d = Inr (r, ?d')"
    and grad: "totalGraduated r = count_sem ?n 6 (students d)"
    and prom: "totalPromoted r = (\<Sum>k = 1..5. count_sem ?n (int k) (students d))"
    by blast
  have counts: "\<forall>k\<in>{2..6}. count_sem ?n k ?final = count_sem ?n (k - 1) (students d)"
    unfolding count_sem_promoted by auto
  have c1: "count_sem ?n 1 ?final = 0"
    unfolding count_sem_promoted by simp
  have bk: "b_restored (new_backup now ?n d) = False"
    "b_students (new_backup now ?n d) = filter (\<lambda>s. stream s = ?n) (students d)"
    by (simp_all add: new_backup_def Let_def)
  show ?thesis
    apply (rule exI [of _ r], rule exI [of _ ?d'])
    using run grad prom counts c1 bk by simp
qed

theorem promotion_execute_witness:
  "find_stream (streams example_db) ''BCA'' = Some \<lparr>sd_name = ''BCA'', streamCode = ''bca''\<rparr>
   \<and> (\<exists>r d'. simple_promotion 1000 ''BCA'' example_db = Inr (r, d')
        \<and> map semester (students d') = [2, 6, 6]
        \<and> map studentID (students d') = [''S1'', ''S2'', ''T1'']
        \<and> totalGraduated r = 1 \<and> totalPromoted r = 2
        \<and> map b_restored (promotion_history d') = [False])"
proof -
  have h: "find_stream (streams example_db) ''BCA'' = Some \<lparr>sd_name = ''BCA'', streamCode = ''bca''\<rparr>"
    by (simp add: find_stream_def example_db_def)
  have cnt: "count_sem ''BCA'' k (students example_db) = (if k = 1 \<or> k = 5 \<or> k = 6 then 1 else 0)" for k
    by (simp add: count_sem_def in_sem_def example_db_def example_student_def)
  from promotion_execute [OF h, of 1000] obtain r d' where
    r: "simple_promotion 1000 ''BCA'' example_db = Inr (r, d')"
    and s: "students d' = map (promoted_student 1000 ''BCA'' 5)
                       (deleteMany_sem ''BCA'' 6 (students example_db))"
    and g: "totalGraduated r = count_sem ''BCA'' 6 (students example_db)"
    and p: "totalPromoted r = (\<Sum>k = 1..5. count_sem ''BCA'' (int k) (students example_db))"
    and b: "promotion_history d' = promotion_history example_db @ [new_backup 1000 ''BCA'' example_db]"
    by auto
  have "map semester (students d') = [2, 6, 6]" "map studentID (students d') = [''S1'', ''S2'', ''T1'']"
    unfolding s by (simp_all add: example_db_def example_student_def deleteMany_sem_def
        in_sem_def promoted_student_def)
  moreover have "totalGraduated r = 1" unfolding g cnt by simp
  moreover have "totalPromoted r = 2" unfolding p cnt by (simp add: numeral_eq_Suc)
  moreover have "map b_restored (promotion_history d') = [False]"
    unfolding b by (simp add: example_db_def new_backup_def)
  ultimately have "\<exists>r d'. simple_promotion 1000 ''BCA'' example_db = Inr (r, d')
        \<and> map semester (students d') = [2, 6, 6]
        \<and> map studentID (students d') = [''S1'', ''S2'', ''T1'']
        \<and> totalGraduated r = 1 \<and> totalPromoted r = 2
        \<and> map b_restored (promotion_history d') = [False]"
    using r by (intro exI [of _ r] exI [of _ d']) simp
  with h show ?thesis by (rule conjI)
qed

section \<open>Promotion: execute, then undo\<close>

lemma take1_sort_key_unique_min:
  assumes "x \<in> set xs" and "\<forall>y\<in>set xs. y \<noteq> x \<longrightarrow> f x < f y"
  shows "take 1 (sort_key f xs) = [x]"
proof -
  let ?ys = "sort_key f xs"
  have ne: "?ys \<noteq> []" using assms(1) by (metis empty_iff list.set(1) set_sort)
  then obtain y ys where ys: "?ys = y # ys" by (cases ?ys) auto
  have "sorted (map f ?ys)" by (rule sorted_sort_key)
  moreover have "x \<in> set ?ys" using assms(1) by simp
  ultimately have "f y \<le> f x" unfolding ys by auto
  moreover have "y \<in> set xs" using ys by (metis list.set_intros(1) set_sort)
  ultimately have "y = x" using assms(2) by force
  then show ?thesis using ys by simp
qed

lemma without_id_with_id: "without_id (with_id n d) = d"
  by (simp add: without_id_def with_id_def student_doc.defs student.defs)

lemma stream_with_id: "stream (with_id n d) = stream d"
  by (simp add: with_id_def student_doc.defs student.defs)

lemma stream_without_id: "stream (without_id s) = stream s"
  by (simp add: without_id_def student_doc.defs)

lemma map_without_id_insertMany: "map without_id (insertMany n ds) = ds"
  unfolding insertMany_def
proof (induction ds arbitrary: n)
  case Nil
  show ?case by simp
next
  case (Cons d ds)
  have "[n ..< n + length (d # ds)] = n # [Suc n ..< Suc n + length ds]"
    by (subst upt_rec) simp
  then show ?case using Cons.IH [of "Suc n"] by (simp add: without_id_with_id)
qed

lemma map_stream_insertMany: "map stream (insertMany n ds) = map stream ds"
  unfolding insertMany_def
proof (induction ds arbitrary: n)
  case Nil
  show ?case by simp
next
  case (Cons d ds)
  have "[n ..< n + length (d # ds)] = n # [Suc n ..< Suc n + length ds]"
    by (subst upt_rec) simp
  then show ?case using Cons.IH [of "Suc n"] by (simp add: stream_with_id)
qed

lemma latest_first_new_backup:
  assumes "\<forall>b\<in>set hist. b_stream b = n \<longrightarrow> b_timestamp b < b_timestamp bk"
    and "b_stream bk = n"
  shows "latest_first (filter (\<lambda>b. b_stream b = n) (hist @ [bk])) = [bk]"
  unfolding latest_first_def
  by (rule take1_sort_key_unique_min) (use assms in auto)

lemma undo_promotion_run:
  assumes "regexp_i (anchored s) = Some re"
    and "find_stream_i re (streams d) s = Some sd"
    and "latest_first (filter (\<lambda>b. b_stream b = sd_name sd) (promotion_history d)) = [bk]"
    and "hours_old now bk \<le> 24"
  shows "undo_promotion regexp_i now s d =
     Inr (\<lparr>studentsRestored = length (b_students bk), restoredFrom = b_timestamp bk\<rparr>,
          d\<lparr>students := filter (\<lambda>x. stream x \<noteq> sd_name sd) (students d)
                           @ insertMany (next_oid d) (map without_id (b_students bk)),
            promotion_history := mark_restored now (b_oid bk) (promotion_history d),
            next_oid := next_oid d + length (b_students bk)\<rparr>)"
  unfolding undo_promotion_def using assms by (simp add: Let_def)

lemma restored_roster:
  assumes "\<forall>x\<in>set roster. stream x = n"
  shows "filter (\<lambda>x. stream x = n) (filter (\<lambda>x. stream x \<noteq> n) xs
            @ insertMany k (map without_id roster)) = insertMany k (map without_id roster)"
    and "filter (\<lambda>x. stream x \<noteq> n) (filter (\<lambda>x. stream x \<noteq> n) xs
            @ insertMany k (map without_id roster)) = filter (\<lambda>x. stream x \<noteq> n) xs"
proof -
  let ?ins = "insertMany k (map without_id roster)"
  have "map stream ?ins = map stream roster"
    by (simp add: map_stream_insertMany stream_without_id)
  then have "set (map stream ?ins) \<subseteq> {n}" using assms by auto
  then have ins_n: "\<forall>x\<in>set ?ins. stream x = n" by auto
  show "filter (\<lambda>x. stream x = n) (filter (\<lambda>x. stream x \<noteq> n) xs @ ?ins) = ?ins"
    using ins_n by (simp add: filter_empty_conv)
  show "filter (\<lambda>x. stream x \<noteq> n) (filter (\<lambda>x. stream x \<noteq> n) xs @ ?ins)
          = filter (\<lambda>x. stream x \<noteq> n) xs"
    using ins_n by (simp add: filter_empty_conv)
qed

text \<open>
  Execute followed by undo gives the roster back when the two routes resolve the
  parameter to the same stream. The undo route resolves it by a case-insensitive pattern
  where execute compares exactly, and nothing in the code makes the two agree: the lemma
  takes it as its hypothesis \<open>same\<close>. Further, no backup of the stream is as recent as the
  run (\<open>b_timestamp b < t1\<close>), and undo is called at a time \<open>t2\<close> whose \<open>hoursOld\<close> is at
  most 24. Then both calls succeed; the students of the stream after undo are, with the
  storage identity stripped, exactly the students of the stream before execute (same
  documents in the same order, hence the same \<open>studentID\<close>s and the same semesters); and the
  students of the other streams are untouched.
\<close>

lemma promotion_undo_roundtrip:
  assumes ex: "find_stream (streams d) s1 = Some sd"
    and rx: "regexp_i (anchored s2) = Some re"
    and un: "find_stream_i re (streams d) s2 = Some sd'"
    and same: "sd_name sd' = sd_name sd"
    and older: "\<forall>b\<in>set (promotion_history d). b_stream b = sd_name sd \<longrightarrow> b_timestamp b < t1"
    and soon: "(t2 - t1) div (1000 * 60 * 60) \<le> 24"
  shows "\<exists>r1 d1 r2 d2.
      simple_promotion t1 s1 d = Inr (r1, d1)
    \<and> undo_promotion regexp_i t2 s2 d1 = Inr (r2, d2)
    \<and> map without_id (filter (\<lambda>s. stream s = sd_name sd) (students d2))
        = map without_id (filter (\<lambda>s. stream s = sd_name sd) (students d))
    \<and> filter (\<lambda>s. stream s \<noteq> sd_name sd) (students d2)
        = filter (\<lambda>s. stream s \<noteq> sd_name sd) (students d)
    \<and> studentsRestored r2 = length (filter (\<lambda>s. stream s = sd_name sd) (students d))"
proof -
  define n where "n = sd_name sd"
  define bk where "bk = new_backup t1 n d"
  define roster where "roster = filter (\<lambda>s. stream s = n) (students d)"
  define final where "final = map (promoted_student t1 n 5) (deleteMany_sem n 6 (students d))"
  define d1 where "d1 = d\<lparr>students := final, promotion_history := promotion_history d @ [bk],
                next_oid := next_oid d + 1\<rparr>"
  from simple_promotion_run [OF ex, of t1] obtain r1 where
    run1: "simple_promotion t1 s1 d = Inr (r1, d1)"
    unfolding d1_def final_def bk_def n_def by blast
  have bk: "b_stream bk = n" "b_timestamp bk = t1" "b_students bk = roster"
    by (simp_all add: new_backup_def Let_def bk_def roster_def)
  have d1: "streams d1 = streams d" "students d1 = final"
    "promotion_history d1 = promotion_history d @ [bk]"
    by (simp_all add: d1_def)
  have latest: "latest_first (filter (\<lambda>b. b_stream b = sd_name sd') (promotion_history d1)) = [bk]"
    unfolding d1 same n_def [symmetric]
    by (rule latest_first_new_backup) (use older bk in \<open>auto simp: n_def\<close>)
  have hours: "hours_old t2 bk \<le> 24"
    using soon by (simp add: hours_old_def bk)
  have un1: "find_stream_i re (streams d1) s2 = Some sd'"
    using un by (simp add: d1)
  define d2 where "d2 = d1\<lparr>students := filter (\<lambda>x. stream x \<noteq> sd_name sd') (students d1)
                           @ insertMany (next_oid d1) (map without_id (b_students bk)),
            promotion_history := mark_restored t2 (b_oid bk) (promotion_history d1),
            next_oid := next_oid d1 + length (b_students bk)\<rparr>"
  define r2 where "r2 = \<lparr>studentsRestored = length (b_students bk), restoredFrom = b_timestamp bk\<rparr>"
  have run2: "undo_promotion regexp_i t2 s2 d1 = Inr (r2, d2)"
    unfolding d2_def r2_def
    using undo_promotion_run [of regexp_i s2 re d1 sd' bk t2] rx un1 latest hours by simp
  have st2: "students d2 = filter (\<lambda>x. stream x \<noteq> n) final
                 @ insertMany (next_oid d1) (map without_id roster)"
    by (simp add: d2_def d1 bk same n_def)
  have all_n: "\<forall>x\<in>set roster. stream x = n" by (simp add: roster_def)
  have g1: "map without_id (filter (\<lambda>s. stream s = n) (students d2)) = map without_id roster"
    unfolding st2 restored_roster(1) [OF all_n] by (simp add: map_without_id_insertMany)
  have g2: "filter (\<lambda>s. stream s \<noteq> n) (students d2) = filter (\<lambda>s. stream s \<noteq> n) (students d)"
    unfolding st2 restored_roster(2) [OF all_n] final_def by (rule filter_other_promoted)
  have g3: "studentsRestored r2 = length roster" by (simp add: r2_def bk)
  show ?thesis
    apply (rule exI [of _ r1], rule exI [of _ d1], rule exI [of _ r2], rule exI [of _ d2])
    using run1 run2 g1 g2 g3 unfolding n_def roster_def by simp
qed

lemma promotion_undo_roundtrip_example:
  "find_stream (streams example_db_old) ''BCA'' = Some \<lparr>sd_name = ''BCA'', streamCode = ''bca''\<rparr>
   \<and> literal_regexp_i (anchored ''BCA'')
        = Some (\<lambda>s. anchored (toLowerCase s) = toLowerCase (anchored ''BCA''))
   \<and> find_stream_i (\<lambda>s. anchored (toLowerCase s) = toLowerCase (anchored ''BCA''))
        (streams example_db_old) ''BCA'' = Some \<lparr>sd_name = ''BCA'', streamCode = ''bca''\<rparr>
   \<and> map b_timestamp (promotion_history example_db_old) = [10]
   \<and> (2000 - 1000) div (1000 * 60 * 60) \<le> (24::int)
   \<and> (\<exists>r1 d1 r2 d2.
          simple_promotion 1000 ''BCA'' example_db_old = Inr (r1, d1)
        \<and> undo_promotion literal_regexp_i 2000 ''BCA'' d1 = Inr (r2, d2)
        \<and> map without_id (filter (\<lambda>s. stream s = ''BCA'') (students d2))
            = map without_id (filter (\<lambda>s. stream s = ''BCA'') (students example_db_old))
        \<and> filter (\<lambda>s. stream s \<noteq> ''BCA'') (students d2)
            = filter (\<lambda>s. stream s \<noteq> ''BCA'') (students example_db_old)
        \<and> studentsRestored r2 = length (filter (\<lambda>s. stream s = ''BCA'') (students example_db_old)))"
proof -
  let ?sd = "\<lparr>sd_name = ''BCA'', streamCode = ''bca''\<rparr>"
  let ?re = "\<lambda>s. anchored (toLowerCase s) = toLowerCase (anchored ''BCA'')"
  have h1: "find_stream (streams example_db_old) ''BCA'' = Some ?sd"
    by (simp add: find_stream_def example_db_old_def example_db_def)
  have h2: "literal_regexp_i (anchored ''BCA'') = Some ?re"
    by (simp add: literal_regexp_i_def)
  have h3: "find_stream_i ?re (streams example_db_old) ''BCA'' = Some ?sd"
    by (simp add: find_stream_i_def example_db_old_def example_db_def toLowerCase_def lower_char_def)
  have h4: "sd_name ?sd = sd_name ?sd" by simp
  have h5: "\<forall>b\<in>set (promotion_history example_db_old). b_stream b = sd_name ?sd \<longrightarrow> b_timestamp b < 1000"
    by (simp add: example_db_old_def)
  have h6: "(2000 - 1000) div (1000 * 60 * 60) \<le> (24::int)" by simp
  have c: "\<exists>r1 d1 r2 d2.
          simple_promotion 1000 ''BCA'' example_db_old = Inr (r1, d1)
        \<and> undo_promotion literal_regexp_i 2000 ''BCA'' d1 = Inr (r2, d2)
        \<and> map without_id (filter (\<lambda>s. stream s = ''BCA'') (students d2))
            = map without_id (filter (\<lambda>s. stream s = ''BCA'') (students example_db_old))
        \<and> filter (\<lambda>s. stream s \<noteq> ''BCA'') (students d2)
            = filter (\<lambda>s. stream s \<noteq> ''BCA'') (students example_db_old)
        \<and> studentsRestored r2 = length (filter (\<lambda>s. stream s = ''BCA'') (students example_db_old))"
    using promotion_undo_roundtrip [where d = example_db_old and ?s1.0 = "''BCA''" and sd = ?sd
        and regexp_i = literal_regexp_i and ?s2.0 = "''BCA''" and re = ?re and sd' = ?sd
        and ?t1.0 = 1000 and ?t2.0 = 2000, OF h1 h2 h3 h4 h5 h6]
    by simp
  have h5': "\<forall>b\<in>set (promotion_history example_db_old). b_stream b = ''BCA'' \<longrightarrow> b_timestamp b < 1000"
    using h5 by simp
  have h5'': "map b_timestamp (promotion_history example_db_old) = [10]"
    by (simp add: example_db_old_def)
  show ?thesis by (intro conjI h1 h2 h3 h5'' h6 c)
qed

section \<open>Promotion: when undo fails\<close>

lemma undo_promotion_expired:
  assumes "regexp_i (anchored s) = Some re"
    and "find_stream_i re (streams d) s = Some sd"
    and "latest_first (filter (\<lambda>b. b_stream b = sd_name sd) (promotion_history d)) = [bk]"
    and "hours_old now bk > 24"
  shows "undo_promotion regexp_i now s d = Inl (UndoExpired (hours_old now bk))"
  unfolding undo_promotion_def using assms by simp

lemma undo_promotion_no_backup:
  assumes "regexp_i (anchored s) = Some re"
    and "find_stream_i re (streams d) s = Some sd"
    and "filter (\<lambda>b. b_stream b = sd_name sd) (promotion_history d) = []"
  shows "undo_promotion regexp_i now s d = Inl NotFound"
  unfolding undo_promotion_def using assms by (simp add: latest_first_def)

lemma can_undo_promotion_old:
  assumes "regexp_i (anchored s) = Some re"
    and "find_stream_i re (streams d) s = Some sd"
    and "latest_first (filter (\<lambda>b. b_stream b = sd_name sd \<and> \<not> b_restored b)
           (promotion_history d)) = [bk]"
  shows "can_undo_promotion regexp_i now s d =
           Inr (BackupInfo (hours_old now bk \<le> 24) (b_timestamp bk) (hours_old now bk)
                  (length (b_students bk)))"
  unfolding can_undo_promotion_def using assms by simp

lemma hours_old_25: "hours_old (t + 25 * 60 * 60 * 1000) \<lparr>b_oid = i, b_stream = n,
    b_timestamp = t, b_students = xs, b_totalStudents = k, b_restored = r, b_restoredAt = a\<rparr> = 25"
  by (simp add: hours_old_def)

lemma example_promoted_eq: "example_promoted =
  \<lparr>streams = [\<lparr>sd_name = ''BCA'', streamCode = ''bca''\<rparr>],
   students = [(example_student 1 ''S1'' ''BCA'' 2)\<lparr>updatedAt := 1000\<rparr>,
               (example_student 2 ''S2'' ''BCA'' 6)\<lparr>updatedAt := 1000\<rparr>,
               example_student 4 ''T1'' ''BBA'' 6],
   promotion_history =
     [\<lparr>b_oid = 5, b_stream = ''BCA'', b_timestamp = 1000,
       b_students = [example_student 1 ''S1'' ''BCA'' 1, example_student 2 ''S2'' ''BCA'' 5,
                     example_student 3 ''S3'' ''BCA'' 6],
       b_totalStudents = 3, b_restored = False, b_restoredAt = None\<rparr>],
   next_oid = 6\<rparr>"
proof -
  have "find_stream (streams example_db) ''BCA'' = Some \<lparr>sd_name = ''BCA'', streamCode = ''bca''\<rparr>"
    by (simp add: find_stream_def example_db_def)
  from simple_promotion_run [OF this, of 1000] obtain r where
    "simple_promotion 1000 ''BCA'' example_db =
       Inr (r, example_db\<lparr>students := map (promoted_student 1000 ''BCA'' 5)
                                   (deleteMany_sem ''BCA'' 6 (students example_db)),
                     promotion_history :=
                       promotion_history example_db @ [new_backup 1000 ''BCA'' example_db],
                     next_oid := next_oid example_db + 1\<rparr>)"
    by auto
  then show ?thesis
    by (simp add: example_promoted_def example_db_def example_student_def new_backup_def
        deleteMany_sem_def in_sem_def promoted_student_def)
qed

lemma example_regexp:
  "literal_regexp_i (anchored ''BCA'')
     = Some (\<lambda>s. anchored (toLowerCase s) = toLowerCase (anchored ''BCA''))"
  by (simp add: literal_regexp_i_def)

lemma example_find_stream_i:
  "find_stream_i (\<lambda>s. anchored (toLowerCase s) = toLowerCase (anchored ''BCA''))
     [\<lparr>sd_name = ''BCA'', streamCode = ''bca''\<rparr>] ''BCA''
     = Some \<lparr>sd_name = ''BCA'', streamCode = ''bca''\<rparr>"
  by (simp add: find_stream_i_def toLowerCase_def lower_char_def)

lemma insertMany_3: "insertMany n [a, b, c] = [with_id n a, with_id (n + 1) b, with_id (n + 2) c]"
  by (simp add: insertMany_def upt_rec)

lemma example_undone_eq: "example_undone =
  \<lparr>streams = [\<lparr>sd_name = ''BCA'', streamCode = ''bca''\<rparr>],
   students = [example_student 4 ''T1'' ''BBA'' 6,
               example_student 6 ''S1'' ''BCA'' 1, example_student 7 ''S2'' ''BCA'' 5,
               example_student 8 ''S3'' ''BCA'' 6],
   promotion_history =
     [\<lparr>b_oid = 5, b_stream = ''BCA'', b_timestamp = 1000,
       b_students = [example_student 1 ''S1'' ''BCA'' 1, example_student 2 ''S2'' ''BCA'' 5,
                     example_student 3 ''S3'' ''BCA'' 6],
       b_totalStudents = 3, b_restored = True, b_restoredAt = Some 2000\<rparr>],
   next_oid = 9\<rparr>"
proof -
  let ?bk = "\<lparr>b_oid = 5, b_stream = ''BCA'', b_timestamp = 1000,
       b_students = [example_student 1 ''S1'' ''BCA'' 1, example_student 2 ''S2'' ''BCA'' 5,
                     example_student 3 ''S3'' ''BCA'' 6],
       b_totalStudents = 3, b_restored = False, b_restoredAt = None\<rparr>"
  have "undo_promotion literal_regexp_i 2000 ''BCA'' example_promoted = Inr
      (\<lparr>studentsRestored = length (b_students ?bk), restoredFrom = b_timestamp ?bk\<rparr>,
       example_promoted\<lparr>students := filter (\<lambda>x. stream x \<noteq> sd_name \<lparr>sd_name = ''BCA'', streamCode = ''bca''\<rparr>) (students example_promoted)
                           @ insertMany (next_oid example_promoted) (map without_id (b_students ?bk)),
            promotion_history := mark_restored 2000 (b_oid ?bk) (promotion_history example_promoted),
            next_oid := next_oid example_promoted + length (b_students ?bk)\<rparr>)"
    by (rule undo_promotion_run [where regexp_i = literal_regexp_i and s = "''BCA''", OF example_regexp])
      (simp_all add: example_promoted_eq example_find_stream_i latest_first_def hours_old_def)
  then show ?thesis
    by (simp add: example_undone_def example_promoted_eq example_student_def mark_restored_def
        insertMany_3 with_id_def without_id_def student_doc.defs student.defs)
qed

text \<open>
  Claim C4, evaluated on the example: the stream \<open>BCA\<close> is promoted at time 1000 and the
  promotion is undone at time 2000, which marks the only backup \<open>restored = true\<close>. At time
  3000 the can-undo route, whose query skips restored backups, answers that no backup is
  available; a second call of the undo route, whose query does not skip them, finds the
  same backup again and succeeds: it restores the three students once more.
\<close>

theorem undo_twice_restores_again:
  "map b_restored (promotion_history example_undone) = [True]
   \<and> can_undo_promotion literal_regexp_i 3000 ''BCA'' example_undone = Inr NoBackupAvailable
   \<and> map_sum id fst (undo_promotion literal_regexp_i 3000 ''BCA'' example_undone)
        = Inr \<lparr>studentsRestored = 3, restoredFrom = 1000\<rparr>"
proof -
  let ?bk = "\<lparr>b_oid = 5, b_stream = ''BCA'', b_timestamp = 1000,
       b_students = [example_student 1 ''S1'' ''BCA'' 1, example_student 2 ''S2'' ''BCA'' 5,
                     example_student 3 ''S3'' ''BCA'' 6],
       b_totalStudents = 3, b_restored = True, b_restoredAt = Some 2000\<rparr>"
  have "undo_promotion literal_regexp_i 3000 ''BCA'' example_undone = Inr
      (\<lparr>studentsRestored = length (b_students ?bk), restoredFrom = b_timestamp ?bk\<rparr>,
       example_undone\<lparr>students := filter (\<lambda>x. stream x \<noteq> sd_name \<lparr>sd_name = ''BCA'', streamCode = ''bca''\<rparr>) (students example_undone)
                           @ insertMany (next_oid example_undone) (map without_id (b_students ?bk)),
            promotion_history := mark_restored 3000 (b_oid ?bk) (promotion_history example_undone),
            next_oid := next_oid example_undone + length (b_students ?bk)\<rparr>)"
    by (rule undo_promotion_run [where regexp_i = literal_regexp_i and s = "''BCA''", OF example_regexp])
      (simp_all add: example_undone_eq example_find_stream_i latest_first_def hours_old_def)
  then have "map_sum id fst (undo_promotion literal_regexp_i 3000 ''BCA'' example_undone)
        = Inr \<lparr>studentsRestored = 3, restoredFrom = 1000\<rparr>"
    by simp
  moreover have "can_undo_promotion literal_regexp_i 3000 ''BCA'' example_undone = Inr NoBackupAvailable"
    by (simp add: can_undo_promotion_def example_regexp example_undone_eq example_find_stream_i
        latest_first_def)
  moreover have "map b_restored (promotion_history example_undone) = [True]"
    by (simp add: example_undone_eq)
  ultimately show ?thesis by simp
qed

section \<open>Promotion: execute, then undo, with two streams of one name\<close>

lemma example_two_promoted_eq: "example_two_promoted =
  \<lparr>streams = [\<lparr>sd_name = ''BCom'', streamCode = ''bcm''\<rparr>,
              \<lparr>sd_name = ''BCOM'', streamCode = ''bcom''\<rparr>],
   students = [(example_student 1 ''S1'' ''BCOM'' 2)\<lparr>updatedAt := 1000\<rparr>,
               example_student 3 ''T1'' ''BCom'' 3],
   promotion_history =
     [\<lparr>b_oid = 4, b_stream = ''BCOM'', b_timestamp = 1000,
       b_students = [example_student 1 ''S1'' ''BCOM'' 1, example_student 2 ''S2'' ''BCOM'' 6],
       b_totalStudents = 2, b_restored = False, b_restoredAt = None\<rparr>],
   next_oid = 5\<rparr>"
proof -
  have "find_stream (streams example_two_streams) ''BCOM''
          = Some \<lparr>sd_name = ''BCOM'', streamCode = ''bcom''\<rparr>"
    by (simp add: find_stream_def example_two_streams_def toLowerCase_def lower_char_def)
  from simple_promotion_run [OF this, of 1000] obtain r where
    "simple_promotion 1000 ''BCOM'' example_two_streams =
       Inr (r, example_two_streams\<lparr>students := map (promoted_student 1000 ''BCOM'' 5)
                                   (deleteMany_sem ''BCOM'' 6 (students example_two_streams)),
                     promotion_history :=
                       promotion_history example_two_streams
                         @ [new_backup 1000 ''BCOM'' example_two_streams],
                     next_oid := next_oid example_two_streams + 1\<rparr>)"
    by auto
  then show ?thesis
    by (simp add: example_two_promoted_def example_two_streams_def example_student_def
        new_backup_def deleteMany_sem_def in_sem_def promoted_student_def)
qed

lemma example_regexp_bcom:
  "literal_regexp_i (anchored ''BCOM'')
     = Some (\<lambda>s. anchored (toLowerCase s) = toLowerCase (anchored ''BCOM''))"
  by (simp add: literal_regexp_i_def)

text \<open>
  Claim C3, evaluated. The collection of streams holds \<open>BCom\<close> before \<open>BCOM\<close>. Execute for
  the parameter \<open>BCOM\<close> compares the name exactly: it promotes the stream \<open>BCOM\<close> (S1 moves
  to semester 2, S2 graduates) and keeps the roster in a backup of \<open>BCOM\<close>. Undo for the
  same parameter compiles the pattern \<open>^BCOM$\<close> without regard to case, and the first
  stream that matches is \<open>BCom\<close>, which has no backup: the route answers status 404, the
  can-undo route says that no backup is available, and the students stay promoted.
\<close>

theorem undo_resolves_another_stream:
  "map_sum id snd (simple_promotion 1000 ''BCOM'' example_two_streams) = Inr example_two_promoted
   \<and> map (\<lambda>s. (studentID s, stream s, semester s)) (students example_two_streams)
       = [(''S1'', ''BCOM'', 1), (''S2'', ''BCOM'', 6), (''T1'', ''BCom'', 3)]
   \<and> map (\<lambda>s. (studentID s, stream s, semester s)) (students example_two_promoted)
       = [(''S1'', ''BCOM'', 2), (''T1'', ''BCom'', 3)]
   \<and> map (\<lambda>b. (b_stream b, b_restored b, map studentID (b_students b)))
         (promotion_history example_two_promoted)
       = [(''BCOM'', False, [''S1'', ''S2''])]
   \<and> undo_promotion literal_regexp_i 2000 ''BCOM'' example_two_promoted = Inl NotFound
   \<and> can_undo_promotion literal_regexp_i 2000 ''BCOM'' example_two_promoted
       = Inr NoBackupAvailable"
proof -
  have f: "find_stream (streams example_two_streams) ''BCOM''
          = Some \<lparr>sd_name = ''BCOM'', streamCode = ''bcom''\<rparr>"
    by (simp add: find_stream_def example_two_streams_def toLowerCase_def lower_char_def)
  from simple_promotion_run [OF f, of 1000] obtain r d where
    run: "simple_promotion 1000 ''BCOM'' example_two_streams = Inr (r, d)"
    by blast
  then have p1: "map_sum id snd (simple_promotion 1000 ''BCOM'' example_two_streams)
      = Inr example_two_promoted"
    by (simp add: example_two_promoted_def)
  have p2: "map (\<lambda>s. (studentID s, stream s, semester s)) (students example_two_streams)
       = [(''S1'', ''BCOM'', 1), (''S2'', ''BCOM'', 6), (''T1'', ''BCom'', 3)]"
    by (simp add: example_two_streams_def example_student_def)
  have p3: "map (\<lambda>s. (studentID s, stream s, semester s)) (students example_two_promoted)
       = [(''S1'', ''BCOM'', 2), (''T1'', ''BCom'', 3)]"
    by (simp add: example_two_promoted_eq example_student_def)
  have p4: "map (\<lambda>b. (b_stream b, b_restored b, map studentID (b_students b)))
         (promotion_history example_two_promoted) = [(''BCOM'', False, [''S1'', ''S2''])]"
    by (simp add: example_two_promoted_eq example_student_def)
  have fl: "find_stream_i (\<lambda>s. anchored (toLowerCase s) = toLowerCase (anchored ''BCOM''))
      [\<lparr>sd_name = ''BCom'', streamCode = ''bcm''\<rparr>, \<lparr>sd_name = ''BCOM'', streamCode = ''bcom''\<rparr>]
      ''BCOM'' = Some \<lparr>sd_name = ''BCom'', streamCode = ''bcm''\<rparr>"
    by (simp add: find_stream_i_def toLowerCase_def lower_char_def anchored_def)
  have fi: "find_stream_i (\<lambda>s. anchored (toLowerCase s) = toLowerCase (anchored ''BCOM''))
      (streams example_two_promoted) ''BCOM'' = Some \<lparr>sd_name = ''BCom'', streamCode = ''bcm''\<rparr>"
    using fl by (simp add: example_two_promoted_eq)
  have none: "filter (\<lambda>b. b_stream b = sd_name \<lparr>sd_name = ''BCom'', streamCode = ''bcm''\<rparr>)
      (promotion_history example_two_promoted) = []"
    by (simp add: example_two_promoted_eq)
  have p5: "undo_promotion literal_regexp_i 2000 ''BCOM'' example_two_promoted = Inl NotFound"
    by (rule undo_promotion_no_backup [where regexp_i = literal_regexp_i and s = "''BCOM''",
          OF example_regexp_bcom fi none])
  have p6: "can_undo_promotion literal_regexp_i 2000 ''BCOM'' example_two_promoted
       = Inr NoBackupAvailable"
    by (simp add: can_undo_promotion_def example_regexp_bcom fl latest_first_def
        example_two_promoted_eq)
  show ?thesis by (intro conjI p1 p2 p3 p4 p5 p6)
qed

section \<open>Sessions: the counts after a write\<close>

lemma whole_exact_difference:
  assumes "tot \<in> \<int>" and "\<bar>tot - of_nat n\<bar> \<le> 2 ^ 53"
  shows "exact_difference tot n"
  unfolding exact_difference_def
  by (rule binary64_Ints) (use assms in auto)

lemma counts_ok_written:
  "counts_ok (x\<lparr>studentsPresent := present, presentCount := of_nat (length present),
                absentCount := binary64 (tot - of_nat (length present)),
                totalStudents := tot, s_updatedAt := t\<rparr>)
     \<longleftrightarrow> exact_difference tot (length present)"
  by (auto simp: counts_ok_def exact_difference_def)

lemma set_attendance_eq:
  "set_attendance now present tot x =
     x\<lparr>studentsPresent := present, presentCount := of_nat (length present),
       absentCount := binary64 (tot - of_nat (length present)),
       totalStudents := tot, s_updatedAt := now\<rparr>"
  by (simp add: set_attendance_def)

lemma sessionId_set_attendance: "sessionId (set_attendance now present tot s) = sessionId s"
  by (simp add: set_attendance_def)

lemma set_attendance_twice:
  "set_attendance now p2 t2 (set_attendance now p1 t1 x) = set_attendance now p2 t2 x"
  by (simp add: set_attendance_def)

lemma findById_sessionId: "findById i xs = Some s \<Longrightarrow> sessionId s = i"
  unfolding findById_def by (induction xs) (auto split: if_splits)

lemma findById_None_iff: "findById i xs = None \<longleftrightarrow> i \<notin> sessionId ` set xs"
  unfolding findById_def by (induction xs) auto

lemma findById_replace_first:
  "findById i xs = Some old \<Longrightarrow> sessionId new = i \<Longrightarrow>
     findById j (replace_first i new xs) = (if j = i then Some new else findById j xs)"
  unfolding findById_def by (induction xs) (auto split: if_splits)

lemma replace_first_split:
  "findById i xs = Some old \<Longrightarrow>
     \<exists>pre post. xs = pre @ old # post \<and> i \<notin> sessionId ` set pre \<and> sessionId old = i
        \<and> (\<forall>new. replace_first i new xs = pre @ new # post)"
proof (induction xs)
  case Nil
  then show ?case by (simp add: findById_def)
next
  case (Cons s xs)
  show ?case
  proof (cases "sessionId s = i")
    case True
    then have "old = s" using Cons.prems by (simp add: findById_def)
    then have "s # xs = [] @ old # xs \<and> i \<notin> sessionId ` set [] \<and> sessionId old = i
        \<and> (\<forall>new. replace_first i new (s # xs) = [] @ new # xs)"
      using True by simp
    then show ?thesis by blast
  next
    case False
    then have "findById i xs = Some old" using Cons.prems by (simp add: findById_def)
    from Cons.IH [OF this] obtain pre post where
      "xs = pre @ old # post" "i \<notin> sessionId ` set pre" "sessionId old = i"
      "\<forall>new. replace_first i new xs = pre @ new # post"
      by blast
    then have "s # xs = (s # pre) @ old # post \<and> i \<notin> sessionId ` set (s # pre)
        \<and> sessionId old = i \<and> (\<forall>new. replace_first i new (s # xs) = (s # pre) @ new # post)"
      using False by auto
    then show ?thesis by blast
  qed
qed

lemma length_replace_first: "length (replace_first i new xs) = length xs"
  by (induction xs) auto

lemma map_sessionId_replace_first:
  "sessionId new = i \<Longrightarrow> map sessionId (replace_first i new xs) = map sessionId xs"
  by (induction xs) auto

text \<open>The document that an update replaces is the first one of its identity.\<close>

lemma nth_replace_first:
  "findById i xs = Some old \<Longrightarrow> j < length xs \<Longrightarrow>
     replace_first i (f old) xs ! j =
       (if sessionId (xs ! j) = i \<and> sessionId (xs ! j) \<notin> sessionId ` set (take j xs)
        then f (xs ! j) else xs ! j)"
proof (induction xs arbitrary: j)
  case Nil
  then show ?case by simp
next
  case (Cons s xs)
  show ?case
  proof (cases "sessionId s = i")
    case True
    then have old: "old = s" using Cons.prems(1) by (simp add: findById_def)
    show ?thesis
    proof (cases j)
      case 0
      then show ?thesis using True old by simp
    next
      case (Suc k)
      then show ?thesis using True by auto
    qed
  next
    case False
    then have f: "findById i xs = Some old" using Cons.prems(1) by (simp add: findById_def)
    show ?thesis
    proof (cases j)
      case 0
      then show ?thesis using False by simp
    next
      case (Suc k)
      then have k: "k < length xs" using Cons.prems(2) by simp
      show ?thesis using Cons.IH [OF f k] False Suc by auto
    qed
  qed
qed

lemma update_session_result:
  assumes "update_session now i body a = Inr (s, a')"
  shows "\<exists>present tot old. body = \<lparr>u_studentsPresent = Arr present, u_totalStudents = Some tot\<rparr>
      \<and> 1 \<le> tot \<and> findById i (sessions (attendance a)) = Some old
      \<and> s = set_attendance now present tot old
      \<and> sessions (attendance a') = replace_first i s (sessions (attendance a))
      \<and> cache a' = clear_stream (s_stream old) (cache a)"
proof -
  obtain f t where body: "body = \<lparr>u_studentsPresent = f, u_totalStudents = t\<rparr>"
    by (cases body) auto
  show ?thesis
    using assms unfolding update_session_def body
    by (auto split: array_field.splits option.splits if_splits simp: Let_def set_attendance_def)
qed

lemma snd_bulkWrite_Cons:
  "snd (bulkWrite now ((i, present, tot) # ops) xs) =
     (case findById i xs of
        None \<Rightarrow> snd (bulkWrite now ops xs)
      | Some old \<Rightarrow>
          snd (bulkWrite now ops (replace_first i (set_attendance now present tot old) xs)))"
  by (cases "findById i xs") (simp_all add: Let_def split: prod.splits)

lemma find_snoc:
  "find pr (xs @ [x]) = (case find pr xs of None \<Rightarrow> (if pr x then Some x else None) | Some y \<Rightarrow> Some y)"
  by (induction xs) auto

lemma length_bulkWrite: "length (snd (bulkWrite now ops xs)) = length xs"
proof (induction ops arbitrary: xs)
  case Nil
  show ?case by simp
next
  case (Cons op ops)
  obtain i present tot where op: "op = (i, present, tot)" by (cases op) auto
  show ?case
    unfolding op snd_bulkWrite_Cons
    by (cases "findById i xs") (simp_all add: Cons.IH length_replace_first)
qed

text \<open>
  What a batch does to the document at one place of the collection: nothing when an
  earlier document has the same identity or no operation names it, and otherwise what the
  last operation that names it says.
\<close>

lemma nth_bulkWrite:
  "j < length xs \<Longrightarrow>
     snd (bulkWrite now ops xs) ! j =
       (if sessionId (xs ! j) \<in> sessionId ` set (take j xs) then xs ! j
        else case find (\<lambda>op. fst op = sessionId (xs ! j)) (rev ops) of
               None \<Rightarrow> xs ! j
             | Some (i, present, tot) \<Rightarrow> set_attendance now present tot (xs ! j))"
proof (induction ops arbitrary: xs)
  case Nil
  show ?case by simp
next
  case (Cons op ops)
  obtain i present tot where op: "op = (i, present, tot)" by (cases op) auto
  let ?P = "\<lambda>op. fst op = sessionId (xs ! j)"
  show ?case
  proof (cases "findById i xs")
    case None
    have "xs ! j \<in> set xs" using Cons.prems by simp
    then have "sessionId (xs ! j) \<noteq> i" using None unfolding findById_None_iff by auto
    then have "find ?P (rev (op # ops)) = find ?P (rev ops)"
      by (auto simp: find_snoc op split: option.splits)
    moreover have "snd (bulkWrite now (op # ops) xs) = snd (bulkWrite now ops xs)"
      unfolding op snd_bulkWrite_Cons using None by simp
    ultimately show ?thesis using Cons.IH [OF Cons.prems] by simp
  next
    case (Some old)
    define ys where "ys = replace_first i (set_attendance now present tot old) xs"
    have id_new: "sessionId (set_attendance now present tot old) = i"
      using findById_sessionId [OF Some] by (simp add: sessionId_set_attendance)
    have ids: "map sessionId ys = map sessionId xs"
      unfolding ys_def by (rule map_sessionId_replace_first [OF id_new])
    have len: "length ys = length xs" unfolding ys_def by (rule length_replace_first)
    have j: "j < length ys" using Cons.prems len by simp
    have idj: "sessionId (ys ! j) = sessionId (xs ! j)"
      using ids Cons.prems j by (metis nth_map)
    have "sessionId ` set (take j ys) = set (take j (map sessionId ys))"
      by (simp add: take_map)
    also have "\<dots> = sessionId ` set (take j xs)" unfolding ids by (simp add: take_map)
    finally have before: "sessionId ` set (take j ys) = sessionId ` set (take j xs)" .
    have ysj: "ys ! j =
       (if sessionId (xs ! j) = i \<and> sessionId (xs ! j) \<notin> sessionId ` set (take j xs)
        then set_attendance now present tot (xs ! j) else xs ! j)"
      unfolding ys_def by (rule nth_replace_first [OF Some Cons.prems])
    have run: "snd (bulkWrite now (op # ops) xs) = snd (bulkWrite now ops ys)"
      unfolding op snd_bulkWrite_Cons ys_def using Some by simp
    have IH: "snd (bulkWrite now ops ys) ! j =
       (if sessionId (xs ! j) \<in> sessionId ` set (take j xs) then ys ! j
        else case find ?P (rev ops) of
               None \<Rightarrow> ys ! j
             | Some (i, present, tot) \<Rightarrow> set_attendance now present tot (ys ! j))"
      using Cons.IH [OF j] unfolding idj before .
    show ?thesis
    proof (cases "sessionId (xs ! j) \<in> sessionId ` set (take j xs)")
      case True
      then show ?thesis unfolding run IH using ysj by simp
    next
      case first: False
      show ?thesis
      proof (cases "sessionId (xs ! j) = i")
        case True
        then have Pop: "?P op" by (simp add: op)
        have y: "ys ! j = set_attendance now present tot (xs ! j)"
          using ysj True first by simp
        show ?thesis
        proof (cases "find ?P (rev ops)")
          case None
          then have "find ?P (rev (op # ops)) = Some op" using Pop by (simp add: find_snoc)
          then show ?thesis unfolding run IH using first None y by (simp add: op)
        next
          case (Some r)
          then have "find ?P (rev (op # ops)) = Some r" by (simp add: find_snoc)
          then show ?thesis
            unfolding run IH using first Some y
            by (auto simp: set_attendance_twice split: prod.splits)
        qed
      next
        case False
        then have "\<not> ?P op" by (auto simp: op)
        then have "find ?P (rev (op # ops)) = find ?P (rev ops)"
          by (auto simp: find_snoc split: option.splits)
        moreover have "ys ! j = xs ! j" using ysj False by simp
        ultimately show ?thesis unfolding run IH using first by (simp cong: option.case_cong)
      qed
    qed
  qed
qed

lemma bulk_ops_map:
  "bulk_ops us = Some ops \<Longrightarrow>
     ops = map (\<lambda>u. (bu_sessionId u, the (bu_studentsPresent u), the (bu_totalStudents u))) us"
proof (induction us arbitrary: ops)
  case Nil
  then show ?case by simp
next
  case (Cons u us)
  then show ?case by (auto split: option.splits)
qed

lemma find_map_bulk:
  "find (\<lambda>op. fst op = i)
       (map (\<lambda>u. (bu_sessionId u, the (bu_studentsPresent u), the (bu_totalStudents u))) us)
     = map_option (\<lambda>u. (bu_sessionId u, the (bu_studentsPresent u), the (bu_totalStudents u)))
         (find (\<lambda>u. bu_sessionId u = i) us)"
  by (induction us) auto

lemma bulk_update_route_length:
  assumes "bulk_update_route now stream_param (Some us) a = Inr (m, a')"
  shows "length (sessions (attendance a')) = length (sessions (attendance a))"
proof -
  from assms obtain ops where "bulk_ops us = Some ops"
    and "sessions (attendance a') = snd (bulkWrite now ops (sessions (attendance a)))"
    by (auto simp: bulk_update_route_def Let_def split: option.splits prod.splits)
  then show ?thesis by (simp add: length_bulkWrite)
qed

lemma bulk_update_route_result:
  assumes "bulk_update_route now stream_param (Some us) a = Inr (m, a')"
    and "j < length (sessions (attendance a))"
  shows "sessions (attendance a') ! j =
      (let x = sessions (attendance a) ! j
       in if sessionId x \<in> sessionId ` set (take j (sessions (attendance a))) then x
          else case last_update us (sessionId x) of
                 None \<Rightarrow> x
               | Some u \<Rightarrow>
                   x\<lparr>studentsPresent := the (bu_studentsPresent u),
                     presentCount := of_nat (length (the (bu_studentsPresent u))),
                     absentCount := binary64 (the (bu_totalStudents u)
                                               - of_nat (length (the (bu_studentsPresent u)))),
                     totalStudents := the (bu_totalStudents u), s_updatedAt := now\<rparr>)"
proof -
  from assms(1) obtain ops where ops: "bulk_ops us = Some ops"
    and a': "sessions (attendance a') = snd (bulkWrite now ops (sessions (attendance a)))"
    by (auto simp: bulk_update_route_def Let_def split: option.splits prod.splits)
  have "find (\<lambda>op. fst op = i) (rev ops)
      = map_option (\<lambda>u. (bu_sessionId u, the (bu_studentsPresent u), the (bu_totalStudents u)))
          (last_update us i)" for i
    unfolding bulk_ops_map [OF ops] last_update_def by (simp add: rev_map find_map_bulk)
  then show "sessions (attendance a') ! j =
      (let x = sessions (attendance a) ! j
       in if sessionId x \<in> sessionId ` set (take j (sessions (attendance a))) then x
          else case last_update us (sessionId x) of
                 None \<Rightarrow> x
               | Some u \<Rightarrow>
                   x\<lparr>studentsPresent := the (bu_studentsPresent u),
                     presentCount := of_nat (length (the (bu_studentsPresent u))),
                     absentCount := binary64 (the (bu_totalStudents u)
                                               - of_nat (length (the (bu_studentsPresent u)))),
                     totalStudents := the (bu_totalStudents u), s_updatedAt := now\<rparr>)"
    unfolding a' nth_bulkWrite [OF assms(2)] Let_def
    by (simp add: set_attendance_eq split: option.splits)
qed

lemma submit_attendance_result:
  assumes "submit_attendance parse_date now stream_param semesterNumber subject_param body c st
             = Inr (k, c', st')"
  shows "\<exists>present tot x. sb_studentsPresent body = Some present \<and> sb_totalStudents body = Number tot
      \<and> sessions st' = sessions st @ [x] \<and> sessionId x = k
      \<and> studentsPresent x = present \<and> totalStudents x = tot
      \<and> presentCount x = (if no_count (sb_presentCount body) then of_nat (length present)
                            else the (sb_presentCount body))
      \<and> absentCount x =
          (if \<not> no_count (sb_absentCount body) then the (sb_absentCount body)
           else if binary64 (tot - of_nat (length present)) \<noteq> 0
             then binary64 (tot - of_nat (length present))
           else binary64 (tot - presentCount x))"
proof -
  from assms obtain present tot sem d where
    body: "sb_studentsPresent body = Some present" "sb_totalStudents body = Number tot"
      "semesterNumber = Some sem" "parse_date (the (sb_date body)) = Some d"
    by (auto simp: submit_attendance_def Let_def
        split: if_splits option.splits prod.splits number_field.splits)
  define doc where "doc = \<lparr>sessionId = next_session st,
      s_stream = trim stream_param, s_semester = sem, subject = trim subject_param, date = d,
      time = the (sb_time body), studentsPresent = present, totalStudents = tot,
      presentCount = or_else (sb_presentCount body) (of_nat (length present)),
      absentCount = or_else (sb_absentCount body) (binary64 (tot - of_nat (length present))),
      createdAt = now, s_updatedAt = now\<rparr>"
  have run: "sessions st' = sessions st @ [pre_save doc]" "k = sessionId doc"
    using assms body unfolding submit_attendance_def doc_def Let_def
    by (auto split: if_splits)
  have "sessionId (pre_save doc) = k" "studentsPresent (pre_save doc) = present"
    "totalStudents (pre_save doc) = tot"
    by (simp_all add: run pre_save_def Let_def doc_def)
  moreover have pc: "presentCount (pre_save doc) =
      (if no_count (sb_presentCount body) then of_nat (length present)
       else the (sb_presentCount body))"
    by (auto simp: pre_save_def Let_def doc_def or_else_def no_count_def split: option.splits)
  moreover have "absentCount (pre_save doc) =
          (if \<not> no_count (sb_absentCount body) then the (sb_absentCount body)
           else if binary64 (tot - of_nat (length present)) \<noteq> 0
             then binary64 (tot - of_nat (length present))
           else binary64 (tot - presentCount (pre_save doc)))"
    unfolding pc
    by (auto simp: pre_save_def Let_def doc_def or_else_def no_count_def split: option.splits)
  ultimately show ?thesis using body run by blast
qed

text \<open>
  Claim C1, as the code has it. The single-session update and the bulk update take no
  counts from the request. The update replaces the first document of the identity, and
  the batch gives every document that one of its updates names the values of the last
  such update: the new document has \<open>presentCount = |studentsPresent|\<close> and
  \<open>absentCount\<close> the double \<open>totalStudents - |studentsPresent|\<close>, and every other document
  and every other field is as before. Submit appends one document and changes no other;
  it stores a count of the request that is not zero as it is supplied, and otherwise the
  counts that the update routes store. A document with these counts satisfies
  \<open>presentCount + absentCount = totalStudents\<close> exactly when the subtraction is not rounded,
  and the subtraction is not rounded when \<open>totalStudents\<close> is a whole number and the
  difference is at most \<open>2\<^sup>5\<^sup>3\<close> in magnitude.
\<close>

theorem write_paths_keep_counts:
  "(update_session now i body a = Inr (s, a1) \<longrightarrow>
      (\<exists>present tot pre old post.
          body = \<lparr>u_studentsPresent = Arr present, u_totalStudents = Some tot\<rparr>
        \<and> sessions (attendance a) = pre @ old # post
        \<and> i \<notin> sessionId ` set pre \<and> sessionId old = i
        \<and> s = old\<lparr>studentsPresent := present, presentCount := of_nat (length present),
                   absentCount := binary64 (tot - of_nat (length present)),
                   totalStudents := tot, s_updatedAt := now\<rparr>
        \<and> sessions (attendance a1) = pre @ s # post))
   \<and> (bulk_update_route now stream_param (Some us) a = Inr (m, a2) \<longrightarrow>
        length (sessions (attendance a2)) = length (sessions (attendance a))
      \<and> (\<forall>j<length (sessions (attendance a)).
           sessions (attendance a2) ! j =
             (let x = sessions (attendance a) ! j
              in if sessionId x \<in> sessionId ` set (take j (sessions (attendance a))) then x
                 else case last_update us (sessionId x) of
                        None \<Rightarrow> x
                      | Some u \<Rightarrow>
                          x\<lparr>studentsPresent := the (bu_studentsPresent u),
                            presentCount := of_nat (length (the (bu_studentsPresent u))),
                            absentCount :=
                              binary64 (the (bu_totalStudents u)
                                          - of_nat (length (the (bu_studentsPresent u)))),
                            totalStudents := the (bu_totalStudents u),
                            s_updatedAt := now\<rparr>)))
   \<and> (submit_attendance parse_date now stream_param semesterNumber subject_param sbody c st
         = Inr (k, c3, st3) \<longrightarrow>
        (\<exists>present tot x.
            sb_studentsPresent sbody = Some present \<and> sb_totalStudents sbody = Number tot
          \<and> sessions st3 = sessions st @ [x] \<and> sessionId x = k
          \<and> studentsPresent x = present \<and> totalStudents x = tot
          \<and> presentCount x = (if no_count (sb_presentCount sbody) then of_nat (length present)
                                else the (sb_presentCount sbody))
          \<and> absentCount x =
              (if \<not> no_count (sb_absentCount sbody) then the (sb_absentCount sbody)
               else if binary64 (tot - of_nat (length present)) \<noteq> 0
                 then binary64 (tot - of_nat (length present))
               else binary64 (tot - presentCount x))
          \<and> (no_count (sb_presentCount sbody) \<and> no_count (sb_absentCount sbody) \<longrightarrow>
               (counts_ok x \<longleftrightarrow> exact_difference tot (length present)))))
   \<and> (counts_ok (y\<lparr>studentsPresent := present', presentCount := of_nat (length present'),
                    absentCount := binary64 (tot' - of_nat (length present')),
                    totalStudents := tot', s_updatedAt := t\<rparr>)
        \<longleftrightarrow> exact_difference tot' (length present'))
   \<and> (tot' \<in> \<int> \<and> \<bar>tot' - of_nat n\<bar> \<le> 2 ^ 53 \<longrightarrow> exact_difference tot' n)"
proof (intro conjI impI)
  assume u: "update_session now i body a = Inr (s, a1)"
  from update_session_result [OF u] obtain present tot old where
    body: "body = \<lparr>u_studentsPresent = Arr present, u_totalStudents = Some tot\<rparr>"
    and old: "findById i (sessions (attendance a)) = Some old"
    and s: "s = set_attendance now present tot old"
    and a1: "sessions (attendance a1) = replace_first i s (sessions (attendance a))"
    by blast
  from replace_first_split [OF old] obtain pre post where
    sp: "sessions (attendance a) = pre @ old # post" "i \<notin> sessionId ` set pre" "sessionId old = i"
    and rp: "replace_first i s (sessions (attendance a)) = pre @ s # post"
    by blast
  show "\<exists>present tot pre old post.
          body = \<lparr>u_studentsPresent = Arr present, u_totalStudents = Some tot\<rparr>
        \<and> sessions (attendance a) = pre @ old # post
        \<and> i \<notin> sessionId ` set pre \<and> sessionId old = i
        \<and> s = old\<lparr>studentsPresent := present, presentCount := of_nat (length present),
                   absentCount := binary64 (tot - of_nat (length present)),
                   totalStudents := tot, s_updatedAt := now\<rparr>
        \<and> sessions (attendance a1) = pre @ s # post"
    using body sp s [unfolded set_attendance_eq] a1 [unfolded rp] by blast
next
  assume b: "bulk_update_route now stream_param (Some us) a = Inr (m, a2)"
  show "length (sessions (attendance a2)) = length (sessions (attendance a))"
    by (rule bulk_update_route_length [OF b])
next
  assume b: "bulk_update_route now stream_param (Some us) a = Inr (m, a2)"
  show "\<forall>j<length (sessions (attendance a)).
           sessions (attendance a2) ! j =
             (let x = sessions (attendance a) ! j
              in if sessionId x \<in> sessionId ` set (take j (sessions (attendance a))) then x
                 else case last_update us (sessionId x) of
                        None \<Rightarrow> x
                      | Some u \<Rightarrow>
                          x\<lparr>studentsPresent := the (bu_studentsPresent u),
                            presentCount := of_nat (length (the (bu_studentsPresent u))),
                            absentCount :=
                              binary64 (the (bu_totalStudents u)
                                          - of_nat (length (the (bu_studentsPresent u)))),
                            totalStudents := the (bu_totalStudents u),
                            s_updatedAt := now\<rparr>)"
    using bulk_update_route_result [OF b] by blast
next
  assume sub: "submit_attendance parse_date now stream_param semesterNumber subject_param sbody c st
         = Inr (k, c3, st3)"
  from submit_attendance_result [OF sub] obtain present tot x where
    x: "sb_studentsPresent sbody = Some present" "sb_totalStudents sbody = Number tot"
      "sessions st3 = sessions st @ [x]" "sessionId x = k"
      "studentsPresent x = present" "totalStudents x = tot"
      "presentCount x = (if no_count (sb_presentCount sbody) then of_nat (length present)
                                else the (sb_presentCount sbody))"
      "absentCount x =
              (if \<not> no_count (sb_absentCount sbody) then the (sb_absentCount sbody)
               else if binary64 (tot - of_nat (length present)) \<noteq> 0
                 then binary64 (tot - of_nat (length present))
               else binary64 (tot - presentCount x))"
    by blast
  have "no_count (sb_presentCount sbody) \<and> no_count (sb_absentCount sbody) \<longrightarrow>
               (counts_ok x \<longleftrightarrow> exact_difference tot (length present))"
    using x(5-8) by (auto simp: counts_ok_def exact_difference_def)
  then show "\<exists>present tot x.
            sb_studentsPresent sbody = Some present \<and> sb_totalStudents sbody = Number tot
          \<and> sessions st3 = sessions st @ [x] \<and> sessionId x = k
          \<and> studentsPresent x = present \<and> totalStudents x = tot
          \<and> presentCount x = (if no_count (sb_presentCount sbody) then of_nat (length present)
                                else the (sb_presentCount sbody))
          \<and> absentCount x =
              (if \<not> no_count (sb_absentCount sbody) then the (sb_absentCount sbody)
               else if binary64 (tot - of_nat (length present)) \<noteq> 0
                 then binary64 (tot - of_nat (length present))
               else binary64 (tot - presentCount x))
          \<and> (no_count (sb_presentCount sbody) \<and> no_count (sb_absentCount sbody) \<longrightarrow>
               (counts_ok x \<longleftrightarrow> exact_difference tot (length present)))"
    using x by blast
next
  show "counts_ok (y\<lparr>studentsPresent := present', presentCount := of_nat (length present'),
                    absentCount := binary64 (tot' - of_nat (length present')),
                    totalStudents := tot', s_updatedAt := t\<rparr>)
        \<longleftrightarrow> exact_difference tot' (length present')"
    by (rule counts_ok_written)
next
  assume "tot' \<in> \<int> \<and> \<bar>tot' - of_nat n\<bar> \<le> 2 ^ 53"
  then show "exact_difference tot' n" using whole_exact_difference by blast
qed

lemma example_update:
  "update_session 5 11 \<lparr>u_studentsPresent = Arr present, u_totalStudents = Some tot\<rparr>
     example_app =
   (if tot < 1 then Inl ValidationError
    else Inr (set_attendance 5 present tot example_session,
          example_app\<lparr>attendance := \<lparr>sessions = [set_attendance 5 present tot example_session],
                                       next_session = 12\<rparr>\<rparr>))"
  by (simp add: update_session_def example_app_def findById_def example_session_def Let_def
      set_attendance_def clear_stream_def clearCachePattern_def)

lemma example_bulk:
  "bulk_update_route 5 ''BCA''
     (Some [\<lparr>bu_sessionId = 11, bu_studentsPresent = Some [''S2''], bu_totalStudents = Some 3\<rparr>])
     example_app =
   Inr (1, example_app\<lparr>attendance := \<lparr>sessions = [set_attendance 5 [''S2''] 3 example_session],
                                       next_session = 12\<rparr>\<rparr>)"
  by (simp add: bulk_update_route_def example_app_def findById_def example_session_def Let_def
      set_attendance_def clear_stream_def clearCachePattern_def)

lemma trim_examples: "trim ''BCA'' = ''BCA''" "trim ''DBMS'' = ''DBMS''"
  by (simp_all add: trim_def is_space_def)

lemma example_submit_run:
  "submit_attendance example_parse_date 5 ''BCA'' (Some 2) ''DBMS''
     (example_submit\<lparr>sb_studentsPresent := Some present, sb_presentCount := p\<rparr>)
     ([] :: stats_row list cache) (attendance example_app) =
   (if 0 \<le> or_else p (of_nat (length present))
        \<and> 0 \<le> binary64 (3 - of_nat (length present)) then
      Inr (12, [],
        \<lparr>sessions = [example_session,
           pre_save \<lparr>sessionId = 12, s_stream = ''BCA'', s_semester = 2, subject = ''DBMS'',
             date = 1736553600000, time = ''10:00 AM - 11:00 AM'', studentsPresent = present,
             totalStudents = 3, presentCount = or_else p (of_nat (length present)),
             absentCount = binary64 (3 - of_nat (length present)),
             createdAt = 5, s_updatedAt = 5\<rparr>],
         next_session = 13\<rparr>)
    else Inl StoreError)"
  by (simp add: submit_attendance_def example_submit_def example_app_def example_parse_date_def
      falsy_string_def Let_def trim_examples schema_valid_def clear_stream_def
      clearCachePattern_def or_else_def)

theorem write_paths_keep_counts_witness:
  "(\<exists>s a1. update_session 5 11
        \<lparr>u_studentsPresent = Arr [''S1'', ''S2''], u_totalStudents = Some 3\<rparr> example_app
        = Inr (s, a1)
      \<and> sessions (attendance a1) = [s]
      \<and> (studentsPresent s, presentCount s, absentCount s, totalStudents s)
          = ([''S1'', ''S2''], 2, 1, 3))
   \<and> (\<exists>m a2. bulk_update_route 5 ''BCA''
        (Some [\<lparr>bu_sessionId = 11, bu_studentsPresent = Some [''S2''], bu_totalStudents = Some 3\<rparr>])
        example_app = Inr (m, a2)
      \<and> map (\<lambda>x. (studentsPresent x, presentCount x, absentCount x, totalStudents x))
            (sessions (attendance a2)) = [([''S2''], 1, 2, 3)])
   \<and> (\<exists>k c3 st3 x. submit_attendance example_parse_date 5 ''BCA'' (Some 2) ''DBMS'' example_submit
        ([] :: stats_row list cache) (attendance example_app) = Inr (k, c3, st3)
      \<and> sessions st3 = [example_session, x]
      \<and> (studentsPresent x, presentCount x, absentCount x, totalStudents x)
          = ([''S1'', ''S3''], 2, 1, 3)
      \<and> counts_ok x)
   \<and> (3::rat) \<in> \<int> \<and> \<bar>3 - of_nat 2\<bar> \<le> (2 ^ 53 :: rat) \<and> exact_difference 3 2"
proof -
  let ?ub = "\<lparr>u_studentsPresent = Arr [''S1'', ''S2''], u_totalStudents = Some 3\<rparr>"
  let ?bu = "\<lparr>bu_sessionId = 11, bu_studentsPresent = Some [''S2''], bu_totalStudents = Some 3\<rparr>"
  obtain s a1 where u: "update_session 5 11 ?ub example_app = Inr (s, a1)"
    by (simp add: example_update)
  obtain m a2 where b: "bulk_update_route 5 ''BCA'' (Some [?bu]) example_app = Inr (m, a2)"
    by (simp add: example_bulk)
  have "example_submit = example_submit\<lparr>sb_studentsPresent := Some [''S1'', ''S3''], sb_presentCount := None\<rparr>"
    by (simp add: example_submit_def)
  then obtain k c3 st3 where
    sub: "submit_attendance example_parse_date 5 ''BCA'' (Some 2) ''DBMS'' example_submit
            ([] :: stats_row list cache) (attendance example_app) = Inr (k, c3, st3)"
    using example_submit_run [where present = "[''S1'', ''S3'']" and p = None]
    by (simp add: or_else_def)
  have nc: "no_count (sb_presentCount example_submit)" "no_count (sb_absentCount example_submit)"
    by (simp_all add: no_count_def example_submit_def)
  have whole: "(3::rat) \<in> \<int>" "\<bar>3 - of_nat 2\<bar> \<le> (2 ^ 53 :: rat)" by simp_all
  note inst = write_paths_keep_counts [where now = 5 and i = 11 and body = ?ub and a = example_app
      and s = s and ?a1.0 = a1 and stream_param = "''BCA''" and us = "[?bu]" and m = m
      and ?a2.0 = a2 and parse_date = example_parse_date and semesterNumber = "Some 2"
      and subject_param = "''DBMS''" and sbody = example_submit
      and c = "[] :: stats_row list cache" and st = "attendance example_app"
      and k = k and ?c3.0 = c3 and ?st3.0 = st3 and tot' = 3 and n = 2]
  note inst_update = inst [THEN conjunct1, THEN mp, OF u]
  note inst_bulk = inst [THEN conjunct2, THEN conjunct1, THEN mp, OF b]
  note inst_submit = inst [THEN conjunct2, THEN conjunct2, THEN conjunct1, THEN mp, OF sub]
  note inst_exact = inst [THEN conjunct2, THEN conjunct2, THEN conjunct2, THEN conjunct2, THEN mp]
  have ex: "exact_difference 3 2" by (rule inst_exact) (use whole in simp)
  from inst_update obtain present tot pre old post where
    pu: "?ub = \<lparr>u_studentsPresent = Arr present, u_totalStudents = Some tot\<rparr>"
      "sessions (attendance example_app) = pre @ old # post"
      "s = old\<lparr>studentsPresent := present, presentCount := of_nat (length present),
                absentCount := binary64 (tot - of_nat (length present)),
                totalStudents := tot, s_updatedAt := 5\<rparr>"
      "sessions (attendance a1) = pre @ s # post"
    by (elim exE conjE) (rule that)
  have shape: "pre = [] \<and> post = []"
    using pu(2) by (cases pre) (simp_all add: example_app_def)
  have pt: "present = [''S1'', ''S2'']" "tot = 3" using pu(1) by simp_all
  have c1: "sessions (attendance a1) = [s]
      \<and> (studentsPresent s, presentCount s, absentCount s, totalStudents s)
          = ([''S1'', ''S2''], 2, 1, 3)"
    using pu(3,4) shape pt by simp
  have len: "length (sessions (attendance a2)) = 1"
    using inst_bulk [THEN conjunct1] by (simp add: example_app_def)
  have "sessions (attendance a2) ! 0 =
      example_session\<lparr>studentsPresent := [''S2''], presentCount := 1, absentCount := 2,
        totalStudents := 3, s_updatedAt := 5\<rparr>"
    using inst_bulk [THEN conjunct2, rule_format, of 0]
    by (simp add: example_app_def last_update_def example_session_def)
  then have c2: "map (\<lambda>x. (studentsPresent x, presentCount x, absentCount x, totalStudents x))
            (sessions (attendance a2)) = [([''S2''], 1, 2, 3)]"
    using len by (cases "sessions (attendance a2)") simp_all
  from inst_submit obtain present' tot' x where
    ps: "sb_studentsPresent example_submit = Some present'"
      "sb_totalStudents example_submit = Number tot'"
      "sessions st3 = sessions (attendance example_app) @ [x]"
      "studentsPresent x = present'" "totalStudents x = tot'"
      "presentCount x = (if no_count (sb_presentCount example_submit)
                         then of_nat (length present') else the (sb_presentCount example_submit))"
      "absentCount x =
              (if \<not> no_count (sb_absentCount example_submit)
               then the (sb_absentCount example_submit)
               else if binary64 (tot' - of_nat (length present')) \<noteq> 0
                 then binary64 (tot' - of_nat (length present'))
               else binary64 (tot' - presentCount x))"
      "no_count (sb_presentCount example_submit) \<and> no_count (sb_absentCount example_submit) \<longrightarrow>
               (counts_ok x \<longleftrightarrow> exact_difference tot' (length present'))"
    by (elim exE conjE) (rule that)
  have pt': "present' = [''S1'', ''S3'']" "tot' = 3"
    using ps(1,2) by (simp_all add: example_submit_def)
  have c3: "sessions st3 = [example_session, x]
      \<and> (studentsPresent x, presentCount x, absentCount x, totalStudents x)
          = ([''S1'', ''S3''], 2, 1, 3)
      \<and> counts_ok x"
  proof -
    have "length [''S1'', ''S3''] = 2" by simp
    then have "exact_difference 3 (length [''S1'', ''S3''])" using ex by (simp only:)
    then show ?thesis using ps(3-8) nc unfolding pt' by (simp add: example_app_def)
  qed
  have w1: "\<exists>s a1. update_session 5 11 ?ub example_app = Inr (s, a1)
      \<and> sessions (attendance a1) = [s]
      \<and> (studentsPresent s, presentCount s, absentCount s, totalStudents s)
          = ([''S1'', ''S2''], 2, 1, 3)"
    using u c1 by (intro exI [of _ s] exI [of _ a1] conjI) simp_all
  have w2: "\<exists>m a2. bulk_update_route 5 ''BCA'' (Some [?bu]) example_app = Inr (m, a2)
      \<and> map (\<lambda>x. (studentsPresent x, presentCount x, absentCount x, totalStudents x))
            (sessions (attendance a2)) = [([''S2''], 1, 2, 3)]"
    using b c2 by (intro exI [of _ m] exI [of _ a2] conjI) simp_all
  have w3: "\<exists>k c3 st3 x. submit_attendance example_parse_date 5 ''BCA'' (Some 2) ''DBMS''
        example_submit ([] :: stats_row list cache) (attendance example_app) = Inr (k, c3, st3)
      \<and> sessions st3 = [example_session, x]
      \<and> (studentsPresent x, presentCount x, absentCount x, totalStudents x)
          = ([''S1'', ''S3''], 2, 1, 3)
      \<and> counts_ok x"
    using sub c3 by (intro exI [of _ k] exI [of _ c3] exI [of _ st3] exI [of _ x] conjI) simp_all
  show ?thesis by (intro conjI w1 w2 w3 whole ex)
qed

lemma binary64_above_2_53: "binary64 9007199254740993 = 9007199254740992"
  by (subst binary64_at [where e = 53])
    (simp_all add: round_half_even_tie [where n = 4503599627370496])

text \<open>
  Claim C1 as stated fails on two of the paths. A submission with
  \<open>studentsPresent = ['S1']\<close>, \<open>totalStudents = 3\<close> and \<open>presentCount = 5\<close> passes the
  validators and is stored with \<open>presentCount = 5\<close> and \<open>absentCount = 2\<close>. An update with
  \<open>studentsPresent = ['S1']\<close> and \<open>totalStudents = 9007199254740994\<close>, which is the double
  \<open>2\<^sup>5\<^sup>3 + 2\<close>, is stored with \<open>absentCount = 9007199254740992\<close>: the exact difference is no
  double and is rounded to the even neighbour.
\<close>

theorem stored_counts_disagree:
  "map_sum id
     (\<lambda>(k, c, st). map (\<lambda>s. (studentsPresent s, presentCount s, absentCount s, totalStudents s,
                               counts_ok s)) (sessions st))
     (submit_attendance example_parse_date 5 ''BCA'' (Some 2) ''DBMS''
        (example_submit\<lparr>sb_studentsPresent := Some [''S1''], sb_presentCount := Some 5\<rparr>)
        ([] :: stats_row list cache) (attendance example_app))
     = Inr [([''S1''], 1, 1, 2, True), ([''S1''], 5, 2, 3, False)]
   \<and> map_sum id
       (\<lambda>(s, a). (studentsPresent s, presentCount s, absentCount s, totalStudents s, counts_ok s))
       (update_session 5 11
          \<lparr>u_studentsPresent = Arr [''S1''], u_totalStudents = Some 9007199254740994\<rparr>
          example_app)
     = Inr ([''S1''], 1, 9007199254740992, 9007199254740994, False)"
  by (simp add: example_submit_run example_update or_else_def pre_save_def Let_def counts_ok_def
      example_session_def set_attendance_def binary64_above_2_53)

text \<open>
  Claim C5, evaluated: the session 11 of the example exists; an update with two students
  present and \<open>totalStudents = 1\<close> is accepted, and the document is stored with
  \<open>absentCount = -1\<close>.
\<close>

theorem update_stores_negative_absentCount:
  "map_sum id (\<lambda>r. (presentCount (fst r), absentCount (fst r), totalStudents (fst r),
                     findById 11 (sessions (attendance (snd r))) = Some (fst r)))
     (update_session 5 11 \<lparr>u_studentsPresent = Arr [''S1'', ''S2''], u_totalStudents = Some 1\<rparr>
        example_app)
     = Inr (2, - 1, 1, True)"
  by (simp add: example_update set_attendance_def findById_def example_session_def)

section \<open>Sessions: delete\<close>

lemma length_remove_first:
  "findById i xs \<noteq> None \<Longrightarrow> length (remove_first i xs) + 1 = length xs"
  unfolding findById_def by (induction xs) auto

lemma findById_remove_first:
  "distinct (map sessionId xs) \<Longrightarrow> findById i (remove_first i xs) = None"
proof (induction xs)
  case Nil
  show ?case by (simp add: findById_def)
next
  case (Cons s xs)
  show ?case
  proof (cases "sessionId s = i")
    case True
    then show ?thesis using Cons.prems by (simp add: findById_None_iff)
  next
    case False
    then show ?thesis using Cons by (simp add: findById_def)
  qed
qed

text \<open>
  Claim C8, as the code has it. Delete succeeds exactly when a document of that identity
  exists: it then removes one document (and, identities being unique, no document of that
  identity is left). When no document has the identity the route answers with status 404
  and an error message, and changes nothing.
\<close>

theorem delete_route_found_or_not:
  "(findById i (sessions (attendance a)) = None \<longrightarrow> delete_route i a = Inl NotFound)
   \<and> (findById i (sessions (attendance a)) \<noteq> None \<longrightarrow>
        (\<exists>a'. delete_route i a = Inr a'
           \<and> sessions (attendance a') = remove_first i (sessions (attendance a))
           \<and> length (sessions (attendance a')) + 1 = length (sessions (attendance a))
           \<and> (distinct (map sessionId (sessions (attendance a)))
                \<longrightarrow> findById i (sessions (attendance a')) = None)))"
proof (intro conjI impI)
  assume "findById i (sessions (attendance a)) = None"
  then show "delete_route i a = Inl NotFound" by (simp add: delete_route_def)
next
  assume ex: "findById i (sessions (attendance a)) \<noteq> None"
  then obtain found where found: "findById i (sessions (attendance a)) = Some found" by auto
  define a' where "a' = a\<lparr>attendance := (attendance a)\<lparr>sessions := remove_first i (sessions (attendance a))\<rparr>,
                cache := clear_stream (s_stream found)
                           (AList.delete (''attendance:single:'' @ string_of_nat i) (cache a))\<rparr>"
  have run: "delete_route i a = Inr a'"
    using found by (simp add: delete_route_def a'_def)
  have p1: "sessions (attendance a') = remove_first i (sessions (attendance a))"
    by (simp add: a'_def)
  have p2: "length (sessions (attendance a')) + 1 = length (sessions (attendance a))"
    unfolding p1 by (rule length_remove_first [OF ex])
  have p3: "distinct (map sessionId (sessions (attendance a)))
                \<longrightarrow> findById i (sessions (attendance a')) = None"
    unfolding p1 by (simp add: findById_remove_first)
  from run p1 p2 p3 show "\<exists>a'. delete_route i a = Inr a'
           \<and> sessions (attendance a') = remove_first i (sessions (attendance a))
           \<and> length (sessions (attendance a')) + 1 = length (sessions (attendance a))
           \<and> (distinct (map sessionId (sessions (attendance a)))
                \<longrightarrow> findById i (sessions (attendance a')) = None)"
    by blast
qed

theorem delete_route_found_or_not_witness:
  "findById 7 (sessions (attendance example_app)) = None
   \<and> delete_route 7 example_app = Inl NotFound
   \<and> findById 11 (sessions (attendance example_app)) = Some example_session
   \<and> distinct (map sessionId (sessions (attendance example_app)))
   \<and> (\<exists>a'. delete_route 11 example_app = Inr a' \<and> sessions (attendance a') = []
          \<and> findById 11 (sessions (attendance a')) = None)"
proof -
  have h1: "findById 7 (sessions (attendance example_app)) = None"
    by (simp add: findById_def example_app_def example_session_def)
  have h2: "findById 11 (sessions (attendance example_app)) = Some example_session"
    by (simp add: findById_def example_app_def example_session_def)
  have h3: "distinct (map sessionId (sessions (attendance example_app)))"
    by (simp add: example_app_def)
  have rm: "remove_first 11 (sessions (attendance example_app)) = []"
    by (simp add: example_app_def example_session_def)
  have "delete_route 7 example_app = Inl NotFound"
    using delete_route_found_or_not [of 7 example_app] h1 by simp
  moreover have "\<exists>a'. delete_route 11 example_app = Inr a' \<and> sessions (attendance a') = []
          \<and> findById 11 (sessions (attendance a')) = None"
    using delete_route_found_or_not [of 11 example_app] h2 h3 unfolding rm by blast
  ultimately show ?thesis using h1 h2 h3 by (intro conjI)
qed

text \<open>
  Claim C8 as stated fails: deleting an identity that no document has is answered with
  status 404 and \<open>{ success: false, error: 'Record not found' }\<close>.
\<close>

theorem delete_absent_is_an_error:
  "delete_route 7 example_app = Inl NotFound"
  by (simp add: delete_route_def findById_def example_app_def example_session_def)

section \<open>Cache: hits, expiry and invalidation\<close>

lemma getCache_fresh:
  "map_of c key = Some (v, ts) \<Longrightarrow> now - ts \<le> CACHE_TTL \<Longrightarrow> getCache now key c = (Some v, c)"
  by (simp add: getCache_def)

lemma getCache_expired:
  "map_of c key = Some (v, ts) \<Longrightarrow> now - ts > CACHE_TTL \<Longrightarrow>
     getCache now key c = (None, AList.delete key c)"
  by (simp add: getCache_def)

lemma getCache_absent: "map_of c key = None \<Longrightarrow> getCache now key c = (None, c)"
  by (simp add: getCache_def)

lemma map_of_setCache: "map_of (setCache now key v c) key = Some (v, now)"
  by (simp add: setCache_def update_conv')

text \<open>A query that finds a fresh entry answers it and touches neither cache nor store.\<close>

lemma stats_route_hit:
  assumes "map_of (cache a) (stats_key stream_param semesterNumber) = Some (stats, ts)"
    and "now - ts \<le> CACHE_TTL"
  shows "stats_route regexp_i now stream_param semesterNumber a = (Inr stats, a)"
  using getCache_fresh [OF assms] by (simp add: stats_route_def Let_def)

text \<open>A query that finds no entry asks the store once and caches the answer with the current time.\<close>

lemma stats_route_miss:
  assumes "map_of (cache a) (stats_key stream_param semesterNumber) = None"
    and "regexp_i (anchored stream_param) = Some re"
    and "aggregate_stats re semesterNumber (sessions (attendance a)) = Inr stats"
  shows "stats_route regexp_i now stream_param semesterNumber a =
           (Inr stats,
            a\<lparr>cache := setCache now (stats_key stream_param semesterNumber) stats (cache a),
              store_queries := store_queries a + 1\<rparr>)"
  using getCache_absent [OF assms(1)] assms(2,3) by (simp add: stats_route_def Let_def)

text \<open>An entry older than the time to live is dropped by the lookup that finds it.\<close>

lemma stats_route_expired:
  assumes "map_of (cache a) (stats_key stream_param semesterNumber) = Some (old, ts)"
    and "now - ts > CACHE_TTL"
    and "regexp_i (anchored stream_param) = Some re"
    and "aggregate_stats re semesterNumber (sessions (attendance a)) = Inr stats"
  shows "stats_route regexp_i now stream_param semesterNumber a =
           (Inr stats,
            a\<lparr>cache := setCache now (stats_key stream_param semesterNumber) stats
                         (AList.delete (stats_key stream_param semesterNumber) (cache a)),
              store_queries := store_queries a + 1\<rparr>)"
  using getCache_expired [OF assms(1,2)] assms(3,4) by (simp add: stats_route_def Let_def)

lemma map_of_clearCachePattern:
  "map_of (clearCachePattern pattern c) key = (if prefix pattern key then None else map_of c key)"
  unfolding clearCachePattern_def by (induction c) auto

text \<open>
  The keys of the statistics entries start with \<open>stats:{\<close>, the patterns that a write
  clears start with \<open>attendance:\<close> or with \<open>stats:\<close> followed by the stream name: unless
  the stream name is empty or starts with \<open>{\<close>, no statistics entry is removed.
\<close>

lemma clear_stream_keeps_stats:
  assumes "written \<noteq> []" and "hd written \<noteq> CHR ''{''"
  shows "map_of (clear_stream written c) (stats_key stream_param semesterNumber)
           = map_of c (stats_key stream_param semesterNumber)"
proof -
  obtain x xs where w: "written = x # xs" "x \<noteq> CHR ''{''"
    using assms by (cases written) auto
  have "\<not> prefix (''stats:'' @ written) (stats_key stream_param semesterNumber)"
    unfolding w by (simp add: stats_key_def getCacheKey_def stats_params_def w(2))
  moreover have "\<not> prefix (''attendance:'' @ written) (stats_key stream_param semesterNumber)"
    by (simp add: stats_key_def getCacheKey_def stats_params_def)
  ultimately show ?thesis
    by (simp add: clear_stream_def map_of_clearCachePattern)
qed

lemma json_number_two: "json_number (Some 2) = ''2''"
  by (simp add: json_number_def number_to_string_def shortest_decimal_def shortest_at_def
      rounds_to_def string_of_nat.simps Let_def)

lemma example_stats_key:
  "stats_key ''BCA'' (Some 2) = ''stats:{'' @ [CHR 0x22] @ ''stream'' @ [CHR 0x22] @ '':''
     @ [CHR 0x22] @ ''BCA'' @ [CHR 0x22] @ '','' @ [CHR 0x22] @ ''semester'' @ [CHR 0x22]
     @ '':2}''"
  by (simp add: stats_key_def getCacheKey_def stats_params_def json_string_def json_char_def
      json_number_two)

lemma example_aggregate:
  "aggregate_stats (\<lambda>s. anchored (toLowerCase s) = toLowerCase (anchored ''BCA'')) (Some 2)
     [example_session\<lparr>studentsPresent := present, presentCount := p, absentCount := ab,
        totalStudents := 2, s_updatedAt := u\<rparr>]
   = Inr [\<lparr>st_subject = ''DBMS'', totalClasses = 1, totalPresent = p, totalAbsent = ab,
           avgAttendance = p / 2\<rparr>]"
  by (simp add: aggregate_stats_def example_session_def stats_group_def anchored_def
      toLowerCase_def lower_char_def)


lemma example_session_as_update:
  "example_session = example_session\<lparr>studentsPresent := [''S1''], presentCount := 1,
      absentCount := 1, totalStudents := 2, s_updatedAt := 0\<rparr>"
  by (simp add: example_session_def)

lemma example_first_query:
  "stats_route literal_regexp_i 0 ''BCA'' (Some 2) example_app =
     (Inr example_stats,
      example_app\<lparr>cache := [(stats_key ''BCA'' (Some 2), (example_stats, 0))],
        store_queries := 1\<rparr>)"
proof -
  have agg: "aggregate_stats (\<lambda>s. anchored (toLowerCase s) = toLowerCase (anchored ''BCA''))
      (Some 2) (sessions (attendance example_app)) = Inr example_stats"
    using example_aggregate [where present = "[''S1'']" and p = 1 and ab = 1 and u = 0]
    by (simp add: example_app_def example_session_as_update [symmetric] example_stats_def)
  have "map_of (cache example_app) (stats_key ''BCA'' (Some 2)) = None"
    by (simp add: example_app_def)
  from stats_route_miss [where regexp_i = literal_regexp_i, OF this example_regexp agg, of 0]
  show ?thesis by (simp add: setCache_def example_app_def)
qed

lemma example_queried_eq:
  "example_queried =
     example_app\<lparr>cache := [(stats_key ''BCA'' (Some 2), (example_stats, 0))], store_queries := 1\<rparr>"
  by (simp add: example_queried_def example_first_query)

lemma example_clear:
  "clear_stream ''BCA'' [(stats_key ''BCA'' (Some 2), e)] = [(stats_key ''BCA'' (Some 2), e)]"
  by (simp add: clear_stream_def clearCachePattern_def example_stats_key)

lemma example_second_update:
  "update_session 1000 11 \<lparr>u_studentsPresent = Arr [''S1'', ''S2''], u_totalStudents = Some 2\<rparr>
     example_queried =
   Inr (set_attendance 1000 [''S1'', ''S2''] 2 example_session,
        example_queried\<lparr>attendance :=
          \<lparr>sessions = [set_attendance 1000 [''S1'', ''S2''] 2 example_session],
           next_session = 12\<rparr>\<rparr>)"
proof -
  have f: "findById 11 (sessions (attendance example_queried)) = Some example_session"
    by (simp add: example_queried_eq example_app_def findById_def example_session_def)
  have st: "s_stream (set_attendance 1000 [''S1'', ''S2''] 2 example_session) = ''BCA''"
    by (simp add: set_attendance_def example_session_def)
  have c: "clear_stream ''BCA'' (cache example_queried) = cache example_queried"
    by (simp add: example_queried_eq example_clear)
  have r: "replace_first 11 new (sessions (attendance example_queried)) = [new]" for new
    by (simp add: example_queried_eq example_app_def example_session_def)
  have a: "attendance example_queried = \<lparr>sessions = [example_session], next_session = 12\<rparr>"
    by (simp add: example_queried_eq example_app_def)
  show ?thesis
    unfolding update_session_def by (simp add: f st c r Let_def) (simp add: a)
qed

lemma example_updated_eq:
  "example_updated =
     example_queried\<lparr>attendance :=
          \<lparr>sessions = [set_attendance 1000 [''S1'', ''S2''] 2 example_session],
           next_session = 12\<rparr>\<rparr>"
  by (simp add: example_updated_def example_second_update)

text \<open>
  Claim C9, evaluated. At time 0 the statistics of stream \<open>BCA\<close>, semester 2 are computed
  (one present, one absent) and cached. At time 1000 the only session of the stream is
  updated to two present; the update clears the patterns \<open>attendance:BCA\<close> and
  \<open>stats:BCA\<close>, which the key of the cached entry does not start with. At time 2000 the
  same statistics query is answered from the cache with the old numbers and without a
  query to the store, although the store would now answer two present and none absent.
\<close>

theorem stale_stats_after_update:
  "stats_route literal_regexp_i 0 ''BCA'' (Some 2) example_app = (Inr example_stats, example_queried)
   \<and> map_sum id snd
        (update_session 1000 11
           \<lparr>u_studentsPresent = Arr [''S1'', ''S2''], u_totalStudents = Some 2\<rparr> example_queried)
        = Inr example_updated
   \<and> stats_route literal_regexp_i 2000 ''BCA'' (Some 2) example_updated
        = (Inr example_stats, example_updated)
   \<and> store_queries example_updated = 1
   \<and> aggregate_stats (\<lambda>s. anchored (toLowerCase s) = toLowerCase (anchored ''BCA'')) (Some 2)
        (sessions (attendance example_updated))
        = Inr [\<lparr>st_subject = ''DBMS'', totalClasses = 1, totalPresent = 2, totalAbsent = 0,
                avgAttendance = 1\<rparr>]"
proof -
  have q: "stats_route literal_regexp_i 0 ''BCA'' (Some 2) example_app
             = (Inr example_stats, example_queried)"
    by (simp add: example_first_query example_queried_eq)
  have u: "map_sum id snd
        (update_session 1000 11
           \<lparr>u_studentsPresent = Arr [''S1'', ''S2''], u_totalStudents = Some 2\<rparr> example_queried)
        = Inr example_updated"
    by (simp add: example_second_update example_updated_eq)
  have entry: "map_of (cache example_updated) (stats_key ''BCA'' (Some 2)) = Some (example_stats, 0)"
    by (simp add: example_updated_eq example_queried_eq)
  have fresh: "2000 - 0 \<le> CACHE_TTL" by (simp add: CACHE_TTL_def)
  have stale: "stats_route literal_regexp_i 2000 ''BCA'' (Some 2) example_updated
        = (Inr example_stats, example_updated)"
    by (rule stats_route_hit [OF entry fresh])
  have n: "store_queries example_updated = 1"
    by (simp add: example_updated_eq example_queried_eq)
  have now: "aggregate_stats (\<lambda>s. anchored (toLowerCase s) = toLowerCase (anchored ''BCA'')) (Some 2)
        (sessions (attendance example_updated))
        = Inr [\<lparr>st_subject = ''DBMS'', totalClasses = 1, totalPresent = 2, totalAbsent = 0,
                avgAttendance = 1\<rparr>]"
    using example_aggregate [where present = "[''S1'', ''S2'']" and p = 2 and ab = 0 and u = 1000]
    by (simp add: example_updated_eq set_attendance_def)
  show ?thesis by (intro conjI q u stale n now)
qed

section \<open>Register: a date without sessions\<close>




lemma example_regexp_dbms:
  "literal_regexp_i (anchored ''DBMS'')
     = Some (\<lambda>s. anchored (toLowerCase s) = toLowerCase (anchored ''DBMS''))"
  by (simp add: literal_regexp_i_def)

lemma example_matches:
  "(anchored (toLowerCase ''BCA'') = toLowerCase (anchored ''BCA'')) = True"
  "(anchored (toLowerCase ''BBA'') = toLowerCase (anchored ''BCA'')) = False"
  "(anchored (toLowerCase ''DBMS'') = toLowerCase (anchored ''DBMS'')) = True"
  by (simp_all add: anchored_def toLowerCase_def lower_char_def)

lemma example_order: "''S1'' \<le> ''S2''" "''S2'' \<le> ''S3''" "''S1'' \<le> ''S3''"
  "\<not> ''S3'' \<le> ''S1''" "\<not> ''S3'' \<le> ''S2''" "\<not> ''S2'' \<le> ''S1''"
  by code_simp+

lemma example_active_roster:
  "active_roster (\<lambda>s. anchored (toLowerCase s) = toLowerCase (anchored ''BCA'')) (Some 2)
     example_roster =
   [\<lparr>r_oid = 1, r_name = ''S1'', r_studentID = ''S1'', r_rollNumber = ''S1''\<rparr>,
    \<lparr>r_oid = 2, r_name = ''S2'', r_studentID = ''S2'', r_rollNumber = ''S2''\<rparr>,
    \<lparr>r_oid = 3, r_name = ''S3'', r_studentID = ''S3'', r_rollNumber = ''S3''\<rparr>]"
  by (simp add: active_roster_def example_roster_def example_student_def example_matches
      example_order project_student_def)

lemma example_class_sessions:
  "class_sessions (\<lambda>s. anchored (toLowerCase s) = toLowerCase (anchored ''BCA'')) 2
     (\<lambda>s. anchored (toLowerCase s) = toLowerCase (anchored ''DBMS'')) example_sessions
   = example_sessions"
  by (simp add: class_sessions_def example_sessions_def example_matches)


section \<open>Register: percentages\<close>

text \<open>The rounding of the runtime has the property that the general statements ask for.\<close>

lemma double_rounding_binary64: "double_rounding binary64"
  unfolding double_rounding_def
proof (intro conjI allI impI)
  show "binary64 0 = 0" by (simp add: binary64_def)
next
  fix x :: rat
  assume r: "1 / 2 ^ 64 \<le> \<bar>x\<bar> \<and> \<bar>x\<bar> \<le> 2 ^ 64"
  then have nz: "x \<noteq> 0" by auto
  define e where "e = exponent x"
  have br: "2 powi e \<le> \<bar>x\<bar>" "\<bar>x\<bar> < 2 powi (e + 1)"
    using exponent_bracket [OF nz] by (simp_all add: e_def)
  have "(2::rat) powi (- 64) < 2 powi (e + 1)"
    using r br(2) by (simp add: power_int_minus_divide)
  then have "\<not> e + 1 \<le> - 64" using power_int_increasing [of "e + 1" "- 64" "2::rat"] by auto
  then have lo: "- 1022 \<le> e" by simp
  have "\<bar>binary64 x - x\<bar> \<le> 2 powi (e - 53)" by (rule binary64_error [OF br lo])
  also have "\<dots> = 2 powi e / 2 ^ 53" by (simp add: power_int_diff)
  also have "\<dots> \<le> \<bar>x\<bar> / 2 ^ 53" using br(1) by (simp add: divide_right_mono)
  finally show "\<bar>binary64 x - x\<bar> \<le> \<bar>x\<bar> / 2 ^ 53" .
qed

lemma unit_roundoff_range: "0 < unit_roundoff" "unit_roundoff < 1"
  by (simp_all add: unit_roundoff_def)

lemma fl_bounds:
  assumes "double_rounding fl" and "x = 0 \<or> 1 / 2 ^ 64 \<le> x \<and> x \<le> 2 ^ 64"
  shows "x * (1 - unit_roundoff) \<le> fl x" and "fl x \<le> x * (1 + unit_roundoff)" and "0 \<le> fl x"
proof -
  have b: "x * (1 - unit_roundoff) \<le> fl x \<and> fl x \<le> x * (1 + unit_roundoff)"
  proof (cases "x = 0")
    case True
    then show ?thesis using assms(1) by (simp add: double_rounding_def)
  next
    case False
    then have r: "1 / 2 ^ 64 \<le> x" "x \<le> 2 ^ 64" using assms(2) by auto
    have pos: "0 < x" using r(1) by (rule less_le_trans [rotated]) simp
    have "1 / 2 ^ 64 \<le> \<bar>x\<bar> \<and> \<bar>x\<bar> \<le> 2 ^ 64" using r pos by simp
    then have "\<bar>fl x - x\<bar> \<le> \<bar>x\<bar> / 2 ^ 53"
      using assms(1) unfolding double_rounding_def by blast
    moreover have "\<bar>x\<bar> / 2 ^ 53 = x * unit_roundoff"
      using pos by (simp add: unit_roundoff_def)
    ultimately have "\<bar>fl x - x\<bar> \<le> x * unit_roundoff" by simp
    then show ?thesis by (simp add: algebra_simps abs_le_iff)
  qed
  have x0: "0 \<le> x"
  proof (cases "x = 0")
    case True
    then show ?thesis by simp
  next
    case False
    then have "1 / 2 ^ 64 \<le> x" using assms(2) by auto
    then show ?thesis by (rule order_trans [rotated]) simp
  qed
  show "x * (1 - unit_roundoff) \<le> fl x" and "fl x \<le> x * (1 + unit_roundoff)"
    using b by simp_all
  have "0 \<le> x * (1 - unit_roundoff)" using x0 by (simp add: unit_roundoff_def)
  then show "0 \<le> fl x" using b by simp
qed

lemma bernoulli_lower: "0 \<le> (u::rat) \<Longrightarrow> u \<le> 1 \<Longrightarrow> 1 - of_nat k * u \<le> (1 - u) ^ k"
proof (induction k)
  case 0
  show ?case by simp
next
  case (Suc k)
  have "1 - of_nat (Suc k) * u \<le> (1 - of_nat k * u) * (1 - u)"
    using Suc.prems by (simp add: algebra_simps)
  also have "\<dots> \<le> (1 - u) ^ k * (1 - u)"
    using Suc by (simp add: mult_right_mono)
  finally show ?case by (simp only: power_Suc2)
qed

lemma bernoulli_upper:
  "0 \<le> (u::rat) \<Longrightarrow> 2 * of_nat k * u \<le> 1 \<Longrightarrow> (1 + u) ^ k \<le> 1 + 2 * of_nat k * u"
proof (induction k)
  case 0
  show ?case by simp
next
  case (Suc k)
  have k: "2 * of_nat k * u \<le> 1"
  proof -
    have "2 * of_nat k * u \<le> 2 * of_nat (Suc k) * u"
      using Suc.prems(1) by (simp add: mult_right_mono)
    then show ?thesis using Suc.prems(2) by simp
  qed
  have "2 * of_nat k * u * u \<le> 1 * u"
    using k Suc.prems(1) by (rule mult_right_mono)
  then have step: "(1 + 2 * of_nat k * u) * (1 + u) \<le> 1 + 2 * of_nat (Suc k) * u"
    by (simp add: algebra_simps)
  have "(1 + u) ^ Suc k = (1 + u) ^ k * (1 + u)" by (simp only: power_Suc2)
  also have "\<dots> \<le> (1 + 2 * of_nat k * u) * (1 + u)"
    using Suc.IH [OF Suc.prems(1) k] Suc.prems(1) by (simp add: mult_right_mono)
  also note step
  finally show ?case .
qed

lemma roundoff_powers:
  assumes "k \<le> 2 ^ 33"
  shows "1 / 2 \<le> (1 - unit_roundoff) ^ k" and "(1 + unit_roundoff) ^ k \<le> 2"
proof -
  have k: "(of_nat k :: rat) \<le> 2 ^ 33"
    using assms by (metis of_nat_le_iff of_nat_numeral of_nat_power)
  have ku: "of_nat k * unit_roundoff \<le> 1 / 2 ^ 20"
  proof -
    have "of_nat k * unit_roundoff \<le> 2 ^ 33 * unit_roundoff"
      using k by (rule mult_right_mono) (simp add: unit_roundoff_def)
    then show ?thesis by (simp add: unit_roundoff_def)
  qed
  have "1 - of_nat k * unit_roundoff \<le> (1 - unit_roundoff) ^ k"
    by (rule bernoulli_lower) (simp_all add: unit_roundoff_def)
  then show "1 / 2 \<le> (1 - unit_roundoff) ^ k" using ku by simp
  have "(1 + unit_roundoff) ^ k \<le> 1 + 2 * of_nat k * unit_roundoff"
    by (rule bernoulli_upper) (use ku in \<open>simp_all add: unit_roundoff_def\<close>)
  then show "(1 + unit_roundoff) ^ k \<le> 2" using ku by simp
qed

lemma toFixed2_bounds:
  assumes "0 \<le> y"
  shows "\<exists>n. toFixed2 y = Fixed2 n \<and> y - 1 / 200 < of_nat n / 100 \<and> of_nat n / 100 \<le> y + 1 / 200"
proof -
  let ?z = "\<lfloor>y * 100 + 1 / 2\<rfloor>"
  have nonneg: "0 \<le> ?z" using assms by simp
  have up: "of_int ?z \<le> y * 100 + 1 / 2" by (rule of_int_floor_le)
  have lo: "y * 100 + 1 / 2 < of_int ?z + 1" using floor_correct [of "y * 100 + 1 / 2"] by simp
  have n: "(of_nat (nat ?z) :: rat) = of_int ?z" using nonneg by simp
  have "toFixed2 y = Fixed2 (nat ?z)" by (simp add: toFixed2_def)
  moreover have "y - 1 / 200 < of_nat (nat ?z) / 100" unfolding n using lo by simp
  moreover have "of_nat (nat ?z) / 100 \<le> y + 1 / 200" unfolding n using up by simp
  ultimately show ?thesis by blast
qed


lemma quotient_range:
  assumes "0 < p" and "p \<le> t" and "t < 2 ^ 32"
  shows "1 / 2 ^ 32 \<le> (of_nat p / of_nat t :: rat)" and "(of_nat p / of_nat t :: rat) \<le> 1"
proof -
  have "(of_nat t :: rat) < of_nat (2 ^ 32)"
    using assms(3) by (simp only: of_nat_less_iff)
  then have t: "(0::rat) < of_nat t" "(of_nat t :: rat) \<le> 2 ^ 32"
    using assms(1,2) by simp_all
  have p: "(1::rat) \<le> of_nat p" "(of_nat p :: rat) \<le> of_nat t" using assms by simp_all
  have "(1::rat) / 2 ^ 32 \<le> 1 / of_nat t"
    using t by (simp add: frac_le)
  also have "\<dots> \<le> of_nat p / of_nat t"
    using p(1) t(1) by (simp add: divide_right_mono)
  finally show "1 / 2 ^ 32 \<le> (of_nat p / of_nat t :: rat)" .
  show "(of_nat p / of_nat t :: rat) \<le> 1" using p(2) t(1) by simp
qed

lemma percentage_double_bounds:
  assumes dr: "double_rounding fl" and t: "0 < t" "t < 2 ^ 32" and p: "p \<le> t"
  shows "100 * of_nat p / of_nat t * (1 - unit_roundoff)\<^sup>2
           \<le> fl (fl (of_nat p / of_nat t) * 100)"
    and "fl (fl (of_nat p / of_nat t) * 100)
           \<le> 100 * of_nat p / of_nat t * (1 + unit_roundoff)\<^sup>2"
    and "0 \<le> fl (fl (of_nat p / of_nat t) * 100)"
proof -
  define u where "u = unit_roundoff"
  define a :: rat where "a = of_nat p / of_nat t"
  define q where "q = fl a"
  define y where "y = fl (q * 100)"
  have u: "0 \<le> 1 - u" "0 \<le> 1 + u" "1 / 2 \<le> 1 - u" "1 + u \<le> 2"
    by (simp_all add: u_def unit_roundoff_def)
  have a0: "0 \<le> a" by (simp add: a_def)
  have ar: "a = 0 \<or> 1 / 2 ^ 64 \<le> a \<and> a \<le> 2 ^ 64"
  proof (cases "p = 0")
    case True
    then show ?thesis by (simp add: a_def)
  next
    case False
    then have "1 / 2 ^ 32 \<le> a" "a \<le> 1"
      using quotient_range [of p t] p t by (simp_all add: a_def)
    then show ?thesis by simp
  qed
  have q: "a * (1 - u) \<le> q" "q \<le> a * (1 + u)" "0 \<le> q"
    using fl_bounds [OF dr ar] by (simp_all add: q_def u_def)
  have br: "q * 100 = 0 \<or> 1 / 2 ^ 64 \<le> q * 100 \<and> q * 100 \<le> 2 ^ 64"
  proof (cases "p = 0")
    case True
    then have "a = 0" by (simp add: a_def)
    then have "q = 0" using dr by (simp add: q_def double_rounding_def)
    then show ?thesis by simp
  next
    case False
    then have a: "1 / 2 ^ 32 \<le> a" "a \<le> 1"
      using quotient_range [of p t] p t by (simp_all add: a_def)
    have "1 / 2 ^ 32 * (1 / 2) \<le> a * (1 - u)"
      using a(1) u(3) by (rule mult_mono) (use a0 in simp_all)
    then have lo: "1 / 2 ^ 33 \<le> q" using q(1) by simp
    have "a * (1 + u) \<le> 1 * 2"
      using a(2) u(4) by (rule mult_mono) (use a0 u(2) in simp_all)
    then have hi: "q \<le> 2" using q(2) by simp
    show ?thesis using lo hi by simp
  qed
  have y: "q * 100 * (1 - u) \<le> y" "y \<le> q * 100 * (1 + u)" "0 \<le> y"
    using fl_bounds [OF dr br] by (simp_all add: y_def u_def)
  have "a * (1 - u) * 100 * (1 - u) \<le> q * 100 * (1 - u)"
    using q(1) u(1) by (simp add: mult_right_mono)
  then have lo: "100 * a * (1 - u)\<^sup>2 \<le> y"
    using y(1) by (simp add: power2_eq_square algebra_simps)
  have "q * 100 * (1 + u) \<le> a * (1 + u) * 100 * (1 + u)"
    using q(2) u(2) by (simp add: mult_right_mono)
  then have hi: "y \<le> 100 * a * (1 + u)\<^sup>2"
    using y(2) by (simp add: power2_eq_square algebra_simps)
  show "100 * of_nat p / of_nat t * (1 - unit_roundoff)\<^sup>2
           \<le> fl (fl (of_nat p / of_nat t) * 100)"
    using lo unfolding y_def q_def a_def u_def by simp
  show "fl (fl (of_nat p / of_nat t) * 100)
           \<le> 100 * of_nat p / of_nat t * (1 + unit_roundoff)\<^sup>2"
    using hi unfolding y_def q_def a_def u_def by simp
  show "0 \<le> fl (fl (of_nat p / of_nat t) * 100)"
    using y(3) unfolding y_def q_def a_def by simp
qed

lemma percentage_bounds:
  assumes dr: "double_rounding fl" and t: "0 < t" "t < 2 ^ 32" and p: "p \<le> t"
  shows "\<exists>n. toFixed2 (fl (fl (of_nat p / of_nat t) * 100)) = Fixed2 n
     \<and> 100 * of_nat p / of_nat t * (1 - unit_roundoff)\<^sup>2 - 1 / 200 < of_nat n / 100
     \<and> of_nat n / 100 \<le> 100 * of_nat p / of_nat t * (1 + unit_roundoff)\<^sup>2 + 1 / 200"
proof -
  define y where "y = fl (fl (of_nat p / of_nat t) * 100)"
  note b = percentage_double_bounds [OF dr t p, folded y_def]
  from toFixed2_bounds [OF b(3)] obtain n where
    n: "toFixed2 y = Fixed2 n" "y - 1 / 200 < of_nat n / 100" "of_nat n / 100 \<le> y + 1 / 200"
    by blast
  have "100 * of_nat p / of_nat t * (1 - unit_roundoff)\<^sup>2 - 1 / 200 < of_nat n / 100"
    using b(1) n(2) by simp
  moreover have "of_nat n / 100 \<le> 100 * of_nat p / of_nat t * (1 + unit_roundoff)\<^sup>2 + 1 / 200"
    using b(2) n(3) by simp
  ultimately show ?thesis using n(1) unfolding y_def by blast
qed

text \<open>
  Two numbers that differ by less than \<open>1 / D\<close>, one of them a fraction with the
  denominator \<open>D\<close>: their integer parts agree, unless the fraction is an integer and the
  other number lies just below it.
\<close>

lemma floor_near:
  fixes X Y :: rat
  assumes D: "0 < D" and X: "X = of_nat N / of_nat D" and near: "\<bar>Y - X\<bar> < 1 / of_nat D"
  shows "\<lfloor>Y\<rfloor> = \<lfloor>X\<rfloor> \<or> (of_int \<lfloor>X\<rfloor> = X \<and> \<lfloor>Y\<rfloor> = \<lfloor>X\<rfloor> - 1)"
proof -
  define R where "R = int (N div D)"
  have Dpos: "(0::rat) < of_nat D" using D by simp
  have D1: "1 / of_nat D \<le> (1::rat)" using D by (simp add: Suc_le_eq)
  have fl: "\<lfloor>X\<rfloor> = R" unfolding X R_def by (rule floor_divide_of_nat_eq)
  have "(of_nat N :: rat) = of_nat (N div D) * of_nat D + of_nat (N mod D)"
    by (metis of_nat_add of_nat_mult div_mult_mod_eq)
  then have split: "X = of_int R + of_nat (N mod D) / of_nat D"
    unfolding X R_def using Dpos by (simp add: field_simps)
  have Y: "X - 1 / of_nat D < Y" "Y < X + 1 / of_nat D"
    using near by (simp_all add: abs_less_iff)
  show ?thesis
  proof (cases "N mod D = 0")
    case True
    then have XR: "X = of_int R" using split by simp
    have "of_int (R - 1) \<le> Y" using Y(1) D1 unfolding XR by simp
    then have lo: "R - 1 \<le> \<lfloor>Y\<rfloor>" by (simp only: le_floor_iff)
    have "Y < of_int (R + 1)" using Y(2) D1 unfolding XR by simp
    then have hi: "\<lfloor>Y\<rfloor> < R + 1" by (simp only: floor_less_iff)
    have "\<lfloor>Y\<rfloor> = R - 1 \<or> \<lfloor>Y\<rfloor> = R" using lo hi by arith
    then show ?thesis using fl XR by auto
  next
    case False
    then have m: "1 \<le> N mod D" "N mod D + 1 \<le> D" using D
      by (simp_all add: Suc_le_eq)
    have "(1::rat) \<le> of_nat (N mod D)" using m(1) by simp
    then have lo: "1 / of_nat D \<le> (of_nat (N mod D) / of_nat D :: rat)"
      using Dpos by (simp add: divide_right_mono)
    have "(of_nat (N mod D + 1) :: rat) \<le> of_nat D" using m(2) by (simp only: of_nat_le_iff)
    then have "(of_nat (N mod D) :: rat) \<le> of_nat D - 1" by simp
    then have "(of_nat (N mod D) / of_nat D :: rat) \<le> (of_nat D - 1) / of_nat D"
      using Dpos by (simp add: divide_right_mono)
    also have "\<dots> = 1 - 1 / of_nat D" using Dpos by (simp add: field_simps)
    finally have hi: "(of_nat (N mod D) / of_nat D :: rat) \<le> 1 - 1 / of_nat D" .
    have "of_int R \<le> Y" using Y(1) lo unfolding split by simp
    moreover have "Y < of_int R + 1" using Y(2) hi unfolding split by simp
    ultimately have "\<lfloor>Y\<rfloor> = R" by (rule floor_unique)
    then show ?thesis using fl by simp
  qed
qed

lemma roundoff_square: "(1 + unit_roundoff)\<^sup>2 - 1 \<le> 1 / 2 ^ 51" "1 - (1 - unit_roundoff)\<^sup>2 \<le> 1 / 2 ^ 51"
  by (simp_all add: unit_roundoff_def power2_eq_square algebra_simps)

text \<open>
  The percentage of a student: the double that reaches \<open>toFixed(2)\<close> is so close to the
  exact quotient that the two round to the same hundredth, unless the exact quotient is a
  tie, where the double may lie just below it.
\<close>

lemma percentage_exact:
  assumes dr: "double_rounding fl" and t: "0 < t" "t < 2 ^ 32" and p: "p \<le> t"
  shows "toFixed2 (fl (fl (of_nat p / of_nat t) * 100))
           = Fixed2 (rounded_hundredths (100 * of_nat p / of_nat t))
       \<or> (tie (100 * of_nat p / of_nat t)
          \<and> toFixed2 (fl (fl (of_nat p / of_nat t) * 100))
              = Fixed2 (rounded_hundredths (100 * of_nat p / of_nat t) - 1))"
proof -
  define E :: rat where "E = 100 * of_nat p / of_nat t"
  define y where "y = fl (fl (of_nat p / of_nat t) * 100)"
  define X where "X = E * 100 + 1 / 2"
  define Y where "Y = y * 100 + 1 / 2"
  note b = percentage_double_bounds [OF dr t p, folded y_def E_def]
  have tpos: "(0::rat) < of_nat t" using t(1) by simp
  have "(of_nat t :: rat) < of_nat (2 ^ 32)" using t(2) by (simp only: of_nat_less_iff)
  then have t32: "(of_nat t :: rat) < 2 ^ 32" by simp
  have "(of_nat p :: rat) \<le> of_nat t" using p by simp
  then have "(of_nat p :: rat) / of_nat t \<le> 1" using tpos by simp
  then have "100 * (of_nat p / of_nat t) \<le> (100::rat)" by simp
  then have E: "0 \<le> E" "E \<le> 100" by (simp_all add: E_def)
  have "y - E \<le> E * ((1 + unit_roundoff)\<^sup>2 - 1)" using b(2) by (simp add: algebra_simps)
  also have "\<dots> \<le> E * (1 / 2 ^ 51)" using roundoff_square(1) E(1) by (rule mult_left_mono)
  also have "\<dots> \<le> 100 * (1 / 2 ^ 51)" using E(2) by simp
  finally have up: "y - E \<le> 100 / 2 ^ 51" by simp
  have "E - y \<le> E * (1 - (1 - unit_roundoff)\<^sup>2)" using b(1) by (simp add: algebra_simps)
  also have "\<dots> \<le> E * (1 / 2 ^ 51)" using roundoff_square(2) E(1) by (rule mult_left_mono)
  also have "\<dots> \<le> 100 * (1 / 2 ^ 51)" using E(2) by simp
  finally have down: "E - y \<le> 100 / 2 ^ 51" by simp
  have "\<bar>Y - X\<bar> = 100 * \<bar>y - E\<bar>" by (simp add: Y_def X_def abs_if)
  also have "\<dots> \<le> 100 * (100 / 2 ^ 51)"
  proof -
    have "\<bar>y - E\<bar> \<le> 100 / 2 ^ 51" using up down by (simp only: abs_le_iff) simp
    then show ?thesis by (rule mult_left_mono) simp
  qed
  also have "\<dots> < 1 / 2 ^ 33" by simp
  also have "\<dots> \<le> 1 / (2 * of_nat t)"
    using t32 tpos by (simp add: frac_le)
  finally have near: "\<bar>Y - X\<bar> < 1 / of_nat (2 * t)" by simp
  have XN: "X = of_nat (20000 * p + t) / of_nat (2 * t)"
    using tpos by (simp add: X_def E_def field_simps)
  have "0 < 2 * t" using t(1) by simp
  from floor_near [OF this XN near]
  have "\<lfloor>Y\<rfloor> = \<lfloor>X\<rfloor> \<or> (of_int \<lfloor>X\<rfloor> = X \<and> \<lfloor>Y\<rfloor> = \<lfloor>X\<rfloor> - 1)" .
  then have "nat \<lfloor>Y\<rfloor> = nat \<lfloor>X\<rfloor> \<or> (of_int \<lfloor>X\<rfloor> = X \<and> nat \<lfloor>Y\<rfloor> = nat \<lfloor>X\<rfloor> - 1)"
    by (auto simp: nat_diff_distrib')
  then show ?thesis
    unfolding toFixed2_def rounded_hundredths_def tie_def
    by (simp add: X_def Y_def E_def y_def)
qed

lemma percent_value_cases: "percent_value p = 0 \<or> 1 / 100 \<le> percent_value p"
proof (cases p)
  case Zero
  then show ?thesis by (simp add: percent_value_def)
next
  case (Fixed2 n)
  show ?thesis
  proof (cases "n = 0")
    case True
    then show ?thesis by (simp add: percent_value_def Fixed2)
  next
    case False
    then have "(1::rat) \<le> of_nat n" by simp
    then show ?thesis by (simp add: percent_value_def Fixed2)
  qed
qed

lemma percent_value_nonneg: "0 \<le> percent_value p"
  by (simp add: percent_value_def split: percentage.splits)

lemma parseFloat_bounds:
  assumes dr: "double_rounding fl" and le: "percent_value p \<le> 101"
  shows "percent_value p * (1 - unit_roundoff) \<le> parseFloat fl p"
    and "parseFloat fl p \<le> percent_value p * (1 + unit_roundoff)"
proof -
  have r: "percent_value p = 0 \<or> 1 / 2 ^ 64 \<le> percent_value p \<and> percent_value p \<le> 2 ^ 64"
    using percent_value_cases [of p] le by auto
  have "parseFloat fl p = fl (percent_value p)"
    using dr by (simp add: parseFloat_def percent_value_def double_rounding_def
        split: percentage.splits)
  then show "percent_value p * (1 - unit_roundoff) \<le> parseFloat fl p"
    and "parseFloat fl p \<le> percent_value p * (1 + unit_roundoff)"
    using fl_bounds [OF dr r] by simp_all
qed

lemma sum_percent_values:
  "0 \<le> sum_list (map (\<lambda>r. percent_value (attendancePercentage r)) rows)"
  "sum_list (map (\<lambda>r. percent_value (attendancePercentage r)) rows) = 0
     \<or> 1 / 100 \<le> sum_list (map (\<lambda>r. percent_value (attendancePercentage r)) rows)"
proof -
  show nn: "0 \<le> sum_list (map (\<lambda>r. percent_value (attendancePercentage r)) rows)" for rows
    by (rule sum_list_nonneg) (auto simp: percent_value_nonneg)
  show "sum_list (map (\<lambda>r. percent_value (attendancePercentage r)) rows) = 0
     \<or> 1 / 100 \<le> sum_list (map (\<lambda>r. percent_value (attendancePercentage r)) rows)"
  proof (induction rows)
    case Nil
    show ?case by simp
  next
    case (Cons r rows)
    show ?case
      using percent_value_cases [of "attendancePercentage r"] Cons nn [of rows]
        percent_value_nonneg [of "attendancePercentage r"]
      by auto
  qed
qed

lemma sum_percent_values_le:
  "\<forall>r\<in>set rows. percent_value (attendancePercentage r) \<le> 101 \<Longrightarrow>
     sum_list (map (\<lambda>r. percent_value (attendancePercentage r)) rows) \<le> 101 * of_nat (length rows)"
  by (induction rows) (auto simp: algebra_simps)

lemma foldl_sum_bounds:
  assumes dr: "double_rounding fl"
  shows "0 \<le> E \<Longrightarrow> E = 0 \<or> 1 / 100 \<le> E \<Longrightarrow> 1 \<le> k \<Longrightarrow> k + length rows \<le> 2 ^ 33
      \<Longrightarrow> \<forall>r\<in>set rows. percent_value (attendancePercentage r) \<le> 101
      \<Longrightarrow> E + sum_list (map (\<lambda>r. percent_value (attendancePercentage r)) rows) \<le> 2 ^ 62
      \<Longrightarrow> E * (1 - unit_roundoff) ^ k \<le> acc
      \<Longrightarrow> acc \<le> E * (1 + unit_roundoff) ^ k \<Longrightarrow>
      (E + sum_list (map (\<lambda>r. percent_value (attendancePercentage r)) rows))
          * (1 - unit_roundoff) ^ (k + length rows)
        \<le> foldl (\<lambda>sum r. fl (sum + parseFloat fl (attendancePercentage r))) acc rows
      \<and> foldl (\<lambda>sum r. fl (sum + parseFloat fl (attendancePercentage r))) acc rows
        \<le> (E + sum_list (map (\<lambda>r. percent_value (attendancePercentage r)) rows))
          * (1 + unit_roundoff) ^ (k + length rows)"
proof (induction rows arbitrary: E k acc)
  case Nil
  then show ?case by simp
next
  case (Cons r rows)
  define u where "u = unit_roundoff"
  define v where "v = percent_value (attendancePercentage r)"
  define x where "x = parseFloat fl (attendancePercentage r)"
  define rest where "rest = sum_list (map (\<lambda>r. percent_value (attendancePercentage r)) rows)"
  have u: "0 \<le> 1 - u" "1 - u \<le> 1" "1 \<le> 1 + u" "0 \<le> 1 + u" "1 / 2 \<le> 1 - u" "1 + u \<le> 2"
    by (simp_all add: u_def unit_roundoff_def)
  have E0: "0 \<le> E" and Ec: "E = 0 \<or> 1 / 100 \<le> E" and k1: "1 \<le> k"
    using Cons.prems(1,2,3) by simp_all
  have kk: "k \<le> 2 ^ 33" "k + 1 + length rows \<le> 2 ^ 33" using Cons.prems(4) by simp_all
  have v0: "0 \<le> v" by (simp add: v_def percent_value_nonneg)
  have vc: "v = 0 \<or> 1 / 100 \<le> v" unfolding v_def by (rule percent_value_cases)
  have v101: "v \<le> 101" using Cons.prems(5) by (simp add: v_def)
  have all: "\<forall>r\<in>set rows. percent_value (attendancePercentage r) \<le> 101"
    using Cons.prems(5) by simp
  have rest0: "0 \<le> rest" unfolding rest_def by (rule sum_percent_values(1))
  have tot: "E + v + rest \<le> 2 ^ 62" using Cons.prems(6) by (simp add: v_def rest_def add.assoc)
  have Ev: "E + v \<le> 2 ^ 62" using tot rest0 by simp
  have x: "v * (1 - u) \<le> x" "x \<le> v * (1 + u)"
    using parseFloat_bounds [OF dr, of "attendancePercentage r"] v101
    by (simp_all add: x_def v_def u_def)
  have acc: "E * (1 - u) ^ k \<le> acc" "acc \<le> E * (1 + u) ^ k"
    using Cons.prems(7,8) by (simp_all add: u_def)
  have pw: "1 / 2 \<le> (1 - u) ^ k" "(1 + u) ^ k \<le> 2"
    using roundoff_powers [OF kk(1)] by (simp_all add: u_def)
  have acc0: "0 \<le> acc"
  proof -
    have "0 \<le> E * (1 - u) ^ k" using E0 u(1) by simp
    then show ?thesis using acc(1) by simp
  qed
  have x0: "0 \<le> x"
  proof -
    have "0 \<le> v * (1 - u)" using v0 u(1) by simp
    then show ?thesis using x(1) by simp
  qed
  have sr: "acc + x = 0 \<or> 1 / 2 ^ 64 \<le> acc + x \<and> acc + x \<le> 2 ^ 64"
  proof (cases "E + v = 0")
    case True
    then have "E = 0" "v = 0" using E0 v0 by simp_all
    then have "acc = 0" "x = 0" using acc acc0 x x0 by simp_all
    then show ?thesis by simp
  next
    case False
    then have big: "1 / 100 \<le> E + v" using Ec vc E0 v0 by auto
    have "E * (1 / 2) \<le> E * (1 - u) ^ k" using pw(1) E0 by (rule mult_left_mono)
    moreover have "v * (1 / 2) \<le> v * (1 - u)" using u(5) v0 by (rule mult_left_mono)
    ultimately have "(E + v) * (1 / 2) \<le> acc + x" using acc(1) x(1) by (simp add: algebra_simps)
    then have lo: "1 / 200 \<le> acc + x" using big by simp
    have "E * (1 + u) ^ k \<le> E * 2" using pw(2) E0 by (rule mult_left_mono)
    moreover have "v * (1 + u) \<le> v * 2" using u(6) v0 by (rule mult_left_mono)
    ultimately have "acc + x \<le> (E + v) * 2" using acc(2) x(2) by (simp add: algebra_simps)
    then have hi: "acc + x \<le> 2 ^ 63" using Ev by simp
    show ?thesis using lo hi by simp
  qed
  have fls: "(acc + x) * (1 - u) \<le> fl (acc + x)" "fl (acc + x) \<le> (acc + x) * (1 + u)"
    using fl_bounds [OF dr sr] by (simp_all add: u_def)
  have pk: "(1 - u) ^ k \<le> 1 - u"
    using power_decreasing [of 1 k "1 - u"] k1 u by simp
  have qk: "1 + u \<le> (1 + u) ^ k"
    using power_increasing [of 1 k "1 + u"] k1 u by simp
  have "v * (1 - u) ^ k \<le> v * (1 - u)" using pk v0 by (rule mult_left_mono)
  then have "E * (1 - u) ^ k + v * (1 - u) ^ k \<le> acc + x" using acc(1) x(1) by simp
  then have "(E * (1 - u) ^ k + v * (1 - u) ^ k) * (1 - u) \<le> (acc + x) * (1 - u)"
    using u(1) by (rule mult_right_mono)
  then have lo: "(E + v) * (1 - u) ^ (k + 1) \<le> fl (acc + x)"
    using fls(1) by (simp add: algebra_simps)
  have "v * (1 + u) \<le> v * (1 + u) ^ k" using qk v0 by (rule mult_left_mono)
  then have "acc + x \<le> E * (1 + u) ^ k + v * (1 + u) ^ k" using acc(2) x(2) by simp
  then have "(acc + x) * (1 + u) \<le> (E * (1 + u) ^ k + v * (1 + u) ^ k) * (1 + u)"
    using u(4) by (rule mult_right_mono)
  then have hi: "fl (acc + x) \<le> (E + v) * (1 + u) ^ (k + 1)"
    using fls(2) by (simp add: algebra_simps)
  have E': "0 \<le> E + v" using E0 v0 by simp
  have Ec': "E + v = 0 \<or> 1 / 100 \<le> E + v" using Ec vc E0 v0 by auto
  have k': "1 \<le> k + 1" by simp
  have tot': "E + v + sum_list (map (\<lambda>r. percent_value (attendancePercentage r)) rows) \<le> 2 ^ 62"
    using tot by (simp add: rest_def)
  from Cons.IH [OF E' Ec' k' kk(2) all tot' lo [unfolded u_def] hi [unfolded u_def]]
  show ?case by (simp add: v_def x_def add.assoc)
qed

text \<open>
  The double that reaches \<open>toFixed(2)\<close> for the average: the sum is rounded once for each
  student, the quotient once more, and the percentages themselves are read as doubles.
\<close>

lemma average_double_bounds:
  assumes dr: "double_rounding fl" and ne: "rows \<noteq> []" and len: "length rows < 2 ^ 32"
    and all: "\<forall>r\<in>set rows. percent_value (attendancePercentage r) \<le> 101"
  shows "mean_percentage rows * (1 - unit_roundoff) ^ (length rows + 2)
      \<le> fl (foldl (\<lambda>sum r. fl (sum + parseFloat fl (attendancePercentage r))) 0 rows
              / of_nat (length rows))"
    and "fl (foldl (\<lambda>sum r. fl (sum + parseFloat fl (attendancePercentage r))) 0 rows
              / of_nat (length rows))
      \<le> mean_percentage rows * (1 + unit_roundoff) ^ (length rows + 2)"
    and "0 \<le> fl (foldl (\<lambda>sum r. fl (sum + parseFloat fl (attendancePercentage r))) 0 rows
              / of_nat (length rows))"
proof -
  define u where "u = unit_roundoff"
  define S where "S = sum_list (map (\<lambda>r. percent_value (attendancePercentage r)) rows)"
  define s where "s = foldl (\<lambda>sum r. fl (sum + parseFloat fl (attendancePercentage r))) 0 rows"
  define M :: rat where "M = of_nat (length rows)"
  define y where "y = fl (s / M)"
  have "(of_nat (length rows) :: rat) < of_nat (2 ^ 32)"
    using len by (simp only: of_nat_less_iff)
  then have M: "1 \<le> M" "M \<le> 2 ^ 32" "0 < M"
    using ne by (simp_all add: M_def Suc_le_eq)
  have u: "0 \<le> 1 - u" "0 \<le> 1 + u"
    by (simp_all add: u_def unit_roundoff_def)
  have S0: "0 \<le> S" and Sc: "S = 0 \<or> 1 / 100 \<le> S"
    unfolding S_def by (rule sum_percent_values)+
  have "S \<le> 101 * M"
    unfolding S_def M_def by (rule sum_percent_values_le [OF all])
  also have "\<dots> \<le> 101 * 2 ^ 32" using M(2) by simp
  finally have S62: "S \<le> 101 * 2 ^ 32" .
  have n33: "1 + length rows \<le> 2 ^ 33" using len by simp
  have "(0 + S) * (1 - u) ^ (1 + length rows) \<le> s \<and> s \<le> (0 + S) * (1 + u) ^ (1 + length rows)"
    unfolding S_def s_def u_def
    by (rule foldl_sum_bounds [OF dr _ _ _ n33 all]) (use S62 in \<open>simp_all add: S_def\<close>)
  then have s: "S * (1 - u) ^ (length rows + 1) \<le> s" "s \<le> S * (1 + u) ^ (length rows + 1)"
    by simp_all
  have pw: "1 / 2 \<le> (1 - u) ^ (length rows + 1)" "(1 + u) ^ (length rows + 1) \<le> 2"
    using roundoff_powers [of "length rows + 1"] n33 by (simp_all add: u_def)
  have s0: "0 \<le> s"
  proof -
    have "0 \<le> S * (1 - u) ^ (length rows + 1)" using S0 u(1) by simp
    then show ?thesis using s(1) by simp
  qed
  have dr': "s / M = 0 \<or> 1 / 2 ^ 64 \<le> s / M \<and> s / M \<le> 2 ^ 64"
  proof (cases "S = 0")
    case True
    then have "s = 0" using s s0 by simp
    then show ?thesis by simp
  next
    case False
    then have S100: "1 / 100 \<le> S" using Sc by simp
    have "1 / 200 \<le> S * (1 / 2)" using S100 by simp
    also have "\<dots> \<le> S * (1 - u) ^ (length rows + 1)" using pw(1) S0 by (rule mult_left_mono)
    also note s(1)
    finally have slo: "1 / 200 \<le> s" .
    note s(2)
    also have "S * (1 + u) ^ (length rows + 1) \<le> S * 2" using pw(2) S0 by (rule mult_left_mono)
    also have "\<dots> \<le> 202 * 2 ^ 32" using S62 by simp
    finally have shi: "s \<le> 202 * 2 ^ 32" .
    have "1 / 200 / 2 ^ 32 \<le> 1 / 200 / M"
      using M by (simp add: frac_le)
    also have "\<dots> \<le> s / M" using slo M(3) by (intro divide_right_mono) simp_all
    finally have "1 / 200 / 2 ^ 32 \<le> s / M" .
    moreover have "(1::rat) / 2 ^ 64 \<le> 1 / 200 / 2 ^ 32" by simp
    ultimately have lo: "1 / 2 ^ 64 \<le> s / M" by (rule order_trans [rotated])
    have "s / M \<le> s / 1" using M(1) s0 by (intro divide_left_mono) simp_all
    then have hi: "s / M \<le> 2 ^ 64" using shi by simp
    show ?thesis using lo hi by simp
  qed
  have y: "s / M * (1 - u) \<le> y" "y \<le> s / M * (1 + u)" "0 \<le> y"
    using fl_bounds [OF dr dr'] by (simp_all add: y_def u_def)
  have "S * (1 - u) ^ (length rows + 1) / M \<le> s / M"
    using s(1) M(3) by (simp add: divide_right_mono)
  then have "S * (1 - u) ^ (length rows + 1) / M * (1 - u) \<le> s / M * (1 - u)"
    using u(1) by (rule mult_right_mono)
  moreover have "S * (1 - u) ^ (length rows + 1) / M * (1 - u)
      = S / M * (1 - u) ^ (length rows + 2)"
    by (simp add: power_add power2_eq_square)
  ultimately have "S / M * (1 - u) ^ (length rows + 2) \<le> s / M * (1 - u)"
    by (simp only:)
  then have lo: "S / M * (1 - u) ^ (length rows + 2) \<le> y"
    using y(1) by (rule order_trans)
  have "s / M \<le> S * (1 + u) ^ (length rows + 1) / M"
    using s(2) M(3) by (simp add: divide_right_mono)
  then have "s / M * (1 + u) \<le> S * (1 + u) ^ (length rows + 1) / M * (1 + u)"
    using u(2) by (rule mult_right_mono)
  moreover have "S * (1 + u) ^ (length rows + 1) / M * (1 + u)
      = S / M * (1 + u) ^ (length rows + 2)"
    by (simp add: power_add power2_eq_square)
  ultimately have "s / M * (1 + u) \<le> S / M * (1 + u) ^ (length rows + 2)"
    by (simp only:)
  with y(2) have hi: "y \<le> S / M * (1 + u) ^ (length rows + 2)"
    by (rule order_trans)
  show "mean_percentage rows * (1 - unit_roundoff) ^ (length rows + 2)
      \<le> fl (foldl (\<lambda>sum r. fl (sum + parseFloat fl (attendancePercentage r))) 0 rows
              / of_nat (length rows))"
    using lo unfolding mean_percentage_def y_def s_def S_def M_def u_def .
  show "fl (foldl (\<lambda>sum r. fl (sum + parseFloat fl (attendancePercentage r))) 0 rows
              / of_nat (length rows))
      \<le> mean_percentage rows * (1 + unit_roundoff) ^ (length rows + 2)"
    using hi unfolding mean_percentage_def y_def s_def S_def M_def u_def .
  show "0 \<le> fl (foldl (\<lambda>sum r. fl (sum + parseFloat fl (attendancePercentage r))) 0 rows
              / of_nat (length rows))"
    using y(3) unfolding y_def s_def M_def .
qed

lemma average_bounds:
  assumes dr: "double_rounding fl" and ne: "rows \<noteq> []" and len: "length rows < 2 ^ 32"
    and all: "\<forall>r\<in>set rows. percent_value (attendancePercentage r) \<le> 101"
  shows "\<exists>m. average_of fl rows = Fixed2 m
     \<and> mean_percentage rows * (1 - unit_roundoff) ^ (length rows + 2) - 1 / 200 < of_nat m / 100
     \<and> of_nat m / 100 \<le> mean_percentage rows * (1 + unit_roundoff) ^ (length rows + 2) + 1 / 200"
proof -
  define y where "y = fl (foldl (\<lambda>sum r. fl (sum + parseFloat fl (attendancePercentage r))) 0 rows
              / of_nat (length rows))"
  note b = average_double_bounds [OF dr ne len all, folded y_def]
  from toFixed2_bounds [OF b(3)] obtain m where
    m: "toFixed2 y = Fixed2 m" "y - 1 / 200 < of_nat m / 100" "of_nat m / 100 \<le> y + 1 / 200"
    by blast
  have avg: "average_of fl rows = Fixed2 m"
    using ne m(1) by (simp add: average_of_def y_def)
  have "mean_percentage rows * (1 - unit_roundoff) ^ (length rows + 2) - 1 / 200 < of_nat m / 100"
    using b(1) m(2) by simp
  moreover have "of_nat m / 100
      \<le> mean_percentage rows * (1 + unit_roundoff) ^ (length rows + 2) + 1 / 200"
    using b(2) m(3) by simp
  ultimately show ?thesis using avg by blast
qed

lemma sum_hundredths:
  "\<exists>K::nat. sum_list (map (\<lambda>r. percent_value (attendancePercentage r)) rows) = of_nat K / 100"
proof (induction rows)
  case Nil
  show ?case by simp
next
  case (Cons r rows)
  then obtain K :: nat where
    K: "sum_list (map (\<lambda>r. percent_value (attendancePercentage r)) rows) = of_nat K / 100"
    by blast
  obtain k :: nat where k: "percent_value (attendancePercentage r) = of_nat k / 100"
    by (cases "attendancePercentage r") (auto simp: percent_value_def)
  have "sum_list (map (\<lambda>r. percent_value (attendancePercentage r)) (r # rows))
      = of_nat (k + K) / 100"
    by (simp add: K k add_divide_distrib)
  then show ?case by blast
qed

text \<open>
  The average of a roster of fewer than \<open>2\<^sup>1\<^sup>8\<close> students: the double that reaches
  \<open>toFixed(2)\<close> and the exact mean of the printed percentages round to the same hundredth,
  unless the exact mean is a tie, where the double may lie just below it.
\<close>

lemma average_exact:
  assumes dr: "double_rounding fl" and ne: "rows \<noteq> []" and len: "length rows < 2 ^ 18"
    and all: "\<forall>r\<in>set rows. percent_value (attendancePercentage r) \<le> 101"
  shows "average_of fl rows = Fixed2 (rounded_hundredths (mean_percentage rows))
       \<or> (tie (mean_percentage rows)
          \<and> average_of fl rows = Fixed2 (rounded_hundredths (mean_percentage rows) - 1))"
proof -
  define u where "u = unit_roundoff"
  define M where "M = length rows"
  define E where "E = mean_percentage rows"
  define y where "y = fl (foldl (\<lambda>sum r. fl (sum + parseFloat fl (attendancePercentage r))) 0 rows
              / of_nat (length rows))"
  define X where "X = E * 100 + 1 / 2"
  define Y where "Y = y * 100 + 1 / 2"
  have M: "0 < M" "M < 2 ^ 18" using ne len by (simp_all add: M_def)
  have len32: "length rows < 2 ^ 32" using len by simp
  note b = average_double_bounds [OF dr ne len32 all, folded y_def E_def M_def u_def]
  have Mpos: "(0::rat) < of_nat M" using M(1) by simp
  have "M * (M + 2) \<le> 262143 * 262145"
    using M(2) by (intro mult_mono) simp_all
  then have "M * (M + 2) < 2 ^ 36" by simp
  then have "(of_nat (M * (M + 2)) :: rat) < of_nat (2 ^ 36)" by (simp only: of_nat_less_iff)
  then have MM: "(of_nat M :: rat) * (of_nat M + 2) < 2 ^ 36" by (simp add: algebra_simps)
  have k: "(of_nat (M + 2) :: rat) = of_nat M + 2" by simp
  have "(of_nat M :: rat) < of_nat (2 ^ 18)" using M(2) by (simp only: of_nat_less_iff)
  then have M2: "(of_nat M :: rat) + 2 < 2 ^ 36" by simp
  have ku: "2 * of_nat (M + 2) * u \<le> 1" unfolding k u_def unit_roundoff_def using M2 by simp
  have u0: "0 \<le> u" "u \<le> 1" by (simp_all add: u_def unit_roundoff_def)
  have up: "(1 + u) ^ (M + 2) - 1 \<le> 2 * (of_nat M + 2) * u"
    using bernoulli_upper [OF u0(1) ku] unfolding k by simp
  have "1 - of_nat (M + 2) * u \<le> (1 - u) ^ (M + 2)" by (rule bernoulli_lower [OF u0])
  then have "1 - (1 - u) ^ (M + 2) \<le> (of_nat M + 2) * u" unfolding k by simp
  also have "\<dots> \<le> 2 * (of_nat M + 2) * u"
    using u0(1) by (intro mult_right_mono) simp_all
  finally have down: "1 - (1 - u) ^ (M + 2) \<le> 2 * (of_nat M + 2) * u" .
  have S101: "sum_list (map (\<lambda>r. percent_value (attendancePercentage r)) rows) \<le> 101 * of_nat M"
    unfolding M_def by (rule sum_percent_values_le [OF all])
  have E: "0 \<le> E" "E \<le> 101"
    using sum_percent_values(1) [of rows] S101 Mpos
    by (simp_all add: E_def mean_percentage_def M_def [symmetric] pos_divide_le_eq)
  define d where "d = 2 * (of_nat M + 2) * u"
  have d0: "0 \<le> d" using u0(1) by (simp add: d_def)
  have "y - E \<le> E * ((1 + u) ^ (M + 2) - 1)" using b(2) by (simp add: algebra_simps)
  also have "\<dots> \<le> E * d" unfolding d_def using up E(1) by (rule mult_left_mono)
  also have "\<dots> \<le> 101 * d" using E(2) d0 by (rule mult_right_mono)
  finally have yup: "y - E \<le> 101 * d" .
  have "E - y \<le> E * (1 - (1 - u) ^ (M + 2))" using b(1) by (simp add: algebra_simps)
  also have "\<dots> \<le> E * d" unfolding d_def using down E(1) by (rule mult_left_mono)
  also have "\<dots> \<le> 101 * d" using E(2) d0 by (rule mult_right_mono)
  finally have ydown: "E - y \<le> 101 * d" .
  have abs: "\<bar>y - E\<bar> \<le> 101 * d" using yup ydown by (simp only: abs_le_iff) simp
  have "\<bar>Y - X\<bar> = 100 * \<bar>y - E\<bar>" by (simp add: Y_def X_def abs_if)
  also have "\<dots> \<le> 100 * (101 * d)" using abs by (rule mult_left_mono) simp
  also have "\<dots> = 20200 * (of_nat M + 2) / 2 ^ 53"
    by (simp add: d_def u_def unit_roundoff_def)
  also have "\<dots> < 1 / (2 * of_nat M)"
  proof -
    have "40400 * (of_nat M * (of_nat M + 2)) < 40400 * (2 ^ 36 :: rat)"
      using MM by simp
    also have "\<dots> \<le> 2 ^ 53" by simp
    finally have "20200 * (of_nat M + 2) * (2 * of_nat M) < (2 ^ 53 :: rat)"
      by (simp add: algebra_simps)
    then show ?thesis using Mpos by (simp add: field_simps)
  qed
  finally have near: "\<bar>Y - X\<bar> < 1 / of_nat (2 * M)" by simp
  from sum_hundredths [of rows] obtain K :: nat where
    K: "sum_list (map (\<lambda>r. percent_value (attendancePercentage r)) rows) = of_nat K / 100"
    by blast
  have XN: "X = of_nat (2 * K + M) / of_nat (2 * M)"
    using Mpos by (simp add: X_def E_def mean_percentage_def K M_def [symmetric] field_simps)
  have "0 < 2 * M" using M(1) by simp
  from floor_near [OF this XN near]
  have "\<lfloor>Y\<rfloor> = \<lfloor>X\<rfloor> \<or> (of_int \<lfloor>X\<rfloor> = X \<and> \<lfloor>Y\<rfloor> = \<lfloor>X\<rfloor> - 1)" .
  then have "nat \<lfloor>Y\<rfloor> = nat \<lfloor>X\<rfloor> \<or> (of_int \<lfloor>X\<rfloor> = X \<and> nat \<lfloor>Y\<rfloor> = nat \<lfloor>X\<rfloor> - 1)"
    by (auto simp: nat_diff_distrib')
  then show ?thesis
    using ne unfolding average_of_def toFixed2_def rounded_hundredths_def tie_def
    by (simp add: X_def Y_def E_def y_def)
qed

lemma register_row_counts:
  "rr_presentCount (register_row_of fl sess st) = times_present sess (r_studentID st)"
  "rr_presentCount (register_row_of fl sess st) + rr_absentCount (register_row_of fl sess st)
     = length sess"
  "rr_totalSessions (register_row_of fl sess st) = length sess"
  "rr_studentID (register_row_of fl sess st) = r_studentID st"
proof -
  have p: "length (filter (\<lambda>a. c_status a = P)
            (map (\<lambda>s. \<lparr>c_date = date s, c_time = time s,
                        c_status = status_of (studentsPresent s) (r_studentID st),
                        c_sessionId = sessionId s\<rparr>) sess))
        = times_present sess (r_studentID st)"
    by (induction sess) (simp_all add: times_present_def status_of_def)
  have a: "length (filter (\<lambda>a. c_status a = A)
            (map (\<lambda>s. \<lparr>c_date = date s, c_time = time s,
                        c_status = status_of (studentsPresent s) (r_studentID st),
                        c_sessionId = sessionId s\<rparr>) sess))
        + times_present sess (r_studentID st) = length sess"
    by (induction sess) (simp_all add: times_present_def status_of_def)
  show "rr_presentCount (register_row_of fl sess st) = times_present sess (r_studentID st)"
    using p by (simp add: register_row_of_def Let_def)
  show "rr_presentCount (register_row_of fl sess st) + rr_absentCount (register_row_of fl sess st)
     = length sess"
    using p a by (simp add: register_row_of_def Let_def)
  show "rr_totalSessions (register_row_of fl sess st) = length sess"
    by (simp add: register_row_of_def Let_def)
  show "rr_studentID (register_row_of fl sess st) = r_studentID st"
    by (simp add: register_row_of_def Let_def)
qed

lemma register_row_percentage:
  "attendancePercentage (register_row_of fl sess st) =
     (if sess = [] then Zero
      else toFixed2 (fl (fl (of_nat (times_present sess (r_studentID st)) / of_nat (length sess))
                         * 100)))"
  using register_row_counts(1) [of fl sess st]
  by (simp add: register_row_of_def Let_def)

lemma roundoff_small:
  "1 - 1 / 10 ^ 6 \<le> (1 - unit_roundoff)\<^sup>2" "(1 + unit_roundoff)\<^sup>2 \<le> 1 + 1 / 10 ^ 6"
  "1 - 1 / 10 ^ 6 \<le> (1 - unit_roundoff) ^ 5" "(1 + unit_roundoff) ^ 5 \<le> 1 + 1 / 10 ^ 6"
  by (simp_all add: unit_roundoff_def power_divide)

lemma times_present_le: "times_present sess sid \<le> length sess"
  by (simp add: times_present_def)

text \<open>A percentage of the register is at most 100, up to the rounding.\<close>

lemma register_row_percentage_le:
  assumes dr: "double_rounding fl" and len: "length sess < 2 ^ 32"
  shows "percent_value (attendancePercentage (register_row_of fl sess st)) \<le> 101"
proof (cases "sess = []")
  case True
  then show ?thesis by (simp add: register_row_percentage percent_value_def)
next
  case False
  then have t: "0 < length sess" by simp
  define p where "p = times_present sess (r_studentID st)"
  have p: "p \<le> length sess" unfolding p_def by (rule times_present_le)
  from percentage_bounds [OF dr t len p] obtain n where
    n: "toFixed2 (fl (fl (of_nat p / of_nat (length sess)) * 100)) = Fixed2 n"
    and hi: "of_nat n / 100
       \<le> 100 * of_nat p / of_nat (length sess) * (1 + unit_roundoff)\<^sup>2 + 1 / 200"
    by blast
  have "(of_nat p :: rat) / of_nat (length sess) \<le> 1" using p t by simp
  then have "100 * (of_nat p / of_nat (length sess)) * (1 + unit_roundoff)\<^sup>2
      \<le> 100 * 1 * (1 + 1 / 10 ^ 6)"
    by (intro mult_mono roundoff_small(2)) simp_all
  then have "of_nat n / 100 \<le> (101::rat)" using hi by simp
  then show ?thesis
    using False n by (simp add: register_row_percentage percent_value_def p_def)
qed

lemma nat_between:
  assumes "(of_nat k :: rat) - 1 < of_nat n" and "(of_nat n :: rat) < of_nat k + 1"
  shows "n = k"
proof -
  have "(of_nat k :: rat) < of_nat (n + 1)" using assms(1) by simp
  then have "k < n + 1" by (simp only: of_nat_less_iff)
  moreover have "(of_nat n :: rat) < of_nat (k + 1)" using assms(2) by simp
  then have "n < k + 1" by (simp only: of_nat_less_iff)
  ultimately show ?thesis by simp
qed

lemma example_percentages:
  assumes dr: "double_rounding fl"
  shows "toFixed2 (fl (fl (of_nat 2 / of_nat 2) * 100)) = Fixed2 10000"
    and "toFixed2 (fl (fl (of_nat 1 / of_nat 2) * 100)) = Fixed2 5000"
proof -
  have "(2::nat) < 2 ^ 32" by simp
  from percentage_bounds [OF dr _ this, of 2] obtain n where
    n: "toFixed2 (fl (fl (of_nat 2 / of_nat 2) * 100)) = Fixed2 n"
    and lo: "100 * (1 - unit_roundoff)\<^sup>2 - 1 / 200 < of_nat n / 100"
    and hi: "of_nat n / 100 \<le> 100 * (1 + unit_roundoff)\<^sup>2 + 1 / 200"
    by auto
  have "(of_nat 10000 :: rat) - 1 < of_nat n" using lo roundoff_small(1) by simp
  moreover have "(of_nat n :: rat) < of_nat 10000 + 1" using hi roundoff_small(2) by simp
  ultimately have "n = 10000" by (rule nat_between)
  then show "toFixed2 (fl (fl (of_nat 2 / of_nat 2) * 100)) = Fixed2 10000" using n by simp
next
  have "(2::nat) < 2 ^ 32" by simp
  from percentage_bounds [OF dr _ this, of 1] obtain n where
    n: "toFixed2 (fl (fl (of_nat 1 / of_nat 2) * 100)) = Fixed2 n"
    and lo: "50 * (1 - unit_roundoff)\<^sup>2 - 1 / 200 < of_nat n / 100"
    and hi: "of_nat n / 100 \<le> 50 * (1 + unit_roundoff)\<^sup>2 + 1 / 200"
    by auto
  have "(of_nat 5000 :: rat) - 1 < of_nat n" using lo roundoff_small(1) by simp
  moreover have "(of_nat n :: rat) < of_nat 5000 + 1" using hi roundoff_small(2) by simp
  ultimately have "n = 5000" by (rule nat_between)
  then show "toFixed2 (fl (fl (of_nat 1 / of_nat 2) * 100)) = Fixed2 5000" using n by simp
qed

lemma example_average:
  assumes dr: "double_rounding fl"
    and rows: "map attendancePercentage rows = [Fixed2 10000, Fixed2 5000, Fixed2 5000]"
  shows "average_of fl rows = Fixed2 6667"
proof -
  have len: "length rows = 3" using rows by (metis length_map length_Cons list.size(3) numeral_3_eq_3)
  then have ne: "rows \<noteq> []" by auto
  have "map (\<lambda>r. percent_value (attendancePercentage r)) rows
          = map percent_value (map attendancePercentage rows)"
    by (simp add: comp_def)
  then have S: "sum_list (map (\<lambda>r. percent_value (attendancePercentage r)) rows) = 200"
    unfolding rows by (simp add: percent_value_def)
  have small: "length rows < 2 ^ 32" unfolding len by simp
  have "set (map attendancePercentage rows) = {Fixed2 10000, Fixed2 5000}"
    unfolding rows by auto
  then have "\<forall>r\<in>set rows. attendancePercentage r = Fixed2 10000 \<or> attendancePercentage r = Fixed2 5000"
    by auto
  then have all: "\<forall>r\<in>set rows. percent_value (attendancePercentage r) \<le> 101"
    by (auto simp: percent_value_def)
  from average_bounds [OF dr ne small all] obtain m where
    m: "average_of fl rows = Fixed2 m"
    and lo: "200 / 3 * (1 - unit_roundoff) ^ 5 - 1 / 200 < of_nat m / 100"
    and hi: "of_nat m / 100 \<le> 200 / 3 * (1 + unit_roundoff) ^ 5 + 1 / 200"
    unfolding mean_percentage_def S len by auto
  have "(of_nat 6667 :: rat) - 1 < of_nat m" using lo roundoff_small(3) by simp
  moreover have "(of_nat m :: rat) < of_nat 6667 + 1" using hi roundoff_small(4) by simp
  ultimately have "m = 6667" by (rule nat_between)
  then show ?thesis using m by simp
qed

lemma example_sorted_sessions:
  "sort_key (\<lambda>s. (date s, time s)) example_sessions = rev example_sessions"
  by (simp add: example_sessions_def)

lemma example_times_present:
  "times_present (rev example_sessions) ''S1'' = 2"
  "times_present (rev example_sessions) ''S2'' = 1"
  "times_present (rev example_sessions) ''S3'' = 1"
  "length example_sessions = 2"
  by (simp_all add: times_present_def example_sessions_def)

lemma example_render:
  "render (Fixed2 10000) = ''100.00''" "render (Fixed2 5000) = ''50.00''"
  "render (Fixed2 6667) = ''66.67''"
  by (simp_all add: render_def two_digits_def string_of_nat.simps)

lemma example_register:
  assumes dr: "double_rounding fl"
  shows "map_sum id
       (\<lambda>v. (map (\<lambda>r. (rr_studentID r, render (attendancePercentage r))) (rv_students v),
             render (averageAttendance v)))
       (register_route literal_regexp_i fl ''BCA'' (Some 2) ''DBMS'' example_roster example_sessions)
     = Inr ([(''S1'', ''100.00''), (''S2'', ''50.00''), (''S3'', ''50.00'')], ''66.67'')"
proof -
  let ?R = "[\<lparr>r_oid = 1, r_name = ''S1'', r_studentID = ''S1'', r_rollNumber = ''S1''\<rparr>,
    \<lparr>r_oid = 2, r_name = ''S2'', r_studentID = ''S2'', r_rollNumber = ''S2''\<rparr>,
    \<lparr>r_oid = 3, r_name = ''S3'', r_studentID = ''S3'', r_rollNumber = ''S3''\<rparr>]"
  let ?S = "rev example_sessions"
  let ?rows = "map (register_row_of fl ?S) ?R"
  have route: "register_route literal_regexp_i fl ''BCA'' (Some 2) ''DBMS'' example_roster
        example_sessions = Inr (build_register fl ?R ?S)"
    by (simp add: register_route_def example_regexp example_regexp_dbms example_active_roster
        example_class_sessions example_sorted_sessions)
  have ne: "?S \<noteq> []" by (simp add: example_sessions_def)
  have pcts: "map attendancePercentage ?rows = [Fixed2 10000, Fixed2 5000, Fixed2 5000]"
    using example_percentages [OF dr] ne
    by (simp add: register_row_percentage example_times_present)
  have ids: "map rr_studentID ?rows = [''S1'', ''S2'', ''S3'']"
    by (simp add: register_row_counts)
  have avg: "average_of fl ?rows = Fixed2 6667"
    by (rule example_average [OF dr pcts])
  have "map (\<lambda>r. (rr_studentID r, render (attendancePercentage r))) ?rows
          = zip (map rr_studentID ?rows) (map render (map attendancePercentage ?rows))"
    by simp
  then have rows: "map (\<lambda>r. (rr_studentID r, render (attendancePercentage r))) ?rows
          = [(''S1'', ''100.00''), (''S2'', ''50.00''), (''S3'', ''50.00'')]"
    unfolding ids pcts by (simp add: example_render)
  show ?thesis
    unfolding route using rows avg by (simp add: build_register_def Let_def example_render)
qed

lemma register_row_percentage_exact:
  assumes dr: "double_rounding fl" and len: "length sess < 2 ^ 32" and ne: "sess \<noteq> []"
  shows "attendancePercentage (register_row_of fl sess st)
           = Fixed2 (rounded_hundredths (exact_percentage sess (r_studentID st)))
       \<or> (tie (exact_percentage sess (r_studentID st))
          \<and> attendancePercentage (register_row_of fl sess st)
              = Fixed2 (rounded_hundredths (exact_percentage sess (r_studentID st)) - 1))"
proof -
  have t: "0 < length sess" using ne by simp
  from percentage_exact [OF dr t len times_present_le, of "r_studentID st"]
  show ?thesis using ne by (simp add: register_row_percentage exact_percentage_def)
qed

text \<open>
  Claim C7, as the code has it. With the arithmetic of the runtime, and a roster and a
  list of sessions that are JavaScript arrays:
  \<^item> without sessions every student's percentage is the number 0, and without students
    \<open>averageAttendance\<close> is the number 0: nothing is divided by zero;
  \<^item> a student's \<open>presentCount\<close> is the number of sessions that list the student, and
    \<open>presentCount + absentCount = totalSessions\<close>;
  \<^item> with sessions, the percentage is \<open>presentCount / totalSessions * 100\<close> rounded to two
    decimals, except that at a tie, where the exact value lies half way between two
    hundredths, the code answers either the upper or the lower of the two;
  \<^item> with students, \<open>averageAttendance\<close> is the two-decimal string nearest to the double
    computed for the mean of the students' percentages, which differs from the exact mean
    of the printed percentages by at most half a hundredth and one rounding for each
    student and two more; for a roster of fewer than \<open>2\<^sup>1\<^sup>8\<close> students it is that exact mean
    rounded to two decimals, with the same exception at a tie;
  \<^item> for the roster S1, S2, S3 with the sessions present S1, S2 and present S1, S3 the
    route answers 100.00 for S1, 50.00 for S2 and S3, and 66.67 for \<open>averageAttendance\<close>.
\<close>

theorem register_percentages:
  assumes dr: "double_rounding fl"
    and studs: "length studs < 2 ^ 32" and sess: "length sess < 2 ^ 32"
  shows "(\<forall>r\<in>set (rv_students (build_register fl studs [])). attendancePercentage r = Zero)
    \<and> averageAttendance (build_register fl [] sess) = Zero
    \<and> (\<forall>i<length studs.
          rr_presentCount (rv_students (build_register fl studs sess) ! i)
            = times_present sess (r_studentID (studs ! i))
          \<and> rr_presentCount (rv_students (build_register fl studs sess) ! i)
              + rr_absentCount (rv_students (build_register fl studs sess) ! i) = length sess
          \<and> (sess \<noteq> [] \<longrightarrow>
               (attendancePercentage (rv_students (build_register fl studs sess) ! i)
                  = Fixed2 (rounded_hundredths (exact_percentage sess (r_studentID (studs ! i))))
                \<or> (tie (exact_percentage sess (r_studentID (studs ! i)))
                   \<and> attendancePercentage (rv_students (build_register fl studs sess) ! i)
                       = Fixed2 (rounded_hundredths
                                   (exact_percentage sess (r_studentID (studs ! i))) - 1)))))
    \<and> (studs \<noteq> [] \<longrightarrow>
         (\<exists>m. averageAttendance (build_register fl studs sess) = Fixed2 m
            \<and> mean_percentage (rv_students (build_register fl studs sess))
                 * (1 - unit_roundoff) ^ (length studs + 2) - 1 / 200 < of_nat m / 100
            \<and> of_nat m / 100
                 \<le> mean_percentage (rv_students (build_register fl studs sess))
                    * (1 + unit_roundoff) ^ (length studs + 2) + 1 / 200
            \<and> (length studs < 2 ^ 18 \<longrightarrow>
                 (m = rounded_hundredths
                        (mean_percentage (rv_students (build_register fl studs sess)))
                  \<or> (tie (mean_percentage (rv_students (build_register fl studs sess)))
                     \<and> m = rounded_hundredths
                              (mean_percentage (rv_students (build_register fl studs sess)))
                            - 1)))))
    \<and> map_sum id
         (\<lambda>v. (map (\<lambda>r. (rr_studentID r, render (attendancePercentage r))) (rv_students v),
               render (averageAttendance v)))
         (register_route literal_regexp_i fl ''BCA'' (Some 2) ''DBMS'' example_roster
            example_sessions)
       = Inr ([(''S1'', ''100.00''), (''S2'', ''50.00''), (''S3'', ''50.00'')], ''66.67'')"
proof (intro conjI)
  show "\<forall>r\<in>set (rv_students (build_register fl studs [])). attendancePercentage r = Zero"
    by (auto simp: build_register_def Let_def register_row_percentage)
  show "averageAttendance (build_register fl [] sess) = Zero"
    by (simp add: build_register_def average_of_def)
  show "\<forall>i<length studs.
          rr_presentCount (rv_students (build_register fl studs sess) ! i)
            = times_present sess (r_studentID (studs ! i))
          \<and> rr_presentCount (rv_students (build_register fl studs sess) ! i)
              + rr_absentCount (rv_students (build_register fl studs sess) ! i) = length sess
          \<and> (sess \<noteq> [] \<longrightarrow>
               (attendancePercentage (rv_students (build_register fl studs sess) ! i)
                  = Fixed2 (rounded_hundredths (exact_percentage sess (r_studentID (studs ! i))))
                \<or> (tie (exact_percentage sess (r_studentID (studs ! i)))
                   \<and> attendancePercentage (rv_students (build_register fl studs sess) ! i)
                       = Fixed2 (rounded_hundredths
                                   (exact_percentage sess (r_studentID (studs ! i))) - 1))))"
  proof (intro allI impI)
    fix i assume i: "i < length studs"
    have row: "rv_students (build_register fl studs sess) ! i = register_row_of fl sess (studs ! i)"
      using i by (simp add: build_register_def Let_def)
    show "rr_presentCount (rv_students (build_register fl studs sess) ! i)
            = times_present sess (r_studentID (studs ! i))
          \<and> rr_presentCount (rv_students (build_register fl studs sess) ! i)
              + rr_absentCount (rv_students (build_register fl studs sess) ! i) = length sess
          \<and> (sess \<noteq> [] \<longrightarrow>
               (attendancePercentage (rv_students (build_register fl studs sess) ! i)
                  = Fixed2 (rounded_hundredths (exact_percentage sess (r_studentID (studs ! i))))
                \<or> (tie (exact_percentage sess (r_studentID (studs ! i)))
                   \<and> attendancePercentage (rv_students (build_register fl studs sess) ! i)
                       = Fixed2 (rounded_hundredths
                                   (exact_percentage sess (r_studentID (studs ! i))) - 1))))"
      unfolding row
      using register_row_counts(1,2) [of fl sess "studs ! i"]
        register_row_percentage_exact [OF dr sess, of "studs ! i"]
      by blast
  qed
  show "studs \<noteq> [] \<longrightarrow>
         (\<exists>m. averageAttendance (build_register fl studs sess) = Fixed2 m
            \<and> mean_percentage (rv_students (build_register fl studs sess))
                 * (1 - unit_roundoff) ^ (length studs + 2) - 1 / 200 < of_nat m / 100
            \<and> of_nat m / 100
                 \<le> mean_percentage (rv_students (build_register fl studs sess))
                    * (1 + unit_roundoff) ^ (length studs + 2) + 1 / 200
            \<and> (length studs < 2 ^ 18 \<longrightarrow>
                 (m = rounded_hundredths
                        (mean_percentage (rv_students (build_register fl studs sess)))
                  \<or> (tie (mean_percentage (rv_students (build_register fl studs sess)))
                     \<and> m = rounded_hundredths
                              (mean_percentage (rv_students (build_register fl studs sess)))
                            - 1))))"
  proof
    assume "studs \<noteq> []"
    define rows where "rows = map (register_row_of fl sess) studs"
    have ne: "rows \<noteq> []" using \<open>studs \<noteq> []\<close> by (simp add: rows_def)
    have len: "length rows < 2 ^ 32" using studs by (simp add: rows_def)
    have lr: "length rows = length studs" by (simp add: rows_def)
    have all: "\<forall>r\<in>set rows. percent_value (attendancePercentage r) \<le> 101"
      using register_row_percentage_le [OF dr sess] by (auto simp: rows_def)
    have reg: "rv_students (build_register fl studs sess) = rows"
      "averageAttendance (build_register fl studs sess) = average_of fl rows"
      by (simp_all add: build_register_def Let_def rows_def)
    from average_bounds [OF dr ne len all] obtain m where
      m: "average_of fl rows = Fixed2 m"
        "mean_percentage rows * (1 - unit_roundoff) ^ (length rows + 2) - 1 / 200 < of_nat m / 100"
        "of_nat m / 100 \<le> mean_percentage rows * (1 + unit_roundoff) ^ (length rows + 2) + 1 / 200"
      by blast
    have "length studs < 2 ^ 18 \<longrightarrow>
                 (m = rounded_hundredths (mean_percentage rows)
                  \<or> (tie (mean_percentage rows) \<and> m = rounded_hundredths (mean_percentage rows) - 1))"
    proof
      assume "length studs < 2 ^ 18"
      then have "length rows < 2 ^ 18" by (simp add: lr)
      from average_exact [OF dr ne this all]
      show "m = rounded_hundredths (mean_percentage rows)
          \<or> (tie (mean_percentage rows) \<and> m = rounded_hundredths (mean_percentage rows) - 1)"
        unfolding m(1) by simp
    qed
    then show "\<exists>m. averageAttendance (build_register fl studs sess) = Fixed2 m
            \<and> mean_percentage (rv_students (build_register fl studs sess))
                 * (1 - unit_roundoff) ^ (length studs + 2) - 1 / 200 < of_nat m / 100
            \<and> of_nat m / 100
                 \<le> mean_percentage (rv_students (build_register fl studs sess))
                    * (1 + unit_roundoff) ^ (length studs + 2) + 1 / 200
            \<and> (length studs < 2 ^ 18 \<longrightarrow>
                 (m = rounded_hundredths
                        (mean_percentage (rv_students (build_register fl studs sess)))
                  \<or> (tie (mean_percentage (rv_students (build_register fl studs sess)))
                     \<and> m = rounded_hundredths
                              (mean_percentage (rv_students (build_register fl studs sess)))
                            - 1)))"
      unfolding reg using m unfolding lr by blast
  qed
  show "map_sum id
         (\<lambda>v. (map (\<lambda>r. (rr_studentID r, render (attendancePercentage r))) (rv_students v),
               render (averageAttendance v)))
         (register_route literal_regexp_i fl ''BCA'' (Some 2) ''DBMS'' example_roster
            example_sessions)
       = Inr ([(''S1'', ''100.00''), (''S2'', ''50.00''), (''S3'', ''50.00'')], ''66.67'')"
    by (rule example_register [OF dr])
qed

theorem register_percentages_witness:
  "double_rounding binary64
   \<and> length (active_roster (\<lambda>s. anchored (toLowerCase s) = toLowerCase (anchored ''BCA''))
                (Some 2) example_roster) = 3
   \<and> length (rev example_sessions) = 2
   \<and> map (\<lambda>r. (rr_presentCount r, rr_absentCount r))
         (rv_students (build_register binary64
            (active_roster (\<lambda>s. anchored (toLowerCase s) = toLowerCase (anchored ''BCA''))
               (Some 2) example_roster) (rev example_sessions)))
       = [(2, 0), (1, 1), (1, 1)]
   \<and> map_sum id
         (\<lambda>v. (map (\<lambda>r. (rr_studentID r, render (attendancePercentage r))) (rv_students v),
               render (averageAttendance v)))
         (register_route literal_regexp_i binary64 ''BCA'' (Some 2) ''DBMS'' example_roster
            example_sessions)
       = Inr ([(''S1'', ''100.00''), (''S2'', ''50.00''), (''S3'', ''50.00'')], ''66.67'')
   \<and> averageAttendance (build_register binary64 [] (rev example_sessions)) = Zero"
proof -
  define L where "L = active_roster (\<lambda>s. anchored (toLowerCase s) = toLowerCase (anchored ''BCA''))
                (Some 2) example_roster"
  define S where "S = rev example_sessions"
  define B where "B = rv_students (build_register binary64 L S)"
  have w1: "length L = 3" by (simp add: L_def example_active_roster)
  have w2: "length S = 2" by (simp add: S_def example_sessions_def)
  have l: "length L < 2 ^ 32" "length S < 2 ^ 32" unfolding w1 w2 by simp_all
  have l0: "length ([] :: student_row list) < 2 ^ 32" by simp
  note inst = register_percentages [OF double_rounding_binary64 l]
  note inst0 = register_percentages [OF double_rounding_binary64 l0 l(2)]
  have counts: "rr_presentCount (B ! i) = times_present S (r_studentID (L ! i))
      \<and> rr_presentCount (B ! i) + rr_absentCount (B ! i) = 2" if "i < 3" for i
    using inst [THEN conjunct2, THEN conjunct2, THEN conjunct1, rule_format, of i] that
    unfolding w1 w2 B_def by blast
  have ids: "r_studentID (L ! 0) = ''S1''" "r_studentID (L ! Suc 0) = ''S2''"
    "r_studentID (L ! 2) = ''S3''"
    by (simp_all add: L_def example_active_roster)
  have "length B = 3" by (simp add: B_def build_register_def Let_def w1)
  then obtain r0 r1 r2 where rows: "B = [r0, r1, r2]"
    by (auto simp: length_Suc_conv numeral_3_eq_3)
  have "rr_presentCount r0 = 2 \<and> rr_presentCount r0 + rr_absentCount r0 = 2"
    using counts [of 0] by (simp add: rows ids S_def example_times_present)
  moreover have "rr_presentCount r1 = 1 \<and> rr_presentCount r1 + rr_absentCount r1 = 2"
    using counts [of 1] by (simp add: rows ids S_def example_times_present)
  moreover have "rr_presentCount r2 = 1 \<and> rr_presentCount r2 + rr_absentCount r2 = 2"
    using counts [of 2] by (simp add: rows ids S_def example_times_present)
  ultimately have w3: "map (\<lambda>r. (rr_presentCount r, rr_absentCount r)) B
       = [(2, 0), (1, 1), (1, 1)]"
    unfolding rows by simp
  have w4: "map_sum id
         (\<lambda>v. (map (\<lambda>r. (rr_studentID r, render (attendancePercentage r))) (rv_students v),
               render (averageAttendance v)))
         (register_route literal_regexp_i binary64 ''BCA'' (Some 2) ''DBMS'' example_roster
            example_sessions)
       = Inr ([(''S1'', ''100.00''), (''S2'', ''50.00''), (''S3'', ''50.00'')], ''66.67'')"
    using inst [THEN conjunct2, THEN conjunct2, THEN conjunct2, THEN conjunct2] .
  have w5: "averageAttendance (build_register binary64 [] S) = Zero"
    using inst0 [THEN conjunct2, THEN conjunct1] .
  show ?thesis
    using double_rounding_binary64 w1 w2 w3 w4 w5 unfolding B_def L_def S_def
    by (intro conjI)
qed

section \<open>Register: a percentage below the rounded quotient\<close>

lemma filter_less_upt: "filter (\<lambda>k. k < m) [0 ..< n] = [0 ..< min m n]"
proof (induction n)
  case 0
  show ?case by simp
next
  case (Suc n)
  show ?case
  proof (cases "n < m")
    case True
    then have "min m (Suc n) = Suc (min m n)" by simp
    then show ?thesis using True Suc by simp
  next
    case False
    then show ?thesis using Suc by (simp add: min_def)
  qed
qed

lemma long_class_counts:
  "length long_class = 160" "times_present long_class ''S1'' = 23"
proof -
  show "length long_class = 160" by (simp add: long_class_def)
  have "filter (\<lambda>s. ''S1'' \<in> set (studentsPresent s)) long_class
      = map (\<lambda>k. \<lparr>sessionId = 100 + k, s_stream = ''BCA'', s_semester = 2, subject = ''DBMS'',
                 date = 1736467200000 + 86400000 * int k, time = ''10:00 AM - 11:00 AM'',
                 studentsPresent = (if k < 23 then [''S1''] else []),
                 totalStudents = 1, presentCount = (if k < 23 then 1 else 0),
                 absentCount = (if k < 23 then 0 else 1), createdAt = 0, s_updatedAt = 0\<rparr>)
          (filter (\<lambda>k. k < 23) [0 ..< 160])"
    unfolding long_class_def filter_map by (simp add: comp_def cong: filter_cong)
  then show "times_present long_class ''S1'' = 23"
    by (simp add: times_present_def filter_less_upt)
qed

lemma long_class_of_class:
  "class_sessions (\<lambda>s. anchored (toLowerCase s) = toLowerCase (anchored ''BCA'')) 2
     (\<lambda>s. anchored (toLowerCase s) = toLowerCase (anchored ''DBMS'')) long_class
   = long_class"
  unfolding class_sessions_def long_class_def filter_map
  by (simp add: comp_def example_matches)

lemma long_class_sorted: "sort_key (\<lambda>s. (date s, time s)) long_class = long_class"
proof (rule sort_key_id_if_sorted)
  have "sorted_wrt (\<lambda>i j. (1736467200000 + 86400000 * int i, ''10:00 AM - 11:00 AM'')
                          \<le> (1736467200000 + 86400000 * int j, ''10:00 AM - 11:00 AM''))
          [0 ..< 160]"
    by (rule sorted_wrt_mono_rel [of _ "(\<le>)"]) auto
  then show "sorted (map (\<lambda>s. (date s, time s)) long_class)"
    unfolding long_class_def by (simp add: sorted_map comp_def)
qed

lemma quotient_23_160:
  "toFixed2 (binary64 (binary64 (of_nat 23 / of_nat 160) * 100)) = Fixed2 1437"
proof -
  have a: "binary64 (23 / 160) = 5179139571476070 / 2 ^ 55"
    by (subst binary64_at [where e = "- 3"])
      (simp_all add: round_half_even_nearest [where n = 5179139571476070] power_int_minus_divide)
  have b: "binary64 (5179139571476070 / 2 ^ 55 * 100) = 8092405580431359 / 2 ^ 49"
    by (subst binary64_at [where e = 3])
      (simp_all add: round_half_even_nearest [where n = 8092405580431359] power_int_minus_divide)
  have "\<lfloor>(8092405580431359 / 2 ^ 49 * 100 + 1 / 2 :: rat)\<rfloor> = 1437"
    by (rule floor_unique) simp_all
  then have c: "toFixed2 (8092405580431359 / 2 ^ 49) = Fixed2 1437"
    by (simp only: toFixed2_def) simp
  have q: "of_nat 23 / of_nat 160 = (23 / 160 :: rat)" by simp
  show ?thesis unfolding q a b c ..
qed

text \<open>
  Claim C7 as stated fails. In a class of 160 sessions a student who is present at 23 of
  them has \<open>23 / 160 * 100 = 14.375\<close>, which is 14.38 when rounded to two decimals. The
  doubles of the code are \<open>23 / 160 = 0.14375\<close> rounded down and its product with 100
  rounded down again, a number just below 14.375, and \<open>toFixed(2)\<close> answers 14.37.
\<close>

theorem percentage_below_rounded:
  "map_sum id
     (\<lambda>v. map (\<lambda>r. (rr_studentID r, rr_presentCount r, rr_totalSessions r,
                      render (attendancePercentage r))) (rv_students v))
     (register_route literal_regexp_i binary64 ''BCA'' (Some 2) ''DBMS''
        [example_student 5 ''S1'' ''BCA'' 2] long_class)
     = Inr [(''S1'', 23, 160, ''14.37'')]
   \<and> exact_percentage long_class ''S1'' = 14375 / 1000
   \<and> render (Fixed2 (rounded_hundredths (exact_percentage long_class ''S1''))) = ''14.38''"
proof -
  let ?st = "\<lparr>r_oid = 5, r_name = ''S1'', r_studentID = ''S1'', r_rollNumber = ''S1''\<rparr>"
  have roster: "active_roster (\<lambda>s. anchored (toLowerCase s) = toLowerCase (anchored ''BCA''))
      (Some 2) [example_student 5 ''S1'' ''BCA'' 2] = [?st]"
    by (simp add: active_roster_def example_student_def example_matches project_student_def)
  have route: "register_route literal_regexp_i binary64 ''BCA'' (Some 2) ''DBMS''
        [example_student 5 ''S1'' ''BCA'' 2] long_class
      = Inr (build_register binary64 [?st] long_class)"
    by (simp add: register_route_def example_regexp example_regexp_dbms roster
        long_class_of_class long_class_sorted)
  have ne: "long_class \<noteq> []" using long_class_counts(1) by auto
  have pct: "attendancePercentage (register_row_of binary64 long_class ?st) = Fixed2 1437"
    using ne quotient_23_160 by (simp add: register_row_percentage long_class_counts)
  have cnt: "rr_presentCount (register_row_of binary64 long_class ?st) = 23"
    "rr_totalSessions (register_row_of binary64 long_class ?st) = 160"
    "rr_studentID (register_row_of binary64 long_class ?st) = ''S1''"
    by (simp_all add: register_row_counts long_class_counts)
  have r1437: "render (Fixed2 1437) = ''14.37''"
    by (simp add: render_def two_digits_def string_of_nat.simps)
  have p1: "map_sum id
     (\<lambda>v. map (\<lambda>r. (rr_studentID r, rr_presentCount r, rr_totalSessions r,
                      render (attendancePercentage r))) (rv_students v))
     (register_route literal_regexp_i binary64 ''BCA'' (Some 2) ''DBMS''
        [example_student 5 ''S1'' ''BCA'' 2] long_class)
     = Inr [(''S1'', 23, 160, ''14.37'')]"
    unfolding route by (simp add: build_register_def Let_def pct cnt r1437)
  have p2: "exact_percentage long_class ''S1'' = 14375 / 1000"
    by (simp add: exact_percentage_def long_class_counts)
  have p3: "render (Fixed2 (rounded_hundredths (exact_percentage long_class ''S1''))) = ''14.38''"
    unfolding p2 by (simp add: rounded_hundredths_def render_def two_digits_def string_of_nat.simps)
  show ?thesis by (intro conjI p1 p2 p3)
qed

section \<open>Teacher documents: ensureTeacherFields\<close>

lemma updateOne_id: "updateOne matches (\<lambda>t. t) ts = ts"
  by (induction ts) auto

lemma ensureTeacherFields_eq:
  "ensureTeacherFields email ts =
     (True, updateOne (\<lambda>t. t_email t = email \<and> missing_field t) set_empty_arrays ts)"
  by (simp add: ensureTeacherFields_def updateOne_id)

lemma updateOne_no_match: "\<forall>t\<in>set ts. \<not> matches t \<Longrightarrow> updateOne matches upd ts = ts"
  by (induction ts) auto

lemma missing_field_set_empty_arrays: "\<not> missing_field (set_empty_arrays t)"
  by (simp add: missing_field_def set_empty_arrays_def)

lemma t_email_set_empty_arrays: "t_email (set_empty_arrays t) = t_email t"
  by (simp add: set_empty_arrays_def)

lemma repaired_no_match:
  "distinct (map t_email ts) \<Longrightarrow>
     \<forall>t\<in>set (updateOne (\<lambda>t. t_email t = email \<and> missing_field t) set_empty_arrays ts).
        \<not> (t_email t = email \<and> missing_field t)"
proof (induction ts)
  case Nil
  show ?case by simp
next
  case (Cons t ts)
  show ?case
  proof (cases "t_email t = email \<and> missing_field t")
    case True
    then have "email \<notin> t_email ` set ts" using Cons.prems by simp
    then have "\<forall>u\<in>set ts. t_email u \<noteq> email" by blast
    then show ?thesis
      using True by (simp add: missing_field_set_empty_arrays)
  next
    case False
    then show ?thesis using Cons by auto
  qed
qed

lemma length_updateOne: "length (updateOne matches upd ts) = length ts"
  by (induction ts) auto

lemma nth_repaired:
  "distinct (map t_email ts) \<Longrightarrow> i < length ts \<Longrightarrow>
     updateOne (\<lambda>t. t_email t = email \<and> missing_field t) set_empty_arrays ts ! i =
       (if t_email (ts ! i) = email \<and> missing_field (ts ! i) then set_empty_arrays (ts ! i)
        else ts ! i)"
proof (induction ts arbitrary: i)
  case Nil
  then show ?case by simp
next
  case (Cons t ts)
  show ?case
  proof (cases "t_email t = email \<and> missing_field t")
    case True
    then have "email \<notin> t_email ` set ts" using Cons.prems(1) by simp
    then have other: "\<forall>u\<in>set ts. t_email u \<noteq> email" by blast
    show ?thesis
    proof (cases i)
      case 0
      then show ?thesis using True by simp
    next
      case (Suc j)
      then have "ts ! j \<in> set ts" using Cons.prems(2) by simp
      then have "t_email (ts ! j) \<noteq> email" using other by blast
      then show ?thesis using True Suc by simp
    qed
  next
    case False
    show ?thesis
    proof (cases i)
      case 0
      then show ?thesis using False by auto
    next
      case (Suc j)
      then show ?thesis using False Cons.IH [of j] Cons.prems by auto
    qed
  qed
qed

text \<open>
  What does hold of \<open>ensureTeacherFields\<close> on a collection whose emails are unique: it
  returns \<open>true\<close>; a second call changes nothing that the first call has left; after the
  call every document of the teacher has the three arrays; a document of the teacher that
  lacked one of them has all three as empty arrays, whatever the other two held; and a
  document whose three arrays exist is left exactly as it is, as are the documents of the
  other teachers.
\<close>

lemma ensureTeacherFields_idempotent:
  assumes "distinct (map t_email ts)"
  shows "fst (ensureTeacherFields email ts) = True
    \<and> ensureTeacherFields email (snd (ensureTeacherFields email ts)) = ensureTeacherFields email ts
    \<and> length (snd (ensureTeacherFields email ts)) = length ts
    \<and> (\<forall>t\<in>set (snd (ensureTeacherFields email ts)). t_email t = email \<longrightarrow>
          createdSubjects t \<noteq> None \<and> attendanceQueue t \<noteq> None \<and> completedClasses t \<noteq> None)
    \<and> (\<forall>i<length ts. t_email (ts ! i) = email \<and> missing_field (ts ! i) \<longrightarrow>
          createdSubjects (snd (ensureTeacherFields email ts) ! i) = Some []
          \<and> attendanceQueue (snd (ensureTeacherFields email ts) ! i) = Some []
          \<and> completedClasses (snd (ensureTeacherFields email ts) ! i) = Some [])
    \<and> (\<forall>i<length ts. \<not> (t_email (ts ! i) = email \<and> missing_field (ts ! i)) \<longrightarrow>
          snd (ensureTeacherFields email ts) ! i = ts ! i)"
proof -
  let ?ts' = "updateOne (\<lambda>t. t_email t = email \<and> missing_field t) set_empty_arrays ts"
  have none: "\<forall>t\<in>set ?ts'. \<not> (t_email t = email \<and> missing_field t)"
    by (rule repaired_no_match [OF assms])
  have idem: "updateOne (\<lambda>t. t_email t = email \<and> missing_field t) set_empty_arrays ?ts' = ?ts'"
    by (rule updateOne_no_match [OF none])
  have present: "\<forall>t\<in>set ?ts'. t_email t = email \<longrightarrow>
          createdSubjects t \<noteq> None \<and> attendanceQueue t \<noteq> None \<and> completedClasses t \<noteq> None"
    using none by (auto simp: missing_field_def)
  have empty: "\<forall>i<length ts. t_email (ts ! i) = email \<and> missing_field (ts ! i) \<longrightarrow>
          createdSubjects (?ts' ! i) = Some [] \<and> attendanceQueue (?ts' ! i) = Some []
          \<and> completedClasses (?ts' ! i) = Some []"
    using nth_repaired [OF assms] by (simp add: set_empty_arrays_def)
  have kept: "\<forall>i<length ts. \<not> (t_email (ts ! i) = email \<and> missing_field (ts ! i)) \<longrightarrow>
          ?ts' ! i = ts ! i"
    using nth_repaired [OF assms] by simp
  show ?thesis
    unfolding ensureTeacherFields_eq fst_conv snd_conv idem
    using present empty kept by (simp add: length_updateOne)
qed

lemma ensureTeacherFields_idempotent_example:
  "distinct (map t_email example_teachers)
   \<and> snd (ensureTeacherFields ''a@x.org'' example_teachers) =
       [\<lparr>t_email = ''b@x.org'', t_firebaseUid = Some ''u2'', t_name = Some ''B'',
         createdSubjects = Some [example_item], attendanceQueue = Some [],
         completedClasses = Some []\<rparr>,
        \<lparr>t_email = ''a@x.org'', t_firebaseUid = Some ''u1'', t_name = Some ''A'',
         createdSubjects = Some [], attendanceQueue = Some [], completedClasses = Some []\<rparr>]
   \<and> ensureTeacherFields ''a@x.org'' (snd (ensureTeacherFields ''a@x.org'' example_teachers))
       = ensureTeacherFields ''a@x.org'' example_teachers
   \<and> snd (ensureTeacherFields ''b@x.org'' example_teachers) ! 0 = example_teachers ! 0"
proof -
  have d: "distinct (map t_email example_teachers)"
    by (simp add: example_teachers_def)
  have r: "snd (ensureTeacherFields ''a@x.org'' example_teachers) =
       [\<lparr>t_email = ''b@x.org'', t_firebaseUid = Some ''u2'', t_name = Some ''B'',
         createdSubjects = Some [example_item], attendanceQueue = Some [],
         completedClasses = Some []\<rparr>,
        \<lparr>t_email = ''a@x.org'', t_firebaseUid = Some ''u1'', t_name = Some ''A'',
         createdSubjects = Some [], attendanceQueue = Some [], completedClasses = Some []\<rparr>]"
    by (simp add: ensureTeacherFields_eq example_teachers_def missing_field_def
        set_empty_arrays_def)
  have m: "\<not> (t_email (example_teachers ! 0) = ''b@x.org'' \<and> missing_field (example_teachers ! 0))"
    by (simp add: example_teachers_def missing_field_def)
  have i: "ensureTeacherFields ''a@x.org'' (snd (ensureTeacherFields ''a@x.org'' example_teachers))
       = ensureTeacherFields ''a@x.org'' example_teachers"
    using ensureTeacherFields_idempotent [OF d, of "''a@x.org''"] by blast
  have k: "snd (ensureTeacherFields ''b@x.org'' example_teachers) ! 0 = example_teachers ! 0"
    using ensureTeacherFields_idempotent [OF d, of "''b@x.org''"] m
    by (simp add: example_teachers_def)
  show ?thesis by (intro conjI d r i k)
qed

text \<open>
  Claim C10, evaluated. A teacher who has no document adds a first subject: the upsert of
  \<open>POST /subjects\<close> creates a document that holds \<open>createdSubjects\<close> and neither of the
  other two arrays. The next call of \<open>ensureTeacherFields\<close> for that teacher finds an array
  missing and sets all three to the empty array, the populated \<open>createdSubjects\<close> among
  them. So a second \<open>POST /subjects\<close>, which calls it first, leaves the teacher with the
  second subject alone: the first one is lost.
\<close>

theorem ensureTeacherFields_empties_subjects:
  "add_subject (Some ''a@x.org'') (Some example_item) []
     = Inr [\<lparr>t_email = ''a@x.org'', t_firebaseUid = None, t_name = None,
              createdSubjects = Some [example_item], attendanceQueue = None,
              completedClasses = None\<rparr>]
   \<and> ensureTeacherFields ''a@x.org''
         [\<lparr>t_email = ''a@x.org'', t_firebaseUid = None, t_name = None,
           createdSubjects = Some [example_item], attendanceQueue = None,
           completedClasses = None\<rparr>]
     = (True, [\<lparr>t_email = ''a@x.org'', t_firebaseUid = None, t_name = None,
                createdSubjects = Some [], attendanceQueue = Some [],
                completedClasses = Some []\<rparr>])
   \<and> add_subject (Some ''a@x.org'') (Some second_item)
         [\<lparr>t_email = ''a@x.org'', t_firebaseUid = None, t_name = None,
           createdSubjects = Some [example_item], attendanceQueue = None,
           completedClasses = None\<rparr>]
     = Inr [\<lparr>t_email = ''a@x.org'', t_firebaseUid = None, t_name = None,
              createdSubjects = Some [second_item], attendanceQueue = Some [],
              completedClasses = Some []\<rparr>]"
  by (simp add: add_subject_def ensureTeacherFields_eq missing_field_def set_empty_arrays_def
      validateSubject_def example_item_def second_item_def push_subject_def same_subject_def)

end
